(* ===== verification/Prelude.thy ===== *)
theory Prelude
  imports Main "HOL-Library.Multiset" "HOL-Library.Word"
begin

text \<open>
  What every component shares.  Go values first: the 64-bit integers of \<open>int\<close>, \<open>int64\<close> and
  \<open>time.Duration\<close> are mathematical integers kept in range by an explicit \<open>wrap64\<close>; bytes are
  8-bit words in frames and characters in strings (a Go string is a byte sequence, and so is
  a HOL \<open>string\<close>).  Then the contracts several components promise, as locales: a run of
  operations that keeps an invariant, an encoder with its decoder, and a store keyed by an
  identifier.
\<close>

named_theorems wf_intros \<open>preservation of the components' well-formedness\<close>
named_theorems go_arith \<open>machine arithmetic that stays in range\<close>

type_synonym byte = "8 word"
type_synonym u16 = "16 word"
type_synonym u32 = "32 word"
type_synonym u64 = "64 word"

section \<open>Signed 64-bit integers\<close>

definition min_i64 :: int where "min_i64 = - (2 ^ 63)"

definition max_i64 :: int where "max_i64 = 2 ^ 63 - 1"

text \<open>Go's signed arithmetic wraps around silently.\<close>

definition wrap64 :: "int \<Rightarrow> int" where
  "wrap64 x = (x + 2 ^ 63) mod 2 ^ 64 - 2 ^ 63"

definition in_i64 :: "int \<Rightarrow> bool" where
  "in_i64 x \<longleftrightarrow> min_i64 \<le> x \<and> x \<le> max_i64"

text \<open>\<open>time.Time.Sub\<close> saturates instead.\<close>

definition sat64 :: "int \<Rightarrow> int" where
  "sat64 x = max min_i64 (min max_i64 x)"

text \<open>Go's \<open>/\<close> and \<open>%\<close> on signed integers truncate towards zero.\<close>

definition quot :: "int \<Rightarrow> int \<Rightarrow> int" where
  "quot a b = (if 0 \<le> a then a div b else - ((- a) div b))"

lemma in_i64_iff: "in_i64 x \<longleftrightarrow> - 9223372036854775808 \<le> x \<and> x \<le> 9223372036854775807"
  by (simp add: in_i64_def min_i64_def max_i64_def)

lemma wrap64_in_range [simp]: "in_i64 (wrap64 x)"
proof -
  have "0 \<le> (x + 2 ^ 63) mod 2 ^ 64" "(x + 2 ^ 63) mod 2 ^ 64 < 2 ^ 64" by simp_all
  then show ?thesis by (simp add: in_i64_iff wrap64_def)
qed

lemma wrap64_id [go_arith]: "in_i64 x \<Longrightarrow> wrap64 x = x"
  by (simp add: in_i64_iff wrap64_def mod_pos_pos_trivial)

text \<open>A sum or product that is too large by less than the range comes out below zero.\<close>

lemma wrap64_over: "2 ^ 63 \<le> x \<Longrightarrow> x < 3 * 2 ^ 63 \<Longrightarrow> wrap64 x = x - 2 ^ 64"
proof -
  assume x: "2 ^ 63 \<le> x" "x < 3 * 2 ^ 63"
  have "(x + 2 ^ 63) mod 2 ^ 64 = (x + 2 ^ 63 - 2 ^ 64) mod 2 ^ 64" by (simp only: minus_mod_self2)
  also have "\<dots> = x + 2 ^ 63 - 2 ^ 64" using x by (intro mod_pos_pos_trivial) simp_all
  finally show ?thesis by (simp add: wrap64_def)
qed

lemma sint_word_of_int_64: "sint (word_of_int x :: 64 word) = wrap64 x"
  by (simp add: wrap64_def sint_sbintrunc' signed_take_bit_eq_take_bit_shift take_bit_eq_mod)

lemma sat64_in_range [simp]: "in_i64 (sat64 x)"
  by (simp add: in_i64_def sat64_def min_i64_def max_i64_def)

lemma sat64_id [go_arith]: "in_i64 x \<Longrightarrow> sat64 x = x"
  by (simp add: in_i64_def sat64_def)

lemma sat64_mono: "x \<le> y \<Longrightarrow> sat64 x \<le> sat64 y"
  by (auto simp: sat64_def)

lemma sat64_gt_iff: "in_i64 d \<Longrightarrow> d < max_i64 \<Longrightarrow> min_i64 \<le> d \<Longrightarrow> d < sat64 x \<longleftrightarrow> d < x"
  by (auto simp: sat64_def in_i64_def)

lemma quot_nonneg: "0 \<le> a \<Longrightarrow> quot a b = a div b"
  by (simp add: quot_def)

section \<open>Visiting orders\<close>

text \<open>
  Go leaves the order in which \<open>range\<close> visits a map unspecified and different from loop to
  loop.  A definition that ranges over a map takes the order as an argument: a function that
  permutes the entries.
\<close>

definition visits :: "('a list \<Rightarrow> 'a list) \<Rightarrow> bool" where
  "visits ord \<longleftrightarrow> (\<forall>xs. mset (ord xs) = mset xs)"

lemma visits_id [simp]: "visits (\<lambda>xs. xs)"
  by (simp add: visits_def)

lemma visits_rev [simp]: "visits rev"
  by (simp add: visits_def)

lemma visits_mset: "visits ord \<Longrightarrow> mset (ord xs) = mset xs"
  by (simp add: visits_def)

lemma visits_set: "visits ord \<Longrightarrow> set (ord xs) = set xs"
  by (metis visits_mset set_mset_mset)

lemma visits_length: "visits ord \<Longrightarrow> length (ord xs) = length xs"
  by (metis visits_mset size_mset)

lemma visits_mset_map: "visits ord \<Longrightarrow> mset (map f (ord xs)) = mset (map f xs)"
  by (simp add: visits_mset)

lemma visits_distinct_map: "visits ord \<Longrightarrow> distinct (map f (ord xs)) = distinct (map f xs)"
  by (metis visits_mset_map mset_eq_imp_distinct_iff)

lemma visits_sum_list:
  fixes f :: "'a \<Rightarrow> 'b :: comm_monoid_add"
  shows "visits ord \<Longrightarrow> (\<Sum>x\<leftarrow>ord xs. f x) = (\<Sum>x\<leftarrow>xs. f x)"
  by (metis visits_mset_map sum_mset_sum_list)

lemma find_SomeD: "find P xs = Some x \<Longrightarrow> x \<in> set xs \<and> P x"
  by (induction xs) (auto split: if_splits)

section \<open>Contracts\<close>

text \<open>A component whose every operation keeps an invariant keeps it over any run.\<close>

locale invariant_machine =
  fixes step :: "'op \<Rightarrow> 's \<Rightarrow> 's"
    and inv :: "'s \<Rightarrow> bool"
  assumes step_keeps: "inv s \<Longrightarrow> inv (step x s)"
begin

lemma run_keeps: "inv s \<Longrightarrow> inv (fold step xs s)"
  by (induction xs arbitrary: s) (auto intro: step_keeps)

lemma run_prefix_keeps: "inv s \<Longrightarrow> inv (fold step (take n xs) s)"
  by (rule run_keeps)

end

text \<open>
  An admission counter: while the invariant holds, no step raises a key's level past the cap.
\<close>

locale capped_counter = invariant_machine step inv
  for step :: "'op \<Rightarrow> 's \<Rightarrow> 's" and inv :: "'s \<Rightarrow> bool" +
  fixes level :: "'s \<Rightarrow> 'k \<Rightarrow> int"
    and cap :: "'s \<Rightarrow> int"
  assumes level_capped: "inv s \<Longrightarrow> level s k \<le> cap s"
    and cap_fixed: "cap (step x s) = cap s"
begin

lemma run_cap: "cap (fold step xs s) = cap s"
  by (induction xs arbitrary: s) (simp_all add: cap_fixed)

lemma run_level: "inv s \<Longrightarrow> level (fold step xs s) k \<le> cap s"
  using level_capped [OF run_keeps] by (simp add: run_cap)

end

text \<open>
  A relation of labelled steps with its runs, grown at either end: what every step keeps, every run
  keeps; what every step from an invariant state says of its label, every label of a run satisfies;
  and a measure that steps pay for bounds the cost of the run.
\<close>

locale labelled_machine =
  fixes step :: "'l \<Rightarrow> 's \<Rightarrow> 's \<Rightarrow> bool"
    and trace :: "'l list \<Rightarrow> 's \<Rightarrow> 's \<Rightarrow> bool"
  assumes trace_Nil: "trace [] s t \<longleftrightarrow> s = t"
    and trace_Cons: "trace (l # ls) s u \<longleftrightarrow> (\<exists>t. step l s t \<and> trace ls t u)"
begin

lemma trace_snoc: "trace (ls @ [l]) s u \<longleftrightarrow> (\<exists>t. trace ls s t \<and> step l t u)"
  by (induction ls arbitrary: s) (auto simp: trace_Nil trace_Cons)

lemma trace_keeps:
  assumes "\<And>l s t. step l s t \<Longrightarrow> P s \<Longrightarrow> P t"
  shows "trace ls s t \<Longrightarrow> P s \<Longrightarrow> P t"
  by (induction ls arbitrary: s) (auto simp: trace_Nil trace_Cons intro: assms)

lemma trace_labels:
  assumes "\<And>l s t. step l s t \<Longrightarrow> P s \<Longrightarrow> P t \<and> good l"
  shows "trace ls s t \<Longrightarrow> P s \<Longrightarrow> P t \<and> list_all good ls"
  by (induction ls arbitrary: s) (use assms in \<open>fastforce simp: trace_Nil trace_Cons\<close>)+

lemma trace_cost:
  fixes cost :: "'l \<Rightarrow> nat" and left :: "'s \<Rightarrow> nat"
  assumes "\<And>l s t. step l s t \<Longrightarrow> cost l + left t \<le> left s"
  shows "trace ls s t \<Longrightarrow> (\<Sum>l\<leftarrow>ls. cost l) + left t \<le> left s"
  by (induction ls arbitrary: s) (use assms in \<open>fastforce simp: trace_Nil trace_Cons\<close>)+

lemma trace_log:
  assumes "\<And>l s t. step l s t \<Longrightarrow> log t = log s @ f l"
  shows "trace ls s t \<Longrightarrow> log t = log s @ concat (map f ls)"
  by (induction ls arbitrary: s) (auto simp: trace_Nil trace_Cons assms)

end

text \<open>An encoder and a decoder that inverts it on the values the encoder accepts.\<close>

locale codec =
  fixes ok :: "'a \<Rightarrow> bool"
    and enc :: "'a \<Rightarrow> 'b"
    and dec :: "'b \<Rightarrow> 'a option"
  assumes dec_enc: "ok x \<Longrightarrow> dec (enc x) = Some x"
begin

lemma enc_inj: "ok x \<Longrightarrow> ok y \<Longrightarrow> enc x = enc y \<Longrightarrow> x = y"
  by (metis dec_enc option.inject)

lemma enc_inj_on: "inj_on enc {x. ok x}"
  by (auto intro!: inj_onI enc_inj)

end

text \<open>A store of values under keys, with the laws a client of a Go map relies on.\<close>

locale keyed_store =
  fixes get :: "'m \<Rightarrow> 'k \<Rightarrow> 'v option"
    and put :: "'k \<Rightarrow> 'v \<Rightarrow> 'm \<Rightarrow> 'm"
    and del :: "'k \<Rightarrow> 'm \<Rightarrow> 'm"
    and count :: "'m \<Rightarrow> nat"
    and valid :: "'m \<Rightarrow> bool"
  assumes get_put: "valid m \<Longrightarrow> get (put k v m) j = (if j = k then Some v else get m j)"
    and get_del: "valid m \<Longrightarrow> get (del k m) j = (if j = k then None else get m j)"
    and count_get: "valid m \<Longrightarrow> finite (dom (get m)) \<and> count m = card (dom (get m))"
    and valid_put: "valid m \<Longrightarrow> valid (put k v m)"
    and valid_del: "valid m \<Longrightarrow> valid (del k m)"
begin

lemma get_put_eq: "valid m \<Longrightarrow> get (put k v m) k = Some v"
  by (simp add: get_put)

lemma get_put_neq: "valid m \<Longrightarrow> j \<noteq> k \<Longrightarrow> get (put k v m) j = get m j"
  by (simp add: get_put)

lemma get_put_fun: "valid m \<Longrightarrow> get (put k v m) = (get m)(k \<mapsto> v)"
  by (auto simp: get_put)

lemma get_del_fun: "valid m \<Longrightarrow> get (del k m) = (get m)(k := None)"
  by (auto simp: get_del)

lemma count_put:
  "valid m \<Longrightarrow> count (put k v m) = (if get m k = None then Suc (count m) else count m)"
proof -
  assume m: "valid m"
  then have "dom (get (put k v m)) = insert k (dom (get m))"
    by (simp add: get_put_fun)
  with m show ?thesis
    by (auto simp: count_get valid_put card_insert_if)
qed

lemma count_del:
  "valid m \<Longrightarrow> count (del k m) = (if get m k = None then count m else count m - 1)"
proof -
  assume m: "valid m"
  then have "dom (get (del k m)) = dom (get m) - {k}"
    by (simp add: get_del_fun)
  with m have "count (del k m) = card (dom (get m) - {k})"
    by (simp add: count_get valid_del)
  with m show ?thesis
    by (simp add: count_get card_Diff_singleton_if domIff)
qed

lemma count_pos_iff: "valid m \<Longrightarrow> 0 < count m \<longleftrightarrow> (\<exists>k v. get m k = Some v)"
  using count_get [of m] by (auto simp: card_gt_0_iff)

lemma put_replays:
  "valid m \<Longrightarrow> get (fold (\<lambda>(k, v). put k v) kvs m) = (get m ++ map_of (rev kvs))"
proof (induction kvs arbitrary: m)
  case Nil
  then show ?case by simp
next
  case (Cons kv kvs)
  then show ?case
    by (cases kv) (simp add: valid_put get_put_fun map_add_upd_left [symmetric] fun_eq_iff map_add_def
        split: option.split)
qed

end

section \<open>Maps\<close>

text \<open>
  A Go map is a list of entries with distinct keys.  The order of the list carries no meaning:
  what ranges over a map goes through a visiting order.
\<close>

type_synonym ('k, 'v) gomap = "('k \<times> 'v) list"

definition gm_ok :: "('k, 'v) gomap \<Rightarrow> bool" where
  "gm_ok m \<longleftrightarrow> distinct (map fst m)"

definition gm_get :: "('k, 'v) gomap \<Rightarrow> 'k \<Rightarrow> 'v option" where
  "gm_get m k = map_of m k"

primrec gm_put :: "'k \<Rightarrow> 'v \<Rightarrow> ('k, 'v) gomap \<Rightarrow> ('k, 'v) gomap" where
  "gm_put k v [] = [(k, v)]"
| "gm_put k v (e # m) = (if fst e = k then (k, v) # m else e # gm_put k v m)"

definition gm_del :: "'k \<Rightarrow> ('k, 'v) gomap \<Rightarrow> ('k, 'v) gomap" where
  "gm_del k m = filter (\<lambda>e. fst e \<noteq> k) m"

definition gm_len :: "('k, 'v) gomap \<Rightarrow> nat" where
  "gm_len m = length m"

text \<open>Two maps are equal when they hold the same entries, in whatever order.\<close>

definition gm_equal :: "('k, 'v) gomap \<Rightarrow> ('k, 'v) gomap \<Rightarrow> bool" where
  "gm_equal m m' \<longleftrightarrow> length m = length m' \<and> list_all (\<lambda>(k, v). gm_get m' k = Some v) m"

lemma gm_ok_Nil [simp, wf_intros]: "gm_ok []"
  by (simp add: gm_ok_def)

lemma set_gm_put: "set (map fst (gm_put k v m)) = insert k (set (map fst m))"
  by (induction m) auto

lemma gm_ok_put [wf_intros]: "gm_ok m \<Longrightarrow> gm_ok (gm_put k v m)"
proof (induction m)
  case Nil
  then show ?case by (simp add: gm_ok_def)
next
  case (Cons e m)
  then show ?case using set_gm_put [of k v m] by (auto simp: gm_ok_def)
qed

lemma gm_ok_del [wf_intros]: "gm_ok m \<Longrightarrow> gm_ok (gm_del k m)"
  by (simp add: gm_ok_def gm_del_def distinct_map_filter)

lemma gm_ok_filter [wf_intros]: "gm_ok m \<Longrightarrow> gm_ok (filter P m)"
  by (simp add: gm_ok_def distinct_map_filter)

lemma gm_get_Nil [simp]: "gm_get [] k = None"
  by (simp add: gm_get_def)

lemma gm_get_put [simp]: "gm_get (gm_put k v m) j = (if j = k then Some v else gm_get m j)"
  by (induction m) (auto simp: gm_get_def)

lemma gm_get_del [simp]: "gm_get (gm_del k m) j = (if j = k then None else gm_get m j)"
  by (induction m) (auto simp: gm_get_def gm_del_def)

lemma gm_get_mem: "gm_ok m \<Longrightarrow> gm_get m k = Some v \<longleftrightarrow> (k, v) \<in> set m"
  by (simp add: gm_get_def gm_ok_def)

lemma gm_get_None: "gm_get m k = None \<longleftrightarrow> k \<notin> fst ` set m"
  by (simp add: gm_get_def map_of_eq_None_iff)

lemma gm_dom: "dom (gm_get m) = fst ` set m"
  by (auto simp: dom_def gm_get_None)

lemma gm_len_card: "gm_ok m \<Longrightarrow> gm_len m = card (dom (gm_get m))"
  by (metis gm_dom gm_len_def gm_ok_def distinct_card length_map set_map)

lemma gm_finite_dom [simp]: "finite (dom (gm_get m))"
  by (simp add: gm_dom)

lemma gm_put_map_snd:
  "gm_ok m \<Longrightarrow> gm_get m k = Some v \<Longrightarrow>
   gm_put k w m = map (\<lambda>e. if fst e = k then (k, w) else e) m"
  by (induction m) (auto simp: gm_get_def gm_ok_def image_iff intro!: map_idI [symmetric])

lemma gm_get_filter:
  assumes "gm_ok m"
  shows "gm_get (filter P m) k =
    (case gm_get m k of None \<Rightarrow> None | Some v \<Rightarrow> if P (k, v) then Some v else None)"
  using assms by (induction m) (auto simp: gm_get_def gm_ok_def map_of_eq_None_iff split: option.splits)

lemma gm_equal_refl: "gm_ok m \<Longrightarrow> gm_equal m m"
  by (auto simp: gm_equal_def list_all_iff gm_get_mem)

interpretation gm: keyed_store gm_get gm_put gm_del gm_len gm_ok
  by unfold_locales (simp_all add: gm_len_card gm_ok_put gm_ok_del)

section \<open>Results\<close>

text \<open>
  A Go function that returns \<open>(value, error)\<close> returns \<open>Inr value\<close> or \<open>Inl error\<close>;
  the early return on a non-nil error is \<open>bind_res\<close>.
\<close>

fun bind_res :: "'e + 'a \<Rightarrow> ('a \<Rightarrow> 'e + 'b) \<Rightarrow> 'e + 'b" where
  "bind_res (Inl e) f = Inl e"
| "bind_res (Inr a) f = f a"

lemma bind_res_Inr_iff: "bind_res r f = Inr b \<longleftrightarrow> (\<exists>a. r = Inr a \<and> f a = Inr b)"
  by (cases r) auto

lemma bind_res_Inl_iff: "bind_res r f = Inl e \<longleftrightarrow> r = Inl e \<or> (\<exists>a. r = Inr a \<and> f a = Inl e)"
  by (cases r) auto

end
