(* ===== verification/Go_Time.thy ===== *)
theory Go_Time
  imports Prelude
begin

text \<open>
  The parts of Go's \<open>time\<close> package the program uses.  A \<open>time.Time\<close> is its distance from the
  Unix epoch in nanoseconds; a \<open>time.Duration\<close> is an \<open>int64\<close> of nanoseconds.  Reading the
  clock (\<open>time.Now()\<close>) is an argument of every definition that does it, one argument per
  reading.  Each function documents what Go does at the edges: \<open>Sub\<close> (and so \<open>Since\<close>)
  saturates, products of durations wrap around, \<open>Unix\<close> and \<open>UnixMicro\<close> round down.
\<close>

type_synonym gotime = int
type_synonym duration = int

definition second :: duration where "second = 1000000000"
definition minute :: duration where "minute = 60 * second"
definition hour :: duration where "hour = 60 * minute"
definition millisecond :: duration where "millisecond = 1000000"

text \<open>The zero \<open>time.Time\<close> is midnight of the first of January of year 1.\<close>

definition zero_time :: gotime where
  "zero_time = - 62135596800 * 1000000000"

definition is_zero :: "gotime \<Rightarrow> bool" where
  "is_zero t \<longleftrightarrow> t = zero_time"

definition since :: "gotime \<Rightarrow> gotime \<Rightarrow> duration" where
  "since now t = sat64 (now - t)"

definition time_add :: "gotime \<Rightarrow> duration \<Rightarrow> gotime" where
  "time_add t d = t + d"

definition unix_sec :: "gotime \<Rightarrow> int" where
  "unix_sec t = t div 1000000000"

definition unix_micro :: "gotime \<Rightarrow> int" where
  "unix_micro t = wrap64 (t div 1000)"

definition of_unix_micro :: "int \<Rightarrow> gotime" where
  "of_unix_micro u = u * 1000"

definition dur_mul :: "duration \<Rightarrow> duration \<Rightarrow> duration" where
  "dur_mul a b = wrap64 (a * b)"

definition dur_add :: "duration \<Rightarrow> duration \<Rightarrow> duration" where
  "dur_add a b = wrap64 (a + b)"

text \<open>\<open>Duration.Milliseconds\<close> truncates towards zero.\<close>

definition milliseconds :: "duration \<Rightarrow> int" where
  "milliseconds d = quot d 1000000"

text \<open>The years 1970 to 2200, in which every instant of these lemmas lies.\<close>

definition modern :: "gotime \<Rightarrow> bool" where
  "modern t \<longleftrightarrow> 0 \<le> t \<and> t < 7258118400 * 1000000000"

lemmas dur_units = second_def minute_def hour_def millisecond_def

lemma since_range [simp]: "in_i64 (since now t)"
  by (simp add: since_def)

lemma since_exact: "modern now \<Longrightarrow> modern t \<Longrightarrow> since now t = now - t"
  by (simp add: since_def sat64_id in_i64_iff modern_def)

lemma since_zero_time: "modern now \<Longrightarrow> since now zero_time = max_i64"
  by (simp add: since_def zero_time_def sat64_def modern_def max_i64_def min_i64_def)

lemma since_gt_iff: "0 \<le> d \<Longrightarrow> d < max_i64 \<Longrightarrow> d < since now t \<longleftrightarrow> d < now - t"
  by (auto simp: since_def sat64_def max_i64_def min_i64_def)

lemma since_mono: "now \<le> now' \<Longrightarrow> since now t \<le> since now' t"
  by (simp add: since_def sat64_mono)

lemma modern_not_zero: "modern t \<Longrightarrow> \<not> is_zero t"
  by (simp add: modern_def is_zero_def zero_time_def)

lemma unix_sec_mono: "t \<le> t' \<Longrightarrow> unix_sec t \<le> unix_sec t'"
  by (simp add: unix_sec_def zdiv_mono1)

lemma unix_sec_add: "unix_sec (time_add t (k * second)) = unix_sec t + k"
  by (simp add: unix_sec_def time_add_def second_def)

text \<open>Microseconds survive the trip; nanoseconds below them do not.\<close>

lemma unix_micro_of [simp]: "in_i64 u \<Longrightarrow> unix_micro (of_unix_micro u) = u"
  by (simp add: unix_micro_def of_unix_micro_def wrap64_id)

lemma of_unix_micro_micro: "in_i64 (t div 1000) \<Longrightarrow> of_unix_micro (unix_micro t) = t - t mod 1000"
  by (simp add: unix_micro_def of_unix_micro_def wrap64_id minus_mod_eq_div_mult)

lemma modern_micro: "modern t \<Longrightarrow> in_i64 (t div 1000)"
  using div_le_dividend [of "nat t" 1000]
  by (auto simp: modern_def in_i64_iff nat_div_distrib intro: order_trans [OF zdiv_mono1 [of _ "7258118400 * 1000000000"]])

section \<open>Calendar\<close>

text \<open>The year, month and day of a number of days since the epoch, in the Gregorian calendar.\<close>

definition civil_date :: "int \<Rightarrow> int \<times> int \<times> int" where
  "civil_date days =
     (let z = days + 719468; era = z div 146097; doe = z mod 146097;
          yoe = (doe - doe div 1460 + doe div 36524 - doe div 146096) div 365;
          doy = doe - (365 * yoe + yoe div 4 - yoe div 100);
          mp = (5 * doy + 2) div 153;
          d = doy - (153 * mp + 2) div 5 + 1;
          m = (if mp < 10 then mp + 3 else mp - 9)
      in (yoe + era * 400 + (if m \<le> 2 then 1 else 0), m, d))"

lemma civil_date_samples:
  "civil_date 0 = (1970, 1, 1)" "civil_date 19782 = (2024, 2, 29)" "civil_date 19783 = (2024, 3, 1)"
  "civil_date 11016 = (2000, 2, 29)" "civil_date 47541 = (2100, 3, 1)"
  by code_simp+

end
