(* ===== verification/Quota.thy ===== *)
theory Quota
  imports Go_Time
begin

text \<open>
  Abuse limits (\<open>internal/quota\<close>): concurrent allocations per user and per address, credential
  requests per minute, bytes per user.  The tracker's mutex makes each method one step.  The
  entries of its maps are pointers that never leave the tracker, so the map holds the values.
  A refused allocation counts in the process-wide \<open>turn_packets_dropped_total\<close>, which the steps
  pass through beside the tracker.  Go's \<open>int\<close> and \<open>int64\<close> wrap around.
\<close>

section \<open>State\<close>

record limits =
  MaxAllocationsPerUser :: int
  MaxAllocationsPerIP :: int
  MaxBandwidthPerUser :: int
  MaxCredentialRequestsPerMinute :: int
  MaxAllocationLifetime :: duration

definition DefaultLimits :: limits where
  "DefaultLimits =
     \<lparr>MaxAllocationsPerUser = 10, MaxAllocationsPerIP = 5, MaxBandwidthPerUser = 1024 * 1024,
      MaxCredentialRequestsPerMinute = 60, MaxAllocationLifetime = 10 * minute\<rparr>"

record user_quota =
  user_allocations :: int
  bytesPerSecond :: int
  lastCredential :: gotime
  credCount :: int

record ip_quota =
  ip_allocations :: int

record tracker =
  quota_limits :: limits
  users :: "(string, user_quota) gomap"
  ips :: "(string, ip_quota) gomap"

definition fresh_user :: user_quota where
  "fresh_user = \<lparr>user_allocations = 0, bytesPerSecond = 0, lastCredential = zero_time, credCount = 0\<rparr>"

definition fresh_ip :: ip_quota where
  "fresh_ip = \<lparr>ip_allocations = 0\<rparr>"

definition new_tracker :: "limits \<Rightarrow> tracker" where
  "new_tracker l = \<lparr>quota_limits = l, users = [], ips = []\<rparr>"

section \<open>Operations\<close>

text \<open>The entry of a user or an address, made on first use.\<close>

definition user_entry :: "string \<Rightarrow> tracker \<Rightarrow> user_quota \<times> tracker" where
  "user_entry u t =
     (case gm_get (users t) u of
        Some q \<Rightarrow> (q, t)
      | None \<Rightarrow> (fresh_user, t\<lparr>users := gm_put u fresh_user (users t)\<rparr>))"

definition ip_entry :: "string \<Rightarrow> tracker \<Rightarrow> ip_quota \<times> tracker" where
  "ip_entry ip t =
     (case gm_get (ips t) ip of
        Some q \<Rightarrow> (q, t)
      | None \<Rightarrow> (fresh_ip, t\<lparr>ips := gm_put ip fresh_ip (ips t)\<rparr>))"

definition set_user :: "string \<Rightarrow> user_quota \<Rightarrow> tracker \<Rightarrow> tracker" where
  "set_user u q t = t\<lparr>users := gm_put u q (users t)\<rparr>"

definition set_ip :: "string \<Rightarrow> ip_quota \<Rightarrow> tracker \<Rightarrow> tracker" where
  "set_ip ip q t = t\<lparr>ips := gm_put ip q (ips t)\<rparr>"

definition allow_allocation :: "string \<Rightarrow> string \<Rightarrow> nat \<times> tracker \<Rightarrow> bool \<times> nat \<times> tracker" where
  "allow_allocation u ip = (\<lambda>(drops, t).
     let (uq, t) = user_entry u t
     in if MaxAllocationsPerUser (quota_limits t) \<le> user_allocations uq then (False, drops + 1, t)
        else let (iq, t) = ip_entry ip t
             in if MaxAllocationsPerIP (quota_limits t) \<le> ip_allocations iq then (False, drops + 1, t)
                else (True, drops,
                      set_ip ip (iq\<lparr>ip_allocations := wrap64 (ip_allocations iq + 1)\<rparr>)
                        (set_user u (uq\<lparr>user_allocations := wrap64 (user_allocations uq + 1)\<rparr>) t)))"

definition release_allocation :: "string \<Rightarrow> string \<Rightarrow> tracker \<Rightarrow> tracker" where
  "release_allocation u ip t =
     (let t = (case gm_get (users t) u of
                 Some uq \<Rightarrow> if 0 < user_allocations uq
                   then set_user u (uq\<lparr>user_allocations := wrap64 (user_allocations uq - 1)\<rparr>) t else t
               | None \<Rightarrow> t)
      in (case gm_get (ips t) ip of
            Some iq \<Rightarrow> if 0 < ip_allocations iq
              then set_ip ip (iq\<lparr>ip_allocations := wrap64 (ip_allocations iq - 1)\<rparr>) t else t
          | None \<Rightarrow> t))"

text \<open>
  The three clock readings of \<open>AllowCredential\<close>, in the order the code makes them; the second
  and the third are used on some branches only.
\<close>

definition roll_window :: "gotime \<Rightarrow> gotime \<Rightarrow> user_quota \<Rightarrow> user_quota" where
  "roll_window now1 now2 uq =
     (if minute < since now1 (lastCredential uq) then uq\<lparr>credCount := 0, lastCredential := now2\<rparr> else uq)"

definition allow_credential ::
  "gotime \<Rightarrow> gotime \<Rightarrow> gotime \<Rightarrow> string \<Rightarrow> tracker \<Rightarrow> bool \<times> tracker" where
  "allow_credential now1 now2 now3 u t =
     (let (uq, t) = user_entry u t; uq = roll_window now1 now2 uq
      in if MaxCredentialRequestsPerMinute (quota_limits t) \<le> credCount uq then (False, set_user u uq t)
         else let uq = uq\<lparr>credCount := wrap64 (credCount uq + 1)\<rparr>;
                  uq = (if is_zero (lastCredential uq) then uq\<lparr>lastCredential := now3\<rparr> else uq)
              in (True, set_user u uq t))"

definition allow_bandwidth :: "string \<Rightarrow> int \<Rightarrow> tracker \<Rightarrow> bool \<times> tracker" where
  "allow_bandwidth u bytes t =
     (let (uq, t) = user_entry u t
      in if MaxBandwidthPerUser (quota_limits t) \<le> 0 then (True, t)
         else if MaxBandwidthPerUser (quota_limits t) < wrap64 (bytesPerSecond uq + bytes) then (False, t)
         else (True, set_user u (uq\<lparr>bytesPerSecond := wrap64 (bytesPerSecond uq + bytes)\<rparr>) t))"

definition active_allocations ::
  "((string \<times> user_quota) list \<Rightarrow> (string \<times> user_quota) list) \<Rightarrow> tracker \<Rightarrow> int" where
  "active_allocations ord t =
     foldl (\<lambda>total e. wrap64 (total + user_allocations (snd e))) 0 (ord (users t))"

definition active_users ::
  "((string \<times> user_quota) list \<Rightarrow> (string \<times> user_quota) list) \<Rightarrow> tracker \<Rightarrow> int" where
  "active_users ord t =
     foldl (\<lambda>n e. if 0 < user_allocations (snd e) then n + 1 else n) 0 (ord (users t))"

section \<open>Reading a tracker\<close>

definition user_of :: "tracker \<Rightarrow> string \<Rightarrow> user_quota" where
  "user_of t u = (case gm_get (users t) u of None \<Rightarrow> fresh_user | Some q \<Rightarrow> q)"

definition ip_of :: "tracker \<Rightarrow> string \<Rightarrow> ip_quota" where
  "ip_of t ip = (case gm_get (ips t) ip of None \<Rightarrow> fresh_ip | Some q \<Rightarrow> q)"

lemma user_entry_of: "fst (user_entry u t) = user_of t u"
  by (simp add: user_entry_def user_of_def split: option.split)

lemma ip_entry_of: "fst (ip_entry ip t) = ip_of t ip"
  by (simp add: ip_entry_def ip_of_def split: option.split)

lemma entry_frame [simp]:
  "user_of (snd (user_entry u t)) = user_of t" "ip_of (snd (user_entry u t)) = ip_of t"
  "user_of (snd (ip_entry ip t)) = user_of t" "ip_of (snd (ip_entry ip t)) = ip_of t"
  "quota_limits (snd (user_entry u t)) = quota_limits t" "quota_limits (snd (ip_entry ip t)) = quota_limits t"
  by (auto simp: user_entry_def ip_entry_def user_of_def ip_of_def fun_eq_iff split: option.splits)

lemma set_frame [simp]:
  "user_of (set_user u q t) = (user_of t)(u := q)" "ip_of (set_user u q t) = ip_of t"
  "user_of (set_ip ip r t) = user_of t" "ip_of (set_ip ip r t) = (ip_of t)(ip := r)"
  "quota_limits (set_user u q t) = quota_limits t" "quota_limits (set_ip ip r t) = quota_limits t"
  by (auto simp: set_user_def set_ip_def user_of_def ip_of_def fun_eq_iff)

lemma new_tracker_of [simp]:
  "user_of (new_tracker l) u = fresh_user" "ip_of (new_tracker l) ip = fresh_ip"
  "quota_limits (new_tracker l) = l"
  by (simp_all add: new_tracker_def user_of_def ip_of_def)

lemma allow_allocation_eq:
  "allow_allocation u ip (drops, t) =
     (if MaxAllocationsPerUser (quota_limits t) \<le> user_allocations (user_of t u)
      then (False, drops + 1, snd (user_entry u t))
      else if MaxAllocationsPerIP (quota_limits t) \<le> ip_allocations (ip_of t ip)
      then (False, drops + 1, snd (ip_entry ip (snd (user_entry u t))))
      else (True, drops,
        set_ip ip ((ip_of t ip)\<lparr>ip_allocations := wrap64 (ip_allocations (ip_of t ip) + 1)\<rparr>)
          (set_user u ((user_of t u)\<lparr>user_allocations := wrap64 (user_allocations (user_of t u) + 1)\<rparr>)
            (snd (ip_entry ip (snd (user_entry u t)))))))"
  using user_entry_of [of u t] ip_entry_of [of ip "snd (user_entry u t)"]
  by (auto simp: allow_allocation_def case_prod_unfold Let_def)

lemma release_user_of:
  "user_of (release_allocation u ip t) =
     (user_of t)(u := (if 0 < user_allocations (user_of t u)
        then (user_of t u)\<lparr>user_allocations := wrap64 (user_allocations (user_of t u) - 1)\<rparr> else user_of t u))"
  by (auto simp: release_allocation_def Let_def user_of_def set_user_def set_ip_def fresh_user_def fun_eq_iff
      split: option.splits)

lemma release_ip_of:
  "ip_of (release_allocation u ip t) =
     (ip_of t)(ip := (if 0 < ip_allocations (ip_of t ip)
        then (ip_of t ip)\<lparr>ip_allocations := wrap64 (ip_allocations (ip_of t ip) - 1)\<rparr> else ip_of t ip))"
  by (auto simp: release_allocation_def Let_def ip_of_def set_user_def set_ip_def fresh_ip_def fun_eq_iff
      split: option.splits)

lemma release_limits [simp]: "quota_limits (release_allocation u ip t) = quota_limits t"
  by (simp add: release_allocation_def Let_def split: option.split)

lemma allow_credential_eq:
  "allow_credential n1 n2 n3 u t =
     (let uq = roll_window n1 n2 (user_of t u)
      in if MaxCredentialRequestsPerMinute (quota_limits t) \<le> credCount uq
         then (False, set_user u uq (snd (user_entry u t)))
         else (True, set_user u (uq\<lparr>credCount := wrap64 (credCount uq + 1),
            lastCredential := if is_zero (lastCredential uq) then n3 else lastCredential uq\<rparr>) (snd (user_entry u t))))"
  using user_entry_of [of u t] by (auto simp: allow_credential_def case_prod_unfold Let_def)

lemma allow_bandwidth_eq:
  "allow_bandwidth u b t =
     (if MaxBandwidthPerUser (quota_limits t) \<le> 0 then (True, snd (user_entry u t))
      else if MaxBandwidthPerUser (quota_limits t) < wrap64 (bytesPerSecond (user_of t u) + b)
      then (False, snd (user_entry u t))
      else (True, set_user u ((user_of t u)\<lparr>bytesPerSecond := wrap64 (bytesPerSecond (user_of t u) + b)\<rparr>)
        (snd (user_entry u t))))"
  using user_entry_of [of u t] by (auto simp: allow_bandwidth_def case_prod_unfold Let_def)

lemmas quota_eqs = allow_allocation_eq release_user_of release_ip_of allow_credential_eq allow_bandwidth_eq Let_def

lemma entry_maps [wf_intros]:
  "gm_ok (users t) \<Longrightarrow> gm_ok (users (snd (user_entry u t)))" "gm_ok (ips t) \<Longrightarrow> gm_ok (ips (snd (user_entry u t)))"
  "gm_ok (users t) \<Longrightarrow> gm_ok (users (snd (ip_entry ip t)))" "gm_ok (ips t) \<Longrightarrow> gm_ok (ips (snd (ip_entry ip t)))"
  "gm_ok (users t) \<Longrightarrow> gm_ok (users (set_user u q t))" "gm_ok (ips t) \<Longrightarrow> gm_ok (ips (set_user u q t))"
  "gm_ok (users t) \<Longrightarrow> gm_ok (users (set_ip ip r t))" "gm_ok (ips t) \<Longrightarrow> gm_ok (ips (set_ip ip r t))"
  "gm_ok (users t) \<Longrightarrow> gm_ok (users (release_allocation u ip t))"
  "gm_ok (ips t) \<Longrightarrow> gm_ok (ips (release_allocation u ip t))"
  by (auto simp: user_entry_def ip_entry_def set_user_def set_ip_def release_allocation_def Let_def gm_ok_put
      split: option.split)

section \<open>Runs\<close>

datatype quota_op =
    QAllow string string
  | QRelease string string
  | QCredential gotime gotime gotime string
  | QBandwidth string int

fun quota_verdict :: "quota_op \<Rightarrow> nat \<times> tracker \<Rightarrow> bool" where
  "quota_verdict (QAllow u ip) s = fst (allow_allocation u ip s)"
| "quota_verdict (QRelease u ip) s = True"
| "quota_verdict (QCredential n1 n2 n3 u) s = fst (allow_credential n1 n2 n3 u (snd s))"
| "quota_verdict (QBandwidth u b) s = fst (allow_bandwidth u b (snd s))"

fun quota_step :: "quota_op \<Rightarrow> nat \<times> tracker \<Rightarrow> nat \<times> tracker" where
  "quota_step (QAllow u ip) s = snd (allow_allocation u ip s)"
| "quota_step (QRelease u ip) s = (fst s, release_allocation u ip (snd s))"
| "quota_step (QCredential n1 n2 n3 u) s = (fst s, snd (allow_credential n1 n2 n3 u (snd s)))"
| "quota_step (QBandwidth u b) s = (fst s, snd (allow_bandwidth u b (snd s)))"

text \<open>The counters of a tracker with limits that fit their Go type.\<close>

definition tracker_ok :: "nat \<times> tracker \<Rightarrow> bool" where
  "tracker_ok s \<longleftrightarrow>
     (let t = snd s; l = quota_limits t
      in gm_ok (users t) \<and> gm_ok (ips t) \<and> MaxAllocationsPerUser l \<le> max_i64 \<and> MaxAllocationsPerIP l \<le> max_i64
         \<and> MaxCredentialRequestsPerMinute l \<le> max_i64
         \<and> (\<forall>u. 0 \<le> user_allocations (user_of t u)
              \<and> user_allocations (user_of t u) \<le> max 0 (MaxAllocationsPerUser l)
              \<and> 0 \<le> credCount (user_of t u)
              \<and> credCount (user_of t u) \<le> max 0 (MaxCredentialRequestsPerMinute l))
         \<and> (\<forall>ip. 0 \<le> ip_allocations (ip_of t ip) \<and> ip_allocations (ip_of t ip) \<le> max 0 (MaxAllocationsPerIP l)))"

definition limits_ok :: "limits \<Rightarrow> bool" where
  "limits_ok l \<longleftrightarrow> MaxAllocationsPerUser l \<le> max_i64 \<and> MaxAllocationsPerIP l \<le> max_i64
     \<and> MaxCredentialRequestsPerMinute l \<le> max_i64"

lemma wrap64_succ [go_arith]: "0 \<le> x \<Longrightarrow> x < m \<Longrightarrow> m \<le> max_i64 \<Longrightarrow> wrap64 (x + 1) = x + 1"
  by (rule wrap64_id) (simp add: in_i64_def min_i64_def)

lemma wrap64_pred [go_arith]: "0 < x \<Longrightarrow> x \<le> max 0 m \<Longrightarrow> m \<le> max_i64 \<Longrightarrow> wrap64 (x - 1) = x - 1"
  by (rule wrap64_id) (simp add: in_i64_def min_i64_def)

lemma wrap64_0_1 [simp]: "wrap64 0 = 0" "wrap64 1 = 1"
  by (simp_all add: wrap64_def)

lemma counter_up:
  assumes "\<not> m \<le> x" "0 \<le> x" "m \<le> max_i64"
  shows "0 \<le> wrap64 (x + 1)" "wrap64 (x + 1) \<le> max 0 m"
  using assms wrap64_succ [of x m] by auto

lemma counter_down:
  assumes "0 < x" "x \<le> max 0 m" "m \<le> max_i64"
  shows "0 \<le> wrap64 (x - 1)" "wrap64 (x - 1) \<le> max 0 m"
  using assms wrap64_pred [of x m] by auto

lemmas counter_moves = counter_up counter_down

lemma tracker_ok_new [wf_intros]: "limits_ok l \<Longrightarrow> tracker_ok (n, new_tracker l)"
  by (simp add: tracker_ok_def limits_ok_def fresh_user_def fresh_ip_def) (simp add: new_tracker_def)

lemma quota_step_limits: "quota_limits (snd (quota_step x s)) = quota_limits (snd s)"
  by (cases s; cases x) (simp_all add: quota_eqs)

lemma tracker_ok_step [wf_intros]:
  assumes "tracker_ok s"
  shows "tracker_ok (quota_step x s)"
proof (cases x)
  case (QAllow u ip)
  obtain d t where s: "s = (d, t)" by (cases s)
  from assms QAllow show ?thesis
    by (auto simp: s tracker_ok_def quota_eqs entry_maps intro: counter_moves)
next
  case (QRelease u ip)
  with assms show ?thesis
    by (auto simp: tracker_ok_def quota_eqs entry_maps intro: counter_moves)
next
  case (QCredential n1 n2 n3 u)
  with assms show ?thesis
    by (auto simp: tracker_ok_def quota_eqs entry_maps roll_window_def intro: counter_moves)
next
  case (QBandwidth u b)
  with assms show ?thesis
    by (auto simp: tracker_ok_def quota_eqs entry_maps)
qed

text \<open>Both admission counters are capped counters of the same machine.\<close>

interpretation user_cap: capped_counter quota_step tracker_ok
    "\<lambda>s u. user_allocations (user_of (snd s) u)"
    "\<lambda>s. max 0 (MaxAllocationsPerUser (quota_limits (snd s)))"
  by unfold_locales (auto simp: quota_step_limits intro: tracker_ok_step, auto simp: tracker_ok_def Let_def)

interpretation ip_cap: capped_counter quota_step tracker_ok
    "\<lambda>s ip. ip_allocations (ip_of (snd s) ip)"
    "\<lambda>s. max 0 (MaxAllocationsPerIP (quota_limits (snd s)))"
  by unfold_locales (auto simp: quota_step_limits intro: tracker_ok_step, auto simp: tracker_ok_def Let_def)

section \<open>Allocations held\<close>

text \<open>
  The abstract specification: the multiset of allocations held, each a user and an address.  An
  allocation is admitted while the user and the address each hold fewer than their limit.
\<close>

definition held_by_user :: "string \<Rightarrow> (string \<times> string) multiset \<Rightarrow> int" where
  "held_by_user u H = int (size (filter_mset (\<lambda>p. fst p = u) H))"

definition held_by_ip :: "string \<Rightarrow> (string \<times> string) multiset \<Rightarrow> int" where
  "held_by_ip ip H = int (size (filter_mset (\<lambda>p. snd p = ip) H))"

definition spec_admits :: "limits \<Rightarrow> string \<Rightarrow> string \<Rightarrow> (string \<times> string) multiset \<Rightarrow> bool" where
  "spec_admits l u ip H \<longleftrightarrow>
     held_by_user u H < MaxAllocationsPerUser l \<and> held_by_ip ip H < MaxAllocationsPerIP l"

fun spec_step :: "limits \<Rightarrow> quota_op \<Rightarrow> (string \<times> string) multiset \<Rightarrow> (string \<times> string) multiset" where
  "spec_step l (QAllow u ip) H = (if spec_admits l u ip H then add_mset (u, ip) H else H)"
| "spec_step l (QRelease u ip) H = H - {#(u, ip)#}"
| "spec_step l x H = H"

text \<open>Callers that release only what they hold.\<close>

fun releases_held :: "limits \<Rightarrow> quota_op list \<Rightarrow> (string \<times> string) multiset \<Rightarrow> bool" where
  "releases_held l [] H = True"
| "releases_held l (x # xs) H =
     ((case x of QRelease u ip \<Rightarrow> (u, ip) \<in># H | _ \<Rightarrow> True) \<and> releases_held l xs (spec_step l x H))"

definition represents :: "(string \<times> string) multiset \<Rightarrow> tracker \<Rightarrow> bool" where
  "represents H t \<longleftrightarrow> (\<forall>u. user_allocations (user_of t u) = held_by_user u H)
     \<and> (\<forall>ip. ip_allocations (ip_of t ip) = held_by_ip ip H)"

lemma held_add:
  "held_by_user u (add_mset p H) = held_by_user u H + (if fst p = u then 1 else 0)"
  "held_by_ip ip (add_mset p H) = held_by_ip ip H + (if snd p = ip then 1 else 0)"
  by (simp_all add: held_by_user_def held_by_ip_def)

lemma held_remove:
  assumes "p \<in># H"
  shows "held_by_user u (H - {#p#}) = held_by_user u H - (if fst p = u then 1 else 0)"
    "held_by_ip ip (H - {#p#}) = held_by_ip ip H - (if snd p = ip then 1 else 0)"
  using assms by (auto dest!: multi_member_split simp: held_add)

lemma held_pos: "p \<in># H \<Longrightarrow> 0 < held_by_user (fst p) H \<and> 0 < held_by_ip (snd p) H"
  by (auto dest!: multi_member_split simp: held_add) (simp_all add: held_by_user_def held_by_ip_def)

lemma represents_admits:
  "represents H t \<Longrightarrow> fst (allow_allocation u ip (d, t)) = spec_admits (quota_limits t) u ip H"
  by (auto simp: represents_def allow_allocation_eq spec_admits_def)

lemma represents_step:
  assumes ok: "tracker_ok s" and r: "represents H (snd s)"
    and held: "case x of QRelease u ip \<Rightarrow> (u, ip) \<in># H | _ \<Rightarrow> True"
  shows "represents (spec_step (quota_limits (snd s)) x H) (snd (quota_step x s))"
proof (cases x)
  case (QAllow u ip)
  obtain d t where s: "s = (d, t)" by (cases s)
  from ok r have "user_allocations (user_of t u) < MaxAllocationsPerUser (quota_limits t) \<Longrightarrow>
      wrap64 (user_allocations (user_of t u) + 1) = user_allocations (user_of t u) + 1"
    "ip_allocations (ip_of t ip) < MaxAllocationsPerIP (quota_limits t) \<Longrightarrow>
      wrap64 (ip_allocations (ip_of t ip) + 1) = ip_allocations (ip_of t ip) + 1"
    by (auto simp: s tracker_ok_def Let_def intro!: wrap64_succ)
  with r QAllow show ?thesis
    by (auto simp: s represents_def allow_allocation_eq spec_admits_def held_add)
next
  case (QRelease u ip)
  with held have h: "(u, ip) \<in># H" by simp
  from ok held_pos [OF h] r
  have "wrap64 (user_allocations (user_of (snd s) u) - 1) = user_allocations (user_of (snd s) u) - 1"
    "wrap64 (ip_allocations (ip_of (snd s) ip) - 1) = ip_allocations (ip_of (snd s) ip) - 1"
    by (auto simp: tracker_ok_def represents_def Let_def intro!: wrap64_pred)
  with r QRelease held_pos [OF h] show ?thesis
    by (auto simp: represents_def quota_eqs held_remove [OF h])
next
  case (QCredential n1 n2 n3 u)
  with r show ?thesis by (auto simp: represents_def quota_eqs roll_window_def)
next
  case (QBandwidth u b)
  with r show ?thesis by (auto simp: represents_def quota_eqs)
qed

lemma represents_run:
  assumes "tracker_ok s" "represents H (snd s)" "releases_held (quota_limits (snd s)) xs H"
  shows "represents (fold (spec_step (quota_limits (snd s))) xs H) (snd (fold quota_step xs s))"
  using assms
proof (induction xs arbitrary: s H)
  case (Cons x xs)
  from Cons.prems have "represents (spec_step (quota_limits (snd s)) x H) (snd (quota_step x s))"
    by (intro represents_step) auto
  with Cons show ?case using Cons.IH [of "quota_step x s"]
    by (simp add: tracker_ok_step quota_step_limits)
qed simp

lemma quota_run_limits [simp]: "quota_limits (snd (fold quota_step xs s)) = quota_limits (snd s)"
  by (induction xs arbitrary: s) (simp_all add: quota_step_limits)

section \<open>Totals\<close>

lemma wrap64_add_left: "wrap64 (wrap64 x + y) = wrap64 (x + y)"
proof -
  have "wrap64 (wrap64 x + y) = ((x + 2 ^ 63) mod 2 ^ 64 + y) mod 2 ^ 64 - 2 ^ 63"
    by (simp add: wrap64_def)
  also have "\<dots> = (x + 2 ^ 63 + y) mod 2 ^ 64 - 2 ^ 63" by (simp only: mod_add_left_eq)
  finally show ?thesis by (simp add: wrap64_def algebra_simps)
qed

lemma foldl_wrap64:
  "foldl (\<lambda>a e. wrap64 (a + f e)) (wrap64 a) es = wrap64 (a + (\<Sum>e\<leftarrow>es. f e))"
  by (induction es arbitrary: a) (simp_all add: wrap64_add_left add.assoc)

lemma foldl_count:
  "foldl (\<lambda>n e. if P e then n + 1 else n) (a :: int) es = a + int (length (filter P es))"
  by (induction es arbitrary: a) simp_all

lemma size_by_key:
  "finite A \<Longrightarrow> f ` set_mset M \<subseteq> A \<Longrightarrow> (\<Sum>a\<in>A. int (size (filter_mset (\<lambda>p. f p = a) M))) = int (size M)"
proof (induction M)
  case (add p M)
  have "(\<Sum>a\<in>A. int (size (filter_mset (\<lambda>p. f p = a) (add_mset p M))))
      = (\<Sum>a\<in>A. int (size (filter_mset (\<lambda>p. f p = a) M)) + (if f p = a then 1 else 0))"
    by (intro sum.cong) auto
  with add show ?case by (simp add: sum.distrib sum.delta')
qed simp

lemma user_of_mem: "gm_ok (users t) \<Longrightarrow> e \<in> set (users t) \<Longrightarrow> user_of t (fst e) = snd e"
  using gm_get_mem [of "users t" "fst e" "snd e"] by (simp add: user_of_def)

lemma sum_users:
  assumes "gm_ok (users t)"
  shows "(\<Sum>e\<leftarrow>users t. g (snd e)) = (\<Sum>u\<in>fst ` set (users t). g (user_of t u))"
proof -
  have "(\<Sum>e\<leftarrow>users t. g (snd e)) = (\<Sum>e\<leftarrow>users t. g (user_of t (fst e)))"
    using user_of_mem [OF assms] by (intro arg_cong [of _ _ sum_list] map_cong refl) simp
  also have "\<dots> = (\<Sum>u\<leftarrow>map fst (users t). g (user_of t u))" by (simp add: comp_def)
  also have "\<dots> = (\<Sum>u\<in>set (map fst (users t)). g (user_of t u))"
    using assms by (simp only: gm_ok_def sum_list_distinct_conv_sum_set)
  finally show ?thesis by simp
qed

lemma held_users_known:
  "represents H t \<Longrightarrow> fst ` set_mset H \<subseteq> fst ` set (users t)"
proof
  fix u assume r: "represents H t" and "u \<in> fst ` set_mset H"
  then have "0 < held_by_user u H" using held_pos by fastforce
  with r have "0 < user_allocations (user_of t u)" by (simp add: represents_def)
  then have "user_of t u \<noteq> fresh_user" by (auto simp: fresh_user_def)
  then have "gm_get (users t) u \<noteq> None" by (auto simp: user_of_def split: option.splits)
  then show "u \<in> fst ` set (users t)" by (simp add: gm_get_None)
qed

lemma active_allocations_held:
  assumes "visits ord" "gm_ok (users t)" "represents H t"
  shows "active_allocations ord t = wrap64 (int (size H))"
proof -
  have "(\<Sum>e\<leftarrow>users t. user_allocations (snd e)) = (\<Sum>u\<in>fst ` set (users t). held_by_user u H)"
    using assms(3) by (simp add: sum_users [OF assms(2), of user_allocations] represents_def)
  also have "\<dots> = int (size H)"
    using held_users_known [OF assms(3)] by (simp add: held_by_user_def size_by_key)
  finally show ?thesis
    using visits_sum_list [OF assms(1), of "\<lambda>e. user_allocations (snd e)" "users t"]
      foldl_wrap64 [of "\<lambda>e. user_allocations (snd e)" 0 "ord (users t)"]
    by (simp add: active_allocations_def)
qed

lemma active_users_held:
  assumes "visits ord" "gm_ok (users t)" "represents H t"
  shows "active_users ord t = int (card (fst ` set_mset H))"
proof -
  let ?P = "\<lambda>e. 0 < user_allocations (snd e)"
  have "length (filter ?P (ord (users t))) = length (filter ?P (users t))"
    using visits_mset [OF assms(1), of "users t"] by (metis mset_filter size_mset)
  also have "\<dots> = card (fst ` set (filter ?P (users t)))"
    using assms(2) distinct_map_filter [of fst "users t" ?P] unfolding gm_ok_def
    by (metis distinct_card length_map set_map)
  also have "fst ` set (filter ?P (users t)) = fst ` set_mset H"
  proof -
    have *: "0 < held_by_user u H \<longleftrightarrow> u \<in> fst ` set_mset H" for u
      by (auto simp: held_by_user_def image_iff nonempty_has_size [symmetric] filter_mset_eq_conv)
    have "u \<in> fst ` set (filter ?P (users t)) \<longleftrightarrow> 0 < user_allocations (user_of t u)" for u
      using gm_get_mem [OF assms(2), of u] gm_get_None [of "users t" u]
      by (cases "gm_get (users t) u") (force simp: user_of_def fresh_user_def)+
    moreover have "user_allocations (user_of t u) = held_by_user u H" for u
      using assms(3) by (simp add: represents_def)
    ultimately have "u \<in> fst ` set (filter ?P (users t)) \<longleftrightarrow> u \<in> fst ` set_mset H" for u
      by (simp only: *)
    then show ?thesis by (rule set_eqI)
  qed
  finally show ?thesis by (simp add: active_users_def foldl_count)
qed

section \<open>Credential windows and bandwidth\<close>

fun creds_granted :: "string \<Rightarrow> quota_op list \<Rightarrow> nat \<times> tracker \<Rightarrow> int" where
  "creds_granted u [] s = 0"
| "creds_granted u (x # xs) s =
     (case x of QCredential n1 n2 n3 v \<Rightarrow> if v = u \<and> quota_verdict x s then 1 else 0 | _ \<Rightarrow> 0)
     + creds_granted u xs (quota_step x s)"

fun bytes_granted :: "string \<Rightarrow> quota_op list \<Rightarrow> nat \<times> tracker \<Rightarrow> int" where
  "bytes_granted u [] s = 0"
| "bytes_granted u (x # xs) s =
     (case x of QBandwidth v b \<Rightarrow> if v = u \<and> quota_verdict x s then b else 0 | _ \<Rightarrow> 0)
     + bytes_granted u xs (quota_step x s)"

definition readings_in :: "gotime \<Rightarrow> gotime \<Rightarrow> quota_op \<Rightarrow> bool" where
  "readings_in a b x \<longleftrightarrow>
     (case x of QCredential n1 n2 n3 u \<Rightarrow> a \<le> n1 \<and> n1 \<le> b \<and> a \<le> n2 \<and> n2 \<le> b | _ \<Rightarrow> True)"

text \<open>
  What a user can still be granted in the minute from \<open>a\<close>: the rest of the window the user is
  in, and one window more when that window began before \<open>a\<close>.
\<close>

definition window_left :: "gotime \<Rightarrow> int \<Rightarrow> user_quota \<Rightarrow> int" where
  "window_left a m q = m - credCount q + (if a \<le> lastCredential q then 0 else m)"

lemma window_step:
  assumes "readings_in a (a + minute) (QCredential n1 n2 n3 u)" "modern a" "modern (a + minute)"
    and "credCount q \<le> max 0 m" "0 \<le> credCount q"
  shows "window_left a (max 0 m) (roll_window n1 n2 q) \<le> window_left a (max 0 m) q"
    and "\<not> is_zero (lastCredential (roll_window n1 n2 q)) \<or> m \<le> 0"
proof -
  have n: "modern n1" "modern n2" "n1 \<le> a + minute" "a \<le> n2"
    using assms(1-3) by (auto simp: readings_in_def modern_def)
  have "minute < since n1 (lastCredential q) \<Longrightarrow> lastCredential q < a"
    using n by (auto simp: since_gt_iff dur_units max_i64_def)
  with n assms(4,5) show "window_left a (max 0 m) (roll_window n1 n2 q) \<le> window_left a (max 0 m) q"
    by (auto simp: window_left_def roll_window_def)
  have "is_zero (lastCredential q) \<Longrightarrow> minute < since n1 (lastCredential q)"
    using n since_zero_time [of n1] by (simp add: is_zero_def dur_units max_i64_def)
  with n show "\<not> is_zero (lastCredential (roll_window n1 n2 q)) \<or> m \<le> 0"
    by (auto simp: roll_window_def modern_not_zero)
qed

lemma cred_count_ok:
  "tracker_ok s \<Longrightarrow> 0 \<le> credCount (user_of (snd s) u)
     \<and> credCount (user_of (snd s) u) \<le> max 0 (MaxCredentialRequestsPerMinute (quota_limits (snd s)))
     \<and> MaxCredentialRequestsPerMinute (quota_limits (snd s)) \<le> max_i64"
  by (auto simp: tracker_ok_def Let_def)

text \<open>One request: what it grants and what it leaves fit in what was left.\<close>

lemma credential_request_left:
  fixes s :: "nat \<times> tracker"
  defines "m \<equiv> MaxCredentialRequestsPerMinute (quota_limits (snd s))"
  assumes "modern a" "modern (a + minute)" "readings_in a (a + minute) (QCredential n1 n2 n3 u)" "tracker_ok s"
  shows "(if fst (allow_credential n1 n2 n3 u (snd s)) then 1 else 0)
      + window_left a (max 0 m) (user_of (snd (allow_credential n1 n2 n3 u (snd s))) u)
    \<le> window_left a (max 0 m) (user_of (snd s) u)"
proof -
  let ?q = "roll_window n1 n2 (user_of (snd s) u)"
  note c = cred_count_ok [OF assms(5), of u]
  have w: "window_left a (max 0 m) ?q \<le> window_left a (max 0 m) (user_of (snd s) u)"
    "\<not> is_zero (lastCredential ?q) \<or> m \<le> 0"
    using window_step [OF assms(4,2,3), of "user_of (snd s) u" m] c by (simp_all add: m_def)
  have cc: "0 \<le> credCount ?q" using c by (simp add: roll_window_def)
  show ?thesis
  proof (cases "m \<le> credCount ?q")
    case True
    with w show ?thesis by (simp add: allow_credential_eq Let_def m_def)
  next
    case False
    with cc c have "wrap64 (credCount ?q + 1) = credCount ?q + 1" by (simp add: wrap64_succ [of _ m] m_def)
    with False w cc show ?thesis by (simp add: allow_credential_eq Let_def window_left_def m_def)
  qed
qed

lemma creds_granted_left:
  assumes "modern a" "modern (a + minute)" "tracker_ok s" "list_all (readings_in a (a + minute)) xs"
  shows "creds_granted u xs s
    \<le> window_left a (max 0 (MaxCredentialRequestsPerMinute (quota_limits (snd s)))) (user_of (snd s) u)"
  using assms(3,4)
proof (induction xs arbitrary: s)
  case Nil
  then show ?case using cred_count_ok [of s u] by (simp add: window_left_def)
next
  case (Cons x xs)
  let ?m = "MaxCredentialRequestsPerMinute (quota_limits (snd s))"
  have IH: "creds_granted u xs (quota_step x s)
      \<le> window_left a (max 0 ?m) (user_of (snd (quota_step x s)) u)"
    using Cons by (simp add: tracker_ok_step flip: quota_step_limits [of x s])
  show ?case
  proof (cases x)
    case (QAllow v ip)
    with IH show ?thesis
      by (cases s) (auto simp: allow_allocation_eq window_left_def split: if_splits)
  next
    case (QRelease v ip)
    with IH show ?thesis by (auto simp: release_user_of window_left_def split: if_splits)
  next
    case (QBandwidth v b)
    with IH show ?thesis by (auto simp: allow_bandwidth_eq window_left_def split: if_splits)
  next
    case (QCredential n1 n2 n3 v)
    show ?thesis
    proof (cases "v = u")
      case False
      with IH QCredential show ?thesis by (auto simp: allow_credential_eq Let_def split: if_splits)
    next
      case True
      with Cons.prems(2) QCredential have r: "readings_in a (a + minute) (QCredential n1 n2 n3 u)" by simp
      from credential_request_left [OF assms(1,2) r Cons.prems(1)] IH QCredential True show ?thesis
        by (cases s) (auto split: prod.splits)
    qed
  qed
qed

text \<open>The counter of a user is the total of what was granted, wrapped around as its type does.\<close>

lemma bytes_counter:
  assumes "0 < MaxBandwidthPerUser (quota_limits (snd s))" "in_i64 (bytesPerSecond (user_of (snd s) u))"
  shows "bytesPerSecond (user_of (snd (fold quota_step xs s)) u)
    = wrap64 (bytesPerSecond (user_of (snd s) u) + bytes_granted u xs s)"
  using assms
proof (induction xs arbitrary: s)
  case (Cons x xs)
  let ?b = "\<lambda>s. bytesPerSecond (user_of (snd s) u)"
  let ?g = "case x of QBandwidth v b \<Rightarrow> if v = u \<and> quota_verdict x s then b else 0 | _ \<Rightarrow> 0"
  have step: "?b (quota_step x s) = wrap64 (?b s + ?g)"
  proof (cases x)
    case (QAllow v ip)
    with Cons.prems show ?thesis by (cases s) (auto simp: allow_allocation_eq wrap64_id)
  next
    case (QRelease v ip)
    with Cons.prems show ?thesis by (auto simp: release_user_of wrap64_id)
  next
    case (QCredential n1 n2 n3 v)
    with Cons.prems show ?thesis by (auto simp: allow_credential_eq Let_def roll_window_def wrap64_id)
  next
    case (QBandwidth v b)
    with Cons.prems show ?thesis by (auto simp: allow_bandwidth_eq wrap64_id)
  qed
  then have "in_i64 (?b (quota_step x s))" by simp
  with Cons.IH [of "quota_step x s"] Cons.prems(1) have
    "?b (fold quota_step xs (quota_step x s)) = wrap64 (?b (quota_step x s) + bytes_granted u xs (quota_step x s))"
    by (simp add: quota_step_limits)
  with step show ?case by (simp add: wrap64_add_left add.assoc)
qed (simp add: wrap64_id)

text \<open>Byte counts that cannot overflow a counter that is within the limit.\<close>

definition modest :: "int \<Rightarrow> quota_op \<Rightarrow> bool" where
  "modest m x \<longleftrightarrow> (case x of QBandwidth v b \<Rightarrow> 0 \<le> b \<and> b + m \<le> max_i64 | _ \<Rightarrow> True)"

lemma bytes_granted_eq:
  assumes "0 < MaxBandwidthPerUser (quota_limits (snd s))"
    and "list_all (modest (MaxBandwidthPerUser (quota_limits (snd s)))) xs"
    and "0 \<le> bytesPerSecond (user_of (snd s) u)"
      "bytesPerSecond (user_of (snd s) u) \<le> MaxBandwidthPerUser (quota_limits (snd s))"
  shows "bytesPerSecond (user_of (snd s) u) + bytes_granted u xs s
      = bytesPerSecond (user_of (snd (fold quota_step xs s)) u)
    \<and> bytesPerSecond (user_of (snd s) u) + bytes_granted u xs s \<le> MaxBandwidthPerUser (quota_limits (snd s))"
  using assms
proof (induction xs arbitrary: s)
  case (Cons x xs)
  let ?b = "\<lambda>s. bytesPerSecond (user_of (snd s) u)" and ?m = "MaxBandwidthPerUser (quota_limits (snd s))"
  have step: "?b (quota_step x s) = ?b s
      + (case x of QBandwidth v b \<Rightarrow> if v = u \<and> quota_verdict x s then b else 0 | _ \<Rightarrow> 0)
    \<and> 0 \<le> ?b (quota_step x s) \<and> ?b (quota_step x s) \<le> ?m"
  proof (cases x)
    case (QAllow v ip)
    with Cons.prems show ?thesis by (cases s) (auto simp: allow_allocation_eq)
  next
    case (QRelease v ip)
    with Cons.prems show ?thesis by (auto simp: release_user_of)
  next
    case (QCredential n1 n2 n3 v)
    with Cons.prems show ?thesis by (auto simp: allow_credential_eq Let_def roll_window_def)
  next
    case (QBandwidth v b)
    then have "0 \<le> b" "b + ?m \<le> max_i64" using Cons.prems by (auto simp: modest_def)
    then have "v = u \<Longrightarrow> wrap64 (?b s + b) = ?b s + b"
      using Cons.prems by (intro wrap64_id) (simp add: in_i64_iff max_i64_def)
    with QBandwidth Cons.prems \<open>0 \<le> b\<close> show ?thesis by (auto simp: allow_bandwidth_eq)
  qed
  have "?b (quota_step x s) + bytes_granted u xs (quota_step x s) = ?b (fold quota_step xs (quota_step x s))
    \<and> ?b (quota_step x s) + bytes_granted u xs (quota_step x s) \<le> ?m"
    using Cons.IH [of "quota_step x s"] Cons.prems step by (simp add: quota_step_limits)
  with step show ?case by (simp add: algebra_simps)
qed simp

section \<open>Properties\<close>

lemma run_ok: "limits_ok l \<Longrightarrow> tracker_ok (fold quota_step ops (n, new_tracker l))"
  by (intro user_cap.run_keeps tracker_ok_new)

text \<open>
  C4: over any run of calls, of any users and addresses and in any order, no user and no address
  ever has more concurrent allocations than its limit, and no count is negative, unmatched
  releases included.
\<close>

theorem quota_caps:
  assumes "limits_ok l" "s = fold quota_step ops (n, new_tracker l)"
  shows "0 \<le> user_allocations (user_of (snd s) u)
    \<and> user_allocations (user_of (snd s) u) \<le> max 0 (MaxAllocationsPerUser l)
    \<and> 0 \<le> ip_allocations (ip_of (snd s) ip)
    \<and> ip_allocations (ip_of (snd s) ip) \<le> max 0 (MaxAllocationsPerIP l)"
  using user_cap.run_level [OF tracker_ok_new [OF assms(1)], of ops n u]
    ip_cap.run_level [OF tracker_ok_new [OF assms(1)], of ops n ip]
    run_ok [OF assms(1), of ops n] assms(2)
  by (simp add: tracker_ok_def Let_def)

theorem quota_caps_witness:
  "ip_allocations (ip_of (snd (fold quota_step
       [QAllow ''a'' ''10.0.0.1'', QAllow ''b'' ''10.0.0.1'', QAllow ''c'' ''10.0.0.1'', QRelease ''z'' ''10.0.0.9'']
       (0, new_tracker (DefaultLimits\<lparr>MaxAllocationsPerIP := 2\<rparr>)))) ''10.0.0.1'') \<le> 2"
  using quota_caps [of "DefaultLimits\<lparr>MaxAllocationsPerIP := 2\<rparr>" _
      "[QAllow ''a'' ''10.0.0.1'', QAllow ''b'' ''10.0.0.1'', QAllow ''c'' ''10.0.0.1'', QRelease ''z'' ''10.0.0.9'']"
      0 "''a''" "''10.0.0.1''", OF _ refl]
  by (simp add: limits_ok_def DefaultLimits_def max_i64_def)

text \<open>
  C12: the tracker refines the multiset of allocations held.  When callers release only what they
  hold, an allocation is admitted exactly when its user and its address each hold fewer than
  their limit, and \<open>ActiveAllocations\<close> and \<open>ActiveUsers\<close> count what is held, whatever order the
  map is visited in.
\<close>

theorem allocation_refinement:
  assumes "limits_ok l" "releases_held l ops {#}" "visits ord"
    and "s = fold quota_step ops (n, new_tracker l)" "H = fold (spec_step l) ops {#}"
  shows "fst (allow_allocation u ip s) = spec_admits l u ip H
    \<and> active_allocations ord (snd s) = wrap64 (int (size H))
    \<and> active_users ord (snd s) = int (card (fst ` set_mset H))"
proof -
  have "represents {#} (new_tracker l)"
    by (simp add: represents_def held_by_user_def held_by_ip_def fresh_user_def fresh_ip_def)
  then have r: "represents H (snd s)"
    using represents_run [of "(n, new_tracker l)" "{#}" ops] assms by (simp add: tracker_ok_new)
  have "gm_ok (users (snd s))" "quota_limits (snd s) = l"
    using run_ok [OF assms(1), of ops n] assms(4) by (simp_all add: tracker_ok_def Let_def)
  with r assms(3) show ?thesis
    using represents_admits [OF r, of u ip "fst s"] by (simp add: active_allocations_held active_users_held)
qed

theorem allocation_refinement_witness:
  "\<not> fst (allow_allocation ''a'' ''10.0.0.3'' (fold quota_step
       [QAllow ''a'' ''10.0.0.1'', QAllow ''a'' ''10.0.0.2'', QAllow ''b'' ''10.0.0.1'', QRelease ''b'' ''10.0.0.1'']
       (0, new_tracker (DefaultLimits\<lparr>MaxAllocationsPerUser := 2\<rparr>))))
   \<and> active_users rev (snd (fold quota_step
       [QAllow ''a'' ''10.0.0.1'', QAllow ''a'' ''10.0.0.2'', QAllow ''b'' ''10.0.0.1'', QRelease ''b'' ''10.0.0.1'']
       (0, new_tracker (DefaultLimits\<lparr>MaxAllocationsPerUser := 2\<rparr>)))) = 1"
proof -
  let ?l = "DefaultLimits\<lparr>MaxAllocationsPerUser := 2\<rparr>"
  let ?ops = "[QAllow ''a'' ''10.0.0.1'', QAllow ''a'' ''10.0.0.2'', QAllow ''b'' ''10.0.0.1'', QRelease ''b'' ''10.0.0.1'']"
  have l: "limits_ok ?l" by (simp add: limits_ok_def DefaultLimits_def max_i64_def)
  have h: "releases_held ?l ?ops {#}" "fold (spec_step ?l) ?ops {#} = {#(''a'', ''10.0.0.2''), (''a'', ''10.0.0.1'')#}"
    by (simp_all add: spec_admits_def held_by_user_def held_by_ip_def DefaultLimits_def)
  show ?thesis
    using allocation_refinement [OF l h(1) visits_rev refl refl, of "''a''" "''10.0.0.3''" 0]
    by (simp only: h(2)) (simp add: spec_admits_def held_by_user_def DefaultLimits_def)
qed

text \<open>
  C28: within any minute a user is granted at most twice the credential limit, the window being
  fixed and not sliding: once the rest of the window the user is in, once a new window.
\<close>

theorem credential_window:
  assumes "limits_ok l" "s = fold quota_step before (n, new_tracker l)"
    and "modern a" "modern (a + minute)" "list_all (readings_in a (a + minute)) ops"
  shows "creds_granted u ops s \<le> 2 * max 0 (MaxCredentialRequestsPerMinute l)"
proof -
  have ok: "tracker_ok s" "quota_limits (snd s) = l"
    using run_ok [OF assms(1), of before n] assms(2) by simp_all
  from creds_granted_left [OF assms(3,4) ok(1) assms(5), of u] ok cred_count_ok [OF ok(1), of u]
  show ?thesis by (auto simp: window_left_def split: if_splits)
qed

text \<open>A limit of one: the first request after a minute opens a window, the second is refused.\<close>

theorem credential_window_witness:
  "let l = DefaultLimits\<lparr>MaxCredentialRequestsPerMinute := 1\<rparr>; t0 = 1000 * second;
       s = fold quota_step [QCredential t0 t0 t0 ''a'', QRelease ''a'' ''x''] (0, new_tracker l);
       late = t0 + minute + 1; ops = [QCredential late late late ''a'', QCredential late late late ''a'']
   in creds_granted ''a'' ops s = 1 \<and> creds_granted ''a'' ops s \<le> 2"
proof -
  let ?l = "DefaultLimits\<lparr>MaxCredentialRequestsPerMinute := 1\<rparr>" and ?t = "1000 * second"
  let ?b = "[QCredential ?t ?t ?t ''a'', QRelease ''a'' ''x'']"
  let ?n = "?t + minute + 1"
  let ?ops = "[QCredential ?n ?n ?n ''a'', QCredential ?n ?n ?n ''a'']"
  have a: "limits_ok ?l" "modern ?t" "modern (?t + 1)" "modern (?t + 1 + minute)"
    "list_all (readings_in (?t + 1) (?t + 1 + minute)) ?ops"
    by (simp_all add: limits_ok_def DefaultLimits_def max_i64_def modern_def readings_in_def dur_units)
  have "creds_granted ''a'' ?ops (fold quota_step ?b (0, new_tracker ?l)) = 1"
    by (simp add: allow_credential_eq release_user_of roll_window_def fresh_user_def DefaultLimits_def Let_def
        since_def sat64_def min_i64_def max_i64_def zero_time_def is_zero_def dur_units)
  with credential_window [OF a(1) refl a(3-5), of "''a''" ?b 0] show ?thesis
    by (simp add: Let_def DefaultLimits_def)
qed

text \<open>
  C27: what \<open>AllowBandwidth\<close> limits is the total of a user's bytes since the tracker was made, not the
  bytes per second its limit is documented in: after any run under a positive limit the user's counter
  is the sum of the byte counts granted, no time passing ever lowers it, and the next request is
  granted exactly when counter and request, added in 64 bits, are within the limit.  As long as no
  byte count is negative or large enough to overflow, the grants of any run add up to at most one
  second's allowance; but the addition is not checked, so a request that carries the sum past the
  largest 64-bit integer is granted, whatever the limit.
\<close>

theorem bandwidth_is_lifetime_total:
  assumes "0 < MaxBandwidthPerUser l"
  shows "let s = snd (fold quota_step ops (n, new_tracker l)); total = bytes_granted u ops (n, new_tracker l)
    in bytesPerSecond (user_of s u) = wrap64 total
      \<and> fst (allow_bandwidth u b s) = (wrap64 (total + b) \<le> MaxBandwidthPerUser l)
      \<and> (list_all (modest (MaxBandwidthPerUser l)) ops \<longrightarrow> total \<le> MaxBandwidthPerUser l)
      \<and> (0 \<le> total \<and> total \<le> max_i64 \<and> b \<le> max_i64 \<and> max_i64 < total + b \<longrightarrow> fst (allow_bandwidth u b s))"
proof -
  let ?g = "bytes_granted u ops (n, new_tracker l)" and ?s = "snd (fold quota_step ops (n, new_tracker l))"
  have c: "bytesPerSecond (user_of ?s u) = wrap64 ?g"
    using bytes_counter [of "(n, new_tracker l)" u ops] assms by (simp add: fresh_user_def in_i64_iff)
  then have v: "fst (allow_bandwidth u b ?s) = (wrap64 (?g + b) \<le> MaxBandwidthPerUser l)"
    using assms by (auto simp: allow_bandwidth_eq wrap64_add_left)
  have "?g \<le> MaxBandwidthPerUser l" if "list_all (modest (MaxBandwidthPerUser l)) ops"
    using bytes_granted_eq [of "(n, new_tracker l)" ops u] that assms by (simp add: fresh_user_def)
  moreover have "wrap64 (?g + b) < 0" if "0 \<le> ?g" "?g \<le> max_i64" "b \<le> max_i64" "max_i64 < ?g + b"
    using that by (simp add: wrap64_over max_i64_def)
  ultimately show ?thesis
    using c v assms by (auto simp: Let_def)
qed

theorem bandwidth_is_lifetime_total_witness:
  "\<not> fst (allow_bandwidth ''a'' 1 (snd (fold quota_step
       [QBandwidth ''a'' 1000000, QCredential (1000 * hour) (1000 * hour) (1000 * hour) ''a'', QBandwidth ''a'' 48576]
       (0, new_tracker DefaultLimits))))
   \<and> fst (allow_bandwidth ''a'' max_i64 (snd (fold quota_step [QBandwidth ''a'' 10] (0, new_tracker DefaultLimits))))"
proof -
  let ?ops = "[QBandwidth ''a'' 1000000, QCredential (1000 * hour) (1000 * hour) (1000 * hour) ''a'', QBandwidth ''a'' 48576]"
  have b: "bytes_granted ''a'' ?ops (0, new_tracker DefaultLimits) = 1048576"
    "bytes_granted ''a'' [QBandwidth ''a'' 10] (0, new_tracker DefaultLimits) = 10"
    by (simp_all add: allow_bandwidth_eq allow_credential_eq roll_window_def Let_def fresh_user_def DefaultLimits_def
        since_def sat64_def min_i64_def max_i64_def zero_time_def is_zero_def dur_units wrap64_def)
  have h: "0 < MaxBandwidthPerUser DefaultLimits" by (simp add: DefaultLimits_def)
  have l: "MaxBandwidthPerUser DefaultLimits = 1048576" by (simp add: DefaultLimits_def)
  have "wrap64 (1048576 + 1) = 1048577" "wrap64 9223372036854775817 \<le> 1048576" by (simp_all add: wrap64_def)
  then show ?thesis
    using bandwidth_is_lifetime_total [OF h, where u = "''a''" and n = 0 and ops = ?ops and b = 1]
      bandwidth_is_lifetime_total [OF h, where u = "''a''" and n = 0 and ops = "[QBandwidth ''a'' 10]" and b = max_i64]
    unfolding Let_def b l by (simp add: max_i64_def)
qed

end
