(* ===== verification/Go_Float.thy ===== *)
theory Go_Float
  imports Complex_Main Go_Time
begin

text \<open>
  Go's \<open>float64\<close>.  A value is the rational number it stands for, and each operation is the exact
  operation followed by a rounding to 53 significant bits, ties to even, as IEEE 754 prescribes.
  The rounding computes.  Not covered: infinities and NaN, results beyond the exponent range
  (above 2^1024, or below 2^-1022, where binary64 has fewer bits), and the sign of zero; none
  of them arises from the finite rates, bursts and times the program's limiter and statistics
  work on.  The locale \<open>rounding\<close> is what the components use: monotonicity, and exactness on the
  integers up to 2^53.
\<close>

section \<open>The contract\<close>

locale rounding =
  fixes rnd :: "rat \<Rightarrow> rat"
  assumes rnd_mono: "x \<le> y \<Longrightarrow> rnd x \<le> rnd y"
    and rnd_int: "\<bar>n\<bar> \<le> 2 ^ 53 \<Longrightarrow> rnd (of_int n) = of_int n"
begin

lemma rnd_0: "rnd 0 = 0"
  using rnd_int [of 0] by simp

lemma rnd_1: "rnd 1 = 1"
  using rnd_int [of 1] by simp

lemma rnd_nonneg: "0 \<le> x \<Longrightarrow> 0 \<le> rnd x"
  using rnd_mono [of 0 x] by (simp add: rnd_0)

lemma rnd_le_int: "\<bar>n\<bar> \<le> 2 ^ 53 \<Longrightarrow> x \<le> of_int n \<Longrightarrow> rnd x \<le> of_int n"
  using rnd_mono [of x "of_int n"] by (simp add: rnd_int)

lemma rnd_ge_int: "\<bar>n\<bar> \<le> 2 ^ 53 \<Longrightarrow> of_int n \<le> x \<Longrightarrow> of_int n \<le> rnd x"
  using rnd_mono [of "of_int n" x] by (simp add: rnd_int)

end

section \<open>Round to nearest, ties to even\<close>

definition round_even :: "rat \<Rightarrow> int" where
  "round_even x =
     (let f = \<lfloor>x\<rfloor>; r = x - of_int f
      in if r < 1 / 2 then f else if 1 / 2 < r then f + 1 else if even f then f else f + 1)"

lemma round_even_of_int [simp]: "round_even (of_int n) = n"
  by (simp add: round_even_def)

lemma round_even_bounds: "\<lfloor>x\<rfloor> \<le> round_even x" "round_even x \<le> \<lfloor>x\<rfloor> + 1"
  by (simp_all add: round_even_def Let_def)

lemma round_even_mono: "x \<le> y \<Longrightarrow> round_even x \<le> round_even y"
proof (cases "\<lfloor>x\<rfloor> = \<lfloor>y\<rfloor>")
  case True
  assume "x \<le> y"
  with True show ?thesis by (auto simp: round_even_def Let_def)
next
  case False
  assume "x \<le> y"
  with False have "\<lfloor>x\<rfloor> + 1 \<le> \<lfloor>y\<rfloor>" using floor_mono [of x y] by linarith
  then show ?thesis using round_even_bounds(2) [of x] round_even_bounds(1) [of y] by linarith
qed

section \<open>The binary exponent\<close>

fun bit_size :: "nat \<Rightarrow> nat" where
  "bit_size n = (if n = 0 then 0 else Suc (bit_size (n div 2)))"

declare bit_size.simps [simp del]

lemma bit_size_bounds: "0 < n \<Longrightarrow> 2 ^ (bit_size n - 1) \<le> n \<and> n < 2 ^ bit_size n \<and> 0 < bit_size n"
proof (induction n rule: bit_size.induct)
  case (1 n)
  show ?case
  proof (cases "n div 2 = 0")
    case True
    with 1(2) have "n = 1" by auto
    then show ?thesis by (simp add: bit_size.simps)
  next
    case False
    with 1 have ih: "2 ^ (bit_size (n div 2) - 1) \<le> n div 2" "n div 2 < 2 ^ bit_size (n div 2)"
      "0 < bit_size (n div 2)" by auto
    then obtain b where b: "bit_size (n div 2) = Suc b" using gr0_implies_Suc by blast
    with 1(2) have "bit_size n = Suc (Suc b)" by (simp add: bit_size.simps [of n])
    with ih b show ?thesis by auto
  qed
qed

definition f64_exp :: "rat \<Rightarrow> int" where
  "f64_exp x =
     (let (n, d) = quotient_of x; k = int (bit_size (nat n)) - int (bit_size (nat d))
      in if 2 powi k \<le> x then k else k - 1)"

lemma bit_size_powi:
  assumes "0 < i"
  shows "2 powi (int (bit_size (nat i)) - 1) \<le> (of_int i :: rat)" "(of_int i :: rat) < 2 powi int (bit_size (nat i))"
proof -
  let ?a = "bit_size (nat i)"
  from bit_size_bounds [of "nat i"] assms
  have nb: "2 ^ (?a - 1) \<le> nat i" "nat i < 2 ^ ?a" "0 < ?a" by auto
  have "(of_nat (2 ^ (?a - 1)) :: rat) \<le> of_nat (nat i)" using nb by (simp only: of_nat_le_iff)
  moreover have "int ?a - 1 = int (?a - 1)" using nb by simp
  ultimately show "2 powi (int ?a - 1) \<le> (of_int i :: rat)"
    using assms by (simp only: power_int_of_nat) simp
  have "(of_nat (nat i) :: rat) < of_nat (2 ^ ?a)" using nb by (simp only: of_nat_less_iff)
  then show "(of_int i :: rat) < 2 powi int ?a" using assms by simp
qed

lemma f64_exp_bounds:
  assumes "0 < x"
  shows "2 powi f64_exp x \<le> x" "x < 2 powi (f64_exp x + 1)"
proof -
  obtain n d where q: "quotient_of x = (n, d)" by (cases "quotient_of x") auto
  then have d: "0 < d" and x: "x = of_int n / of_int d"
    by (auto dest: quotient_of_denom_pos quotient_of_div)
  with assms have "0 < n" by (simp add: zero_less_divide_iff)
  let ?a = "bit_size (nat n)" and ?b = "bit_size (nat d)"
  define k where "k = int ?a - int ?b"
  note n1 = bit_size_powi [OF \<open>0 < n\<close>] and d1 = bit_size_powi [OF d]
  have lower: "2 powi (k - 1) \<le> x"
  proof -
    have "2 powi (k - 1) * of_int d \<le> 2 powi (k - 1) * (2 powi int ?b :: rat)"
      using d1 by (intro mult_left_mono) auto
    also have "\<dots> = 2 powi (k - 1 + int ?b)" by (rule power_int_add [symmetric]) simp
    also have "\<dots> = 2 powi (int ?a - 1)" by (simp add: k_def algebra_simps)
    also have "\<dots> \<le> of_int n" by (rule n1)
    finally show ?thesis using d x by (simp add: pos_le_divide_eq)
  qed
  have upper: "x < 2 powi (k + 1)"
  proof -
    have "of_int n < 2 powi (k + 1) * (2 powi (int ?b - 1) :: rat)"
      using n1 by (simp add: k_def flip: power_int_add)
    also have "\<dots> \<le> 2 powi (k + 1) * of_int d" using d1 by (intro mult_left_mono) auto
    finally show ?thesis using d x by (simp add: pos_divide_less_eq)
  qed
  have "f64_exp x = (if 2 powi k \<le> x then k else k - 1)"
    by (simp add: f64_exp_def q k_def)
  with lower upper show "2 powi f64_exp x \<le> x" "x < 2 powi (f64_exp x + 1)" by auto
qed

lemma f64_exp_mono: "0 < x \<Longrightarrow> x \<le> y \<Longrightarrow> f64_exp x \<le> f64_exp y"
proof (rule ccontr)
  assume xy: "0 < x" "x \<le> y" "\<not> f64_exp x \<le> f64_exp y"
  then have "(2 powi (f64_exp y + 1) :: rat) \<le> 2 powi f64_exp x"
    by (intro power_int_increasing) auto
  with xy f64_exp_bounds(2) [of y] f64_exp_bounds(1) [of x] show False by linarith
qed

section \<open>Rounding to 53 bits\<close>

definition f64_ulp :: "rat \<Rightarrow> rat" where
  "f64_ulp x = 2 powi (f64_exp x - 52)"

definition round_pos :: "rat \<Rightarrow> rat" where
  "round_pos x = of_int (round_even (x / f64_ulp x)) * f64_ulp x"

definition f64_round :: "rat \<Rightarrow> rat" where
  "f64_round x = (if x = 0 then 0 else if 0 < x then round_pos x else - round_pos (- x))"

lemma f64_ulp_pos [simp]: "0 < f64_ulp x"
  by (simp add: f64_ulp_def)

lemma f64_ulp_nonzero [simp]: "f64_ulp x \<noteq> 0"
  using f64_ulp_pos [of x] by linarith

lemma ulp_scale: "2 powi f64_exp x = 2 ^ 52 * f64_ulp x"
  by (simp add: f64_ulp_def power_int_diff)

lemma round_pos_bounds:
  assumes "0 < x"
  shows "2 powi f64_exp x \<le> round_pos x" "round_pos x \<le> 2 powi (f64_exp x + 1)"
proof -
  have "of_int (2 ^ 52) \<le> x / f64_ulp x"
    using f64_exp_bounds(1) [OF assms] by (simp add: pos_le_divide_eq ulp_scale)
  from round_even_mono [OF this] have "2 ^ 52 \<le> round_even (x / f64_ulp x)"
    by (simp only: round_even_of_int)
  then have "(of_int (2 ^ 52) :: rat) \<le> of_int (round_even (x / f64_ulp x))"
    by (simp only: of_int_le_iff)
  then show "2 powi f64_exp x \<le> round_pos x"
    by (simp add: ulp_scale round_pos_def mult_right_mono)
  have e: "(2 powi (f64_exp x + 1) :: rat) = 2 ^ 53 * f64_ulp x"
    using ulp_scale [of x] by (simp add: power_int_add)
  have "x / f64_ulp x \<le> of_int (2 ^ 53)"
    using f64_exp_bounds(2) [OF assms] e by (simp add: pos_divide_le_eq)
  from round_even_mono [OF this] have "round_even (x / f64_ulp x) \<le> 2 ^ 53"
    by (simp only: round_even_of_int)
  then have "(of_int (round_even (x / f64_ulp x)) :: rat) \<le> of_int (2 ^ 53)"
    by (simp only: of_int_le_iff)
  then show "round_pos x \<le> 2 powi (f64_exp x + 1)"
    by (simp only: e round_pos_def) (simp add: mult_right_mono)
qed

lemma round_pos_pos: "0 < x \<Longrightarrow> 0 < round_pos x"
  using round_pos_bounds(1) [of x] by (rule less_le_trans [rotated]) simp_all

lemma round_pos_mono:
  assumes "0 < x" "x \<le> y"
  shows "round_pos x \<le> round_pos y"
proof (cases "f64_exp x = f64_exp y")
  case True
  then have u: "f64_ulp x = f64_ulp y" by (simp add: f64_ulp_def)
  have "x / f64_ulp x \<le> y / f64_ulp x" using assms by (simp add: divide_right_mono less_imp_le)
  then show ?thesis
    by (simp only: round_pos_def u [symmetric]) (intro mult_right_mono, simp_all add: round_even_mono less_imp_le)
next
  case False
  with f64_exp_mono [OF assms] have "(2 powi (f64_exp x + 1) :: rat) \<le> 2 powi f64_exp y"
    by (intro power_int_increasing) auto
  with round_pos_bounds(2) [of x] round_pos_bounds(1) [of y] assms show ?thesis by linarith
qed

lemma f64_round_mono: "x \<le> y \<Longrightarrow> f64_round x \<le> f64_round y"
  using round_pos_mono [of x y] round_pos_mono [of "- y" "- x"] round_pos_pos [of y]
    round_pos_pos [of "- x"]
  by (auto simp: f64_round_def)

lemma round_pos_int:
  assumes "0 < n" "n \<le> 2 ^ 53"
  shows "round_pos (of_int n) = of_int n"
proof -
  let ?x = "of_int n :: rat" and ?e = "f64_exp (of_int n)"
  have "\<exists>m. ?x / f64_ulp ?x = of_int m"
  proof (cases "?e \<le> 52")
    case True
    then have "f64_ulp ?x * 2 ^ nat (52 - ?e) = 1"
      by (simp add: f64_ulp_def flip: power_int_of_nat power_int_add)
    then have "?x / f64_ulp ?x = of_int (n * 2 ^ nat (52 - ?e))"
      by (simp add: divide_eq_eq mult.assoc mult.commute [of "2 ^ nat (52 - ?e)"])
    then show ?thesis by blast
  next
    case False
    then have "(2 powi 53 :: rat) \<le> 2 powi ?e" by (intro power_int_increasing) auto
    also have "\<dots> \<le> ?x" using f64_exp_bounds(1) [of ?x] assms by simp
    finally have "(of_int (2 ^ 53) :: rat) \<le> of_int n" by simp
    then have "n = 2 ^ 53" using assms by (simp only: of_int_le_iff)
    moreover have "?e = 53"
    proof (rule ccontr)
      assume "?e \<noteq> 53"
      with False have "(2 powi 54 :: rat) \<le> 2 powi ?e" by (intro power_int_increasing) auto
      also have "\<dots> \<le> ?x" using f64_exp_bounds(1) [of ?x] assms by simp
      finally show False using \<open>n = 2 ^ 53\<close> by simp
    qed
    ultimately have "?x / f64_ulp ?x = of_int (2 ^ 52)" by (simp add: f64_ulp_def)
    then show ?thesis by blast
  qed
  then obtain m where m: "?x / f64_ulp ?x = of_int m" by blast
  then have "?x = of_int m * f64_ulp ?x" by (simp add: divide_eq_eq)
  with m show ?thesis by (simp add: round_pos_def)
qed

lemma f64_round_int: "\<bar>n\<bar> \<le> 2 ^ 53 \<Longrightarrow> f64_round (of_int n) = of_int n"
  using round_pos_int [of n] round_pos_int [of "- n"] by (auto simp: f64_round_def)

interpretation f64: rounding f64_round
  by unfold_locales (simp_all only: f64_round_mono f64_round_int)

section \<open>Operations\<close>

type_synonym float64 = rat

definition f64_of_int :: "int \<Rightarrow> float64" where
  "f64_of_int n = f64_round (of_int n)"

definition f64_add :: "float64 \<Rightarrow> float64 \<Rightarrow> float64" where
  "f64_add x y = f64_round (x + y)"

definition f64_sub :: "float64 \<Rightarrow> float64 \<Rightarrow> float64" where
  "f64_sub x y = f64_round (x - y)"

definition f64_mul :: "float64 \<Rightarrow> float64 \<Rightarrow> float64" where
  "f64_mul x y = f64_round (x * y)"

definition f64_div :: "float64 \<Rightarrow> float64 \<Rightarrow> float64" where
  "f64_div x y = f64_round (x / y)"

lemmas f64_ops = f64_of_int_def f64_add_def f64_sub_def f64_mul_def f64_div_def

text \<open>\<open>Duration.Seconds\<close>: the whole seconds and the nanoseconds left over, added as floats.\<close>

definition seconds :: "duration \<Rightarrow> float64" where
  "seconds d = f64_add (f64_of_int (quot d second)) (f64_div (f64_of_int (d - quot d second * second)) 1000000000)"

text \<open>The conversion \<open>int(x)\<close> of a float truncates towards zero.\<close>

definition f64_trunc :: "float64 \<Rightarrow> int" where
  "f64_trunc x = (if 0 \<le> x then \<lfloor>x\<rfloor> else \<lceil>x\<rceil>)"

lemma seconds_whole: "\<bar>k\<bar> \<le> 2 ^ 53 \<Longrightarrow> seconds (k * second) = of_int k"
proof -
  assume k: "\<bar>k\<bar> \<le> 2 ^ 53"
  have "quot (k * second) second = k" by (auto simp: quot_def second_def)
  with k show ?thesis by (simp add: seconds_def f64_ops f64.rnd_int f64.rnd_0)
qed

lemma seconds_nonneg: "0 \<le> d \<Longrightarrow> 0 \<le> seconds d"
proof -
  assume d: "0 \<le> d"
  then have "quot d second * second \<le> d" by (simp add: quot_def second_def)
  with d show ?thesis
    by (auto simp: seconds_def f64_ops quot_def second_def
        intro!: f64.rnd_nonneg add_nonneg_nonneg divide_nonneg_nonneg)
qed

lemma f64_trunc_of_int [simp]: "f64_trunc (of_int n) = n"
  by (simp add: f64_trunc_def)

end
