(* ===== verification/Go_Strings.thy ===== *)
theory Go_Strings
  imports Prelude
begin

text \<open>
  The parts of \<open>strings\<close>, \<open>strconv\<close> and \<open>fmt\<close> the program uses, on byte strings:
  \<open>HasPrefix\<close>, \<open>HasSuffix\<close>, \<open>TrimPrefix\<close>, \<open>SplitN\<close> with limit 2, \<open>Split\<close>,
  \<open>Join\<close>, \<open>TrimSpace\<close>, \<open>TrimRight\<close> of one character, \<open>LastIndex\<close>, \<open>EqualFold\<close>,
  \<open>ParseInt\<close> in base 10 and the verb \<open>%d\<close>.  The lemmas are the round trips the credential
  format rests on: splitting a joined string and parsing a printed number.
\<close>

section \<open>Prefixes, cutting and joining\<close>

definition has_prefix :: "string \<Rightarrow> string \<Rightarrow> bool" where
  "has_prefix s p \<longleftrightarrow> take (length p) s = p"

definition has_suffix :: "string \<Rightarrow> string \<Rightarrow> bool" where
  "has_suffix s p \<longleftrightarrow> has_prefix (rev s) (rev p)"

definition trim_prefix :: "string \<Rightarrow> string \<Rightarrow> string" where
  "trim_prefix s p = (if has_prefix s p then drop (length p) s else s)"

text \<open>\<open>strings.SplitN(s, sep, 2)\<close> for a separator of one character.\<close>

definition split_n2 :: "char \<Rightarrow> string \<Rightarrow> string list" where
  "split_n2 c s =
     (let a = takeWhile (\<lambda>x. x \<noteq> c) s; b = dropWhile (\<lambda>x. x \<noteq> c) s
      in if b = [] then [s] else [a, tl b])"

text \<open>\<open>strings.Split(s, sep)\<close> for a separator of one character.\<close>

fun split_all :: "char \<Rightarrow> string \<Rightarrow> string list" where
  "split_all c [] = [[]]"
| "split_all c (x # xs) =
     (if x = c then [] # split_all c xs
      else (case split_all c xs of [] \<Rightarrow> [[x]] | p # ps \<Rightarrow> (x # p) # ps))"

fun join_with :: "string \<Rightarrow> string list \<Rightarrow> string" where
  "join_with sep [] = []"
| "join_with sep [p] = p"
| "join_with sep (p # q # ps) = p @ sep @ join_with sep (q # ps)"

text \<open>\<open>strings.LastIndex(s, c)\<close> for one character, with Go's \<open>-1\<close> for an absent one.\<close>

fun last_index_from :: "int \<Rightarrow> int \<Rightarrow> char \<Rightarrow> string \<Rightarrow> int" where
  "last_index_from i acc c [] = acc"
| "last_index_from i acc c (x # xs) = last_index_from (i + 1) (if x = c then i else acc) c xs"

definition last_index :: "char \<Rightarrow> string \<Rightarrow> int" where
  "last_index c s = last_index_from 0 (-1) c s"

definition trim_right_char :: "char \<Rightarrow> string \<Rightarrow> string" where
  "trim_right_char c s = rev (dropWhile (\<lambda>x. x = c) (rev s))"

lemma has_prefix_append [simp]: "has_prefix (p @ s) p"
  by (simp add: has_prefix_def)

lemma has_prefix_Nil [simp]: "has_prefix s []"
  by (simp add: has_prefix_def)

lemma has_prefix_iff: "has_prefix s p \<longleftrightarrow> (\<exists>r. s = p @ r)"
  by (metis append_take_drop_id append_eq_conv_conj has_prefix_def)

lemma has_suffix_iff: "has_suffix s p \<longleftrightarrow> (\<exists>r. s = r @ p)"
  by (metis has_suffix_def has_prefix_iff rev_append rev_rev_ident)

lemma trim_prefix_append [simp]: "trim_prefix (p @ s) p = s"
  by (simp add: trim_prefix_def)

lemma split_n2_append [simp]: "c \<notin> set a \<Longrightarrow> split_n2 c (a @ c # b) = [a, b]"
proof -
  assume a: "c \<notin> set a"
  then have "takeWhile (\<lambda>x. x \<noteq> c) (a @ c # b) = a" "dropWhile (\<lambda>x. x \<noteq> c) (a @ c # b) = c # b"
    by (induction a) auto
  then show ?thesis by (simp add: split_n2_def Let_def)
qed

lemma split_n2_absent: "c \<notin> set s \<Longrightarrow> split_n2 c s = [s]"
proof -
  assume "c \<notin> set s"
  then have "dropWhile (\<lambda>x. x \<noteq> c) s = []" by (auto simp: dropWhile_eq_Nil_conv)
  then show ?thesis by (simp add: split_n2_def)
qed

lemma split_n2_cases:
  "split_n2 c s = [s] \<and> c \<notin> set s \<or> (\<exists>a b. c \<notin> set a \<and> s = a @ c # b \<and> split_n2 c s = [a, b])"
proof (cases "c \<in> set s")
  case True
  then obtain a b where "s = a @ c # b" "c \<notin> set a"
    by (metis split_list_first)
  then show ?thesis by auto
next
  case False
  then show ?thesis by (simp add: split_n2_absent)
qed

lemma split_n2_two: "split_n2 c s = [a, b] \<longleftrightarrow> c \<notin> set a \<and> s = a @ c # b"
proof
  assume two: "split_n2 c s = [a, b]"
  then show "c \<notin> set a \<and> s = a @ c # b"
    using split_n2_cases [of c s] by (elim disjE exE conjE) simp_all
qed simp

lemma length_split_n2: "length (split_n2 c s) = (if c \<in> set s then 2 else 1)"
  using split_n2_cases [of c s] by (elim disjE exE conjE) simp_all

lemma split_all_nonempty [simp]: "split_all c s \<noteq> []"
  by (induction s) (auto split: list.splits)

lemma split_all_no_sep: "p \<in> set (split_all c s) \<Longrightarrow> c \<notin> set p"
  by (induction s arbitrary: p) (auto split: list.splits if_splits)

lemma join_split_all: "join_with [c] (split_all c s) = s"
proof (induction s)
  case Nil
  then show ?case by simp
next
  case (Cons x xs)
  obtain p ps where "split_all c xs = p # ps" by (cases "split_all c xs") auto
  with Cons show ?case by (cases ps) auto
qed

lemma split_all_append: "c \<notin> set p \<Longrightarrow> split_all c (p @ c # s) = p # split_all c s"
  by (induction p) auto

lemma split_all_absent: "c \<notin> set p \<Longrightarrow> split_all c p = [p]"
  by (induction p) auto

lemma split_join: "ps \<noteq> [] \<Longrightarrow> \<forall>p\<in>set ps. c \<notin> set p \<Longrightarrow> split_all c (join_with [c] ps) = ps"
  by (induction "[c]" ps rule: join_with.induct) (auto simp: split_all_append split_all_absent)

lemma last_index_from_absent: "c \<notin> set s \<Longrightarrow> last_index_from i acc c s = acc"
  by (induction s arbitrary: i acc) auto

lemma last_index_from_append:
  "last_index_from i acc c (a @ b) = last_index_from (i + int (length a)) (last_index_from i acc c a) c b"
  by (induction a arbitrary: i acc) (auto simp: algebra_simps)

lemma last_index_last: "c \<notin> set b \<Longrightarrow> last_index c (a @ c # b) = int (length a)"
  by (simp add: last_index_def last_index_from_append last_index_from_absent)

lemma last_index_absent: "c \<notin> set s \<Longrightarrow> last_index c s = -1"
  by (simp add: last_index_def last_index_from_absent)

section \<open>White space and letter case\<close>

text \<open>
  The white space of \<open>strings.TrimSpace\<close>: the ASCII characters and, as UTF-8 sequences, the
  other code points Unicode calls white space.
\<close>

definition go_spaces :: "string list" where
  "go_spaces =
     [[CHR 0x09], [CHR 0x0A], [CHR 0x0B], [CHR 0x0C], [CHR 0x0D], [CHR 0x20],
      [CHR 0xC2, CHR 0x85], [CHR 0xC2, CHR 0xA0], [CHR 0xE1, CHR 0x9A, CHR 0x80],
      [CHR 0xE2, CHR 0x80, CHR 0x80], [CHR 0xE2, CHR 0x80, CHR 0x81], [CHR 0xE2, CHR 0x80, CHR 0x82],
      [CHR 0xE2, CHR 0x80, CHR 0x83], [CHR 0xE2, CHR 0x80, CHR 0x84], [CHR 0xE2, CHR 0x80, CHR 0x85],
      [CHR 0xE2, CHR 0x80, CHR 0x86], [CHR 0xE2, CHR 0x80, CHR 0x87], [CHR 0xE2, CHR 0x80, CHR 0x88],
      [CHR 0xE2, CHR 0x80, CHR 0x89], [CHR 0xE2, CHR 0x80, CHR 0x8A], [CHR 0xE2, CHR 0x80, CHR 0xA8],
      [CHR 0xE2, CHR 0x80, CHR 0xA9], [CHR 0xE2, CHR 0x80, CHR 0xAF], [CHR 0xE2, CHR 0x81, CHR 0x9F],
      [CHR 0xE3, CHR 0x80, CHR 0x80]]"

function trim_front :: "string list \<Rightarrow> string \<Rightarrow> string" where
  "trim_front ws s =
     (case find (\<lambda>w. w \<noteq> [] \<and> has_prefix s w) ws of
        None \<Rightarrow> s
      | Some w \<Rightarrow> trim_front ws (drop (length w) s))"
  by pat_completeness auto
termination
proof (relation "measure (\<lambda>(ws, s). length s)")
  fix ws s w
  assume "find (\<lambda>w. w \<noteq> [] \<and> has_prefix s w) ws = Some w"
  then have "w \<noteq> []" "has_prefix s w" by (auto simp: find_Some_iff)
  then show "((ws, drop (length w) s), ws, s) \<in> measure (\<lambda>(ws, s). length s)"
    by (cases s) (auto simp: has_prefix_def)
qed simp

declare trim_front.simps [simp del]

definition trim_space :: "string \<Rightarrow> string" where
  "trim_space s = rev (trim_front (map rev go_spaces) (rev (trim_front go_spaces s)))"

lemma trim_front_stop: "\<forall>w\<in>set ws. w \<noteq> [] \<longrightarrow> \<not> has_prefix s w \<Longrightarrow> trim_front ws s = s"
proof -
  assume "\<forall>w\<in>set ws. w \<noteq> [] \<longrightarrow> \<not> has_prefix s w"
  then have "find (\<lambda>w. w \<noteq> [] \<and> has_prefix s w) ws = None" by (auto simp: find_None_iff)
  then show ?thesis by (simp add: trim_front.simps)
qed

lemma trim_front_stopped: "w \<in> set ws \<Longrightarrow> w \<noteq> [] \<Longrightarrow> \<not> has_prefix (trim_front ws s) w"
proof (induction ws s rule: trim_front.induct)
  case (1 ws s)
  show ?case
  proof (cases "find (\<lambda>w. w \<noteq> [] \<and> has_prefix s w) ws")
    case None
    with 1(2,3) have "\<not> has_prefix s w" by (auto simp: find_None_iff)
    with None show ?thesis by (simp add: trim_front.simps [of ws s])
  next
    case (Some v)
    with 1 show ?thesis by (simp add: trim_front.simps [of ws s])
  qed
qed

lemma trim_front_suffix: "\<exists>p. s = p @ trim_front ws s"
proof (induction ws s rule: trim_front.induct)
  case (1 ws s)
  show ?case
  proof (cases "find (\<lambda>w. w \<noteq> [] \<and> has_prefix s w) ws")
    case None
    then show ?thesis by (simp add: trim_front.simps [of ws s])
  next
    case (Some v)
    then obtain p where "drop (length v) s = p @ trim_front ws s"
      using 1 [OF Some] by (auto simp: trim_front.simps [of ws s])
    then show ?thesis by (metis append.assoc append_take_drop_id)
  qed
qed

lemma trim_front_idem: "trim_front ws (trim_front ws s) = trim_front ws s"
  by (rule trim_front_stop) (blast dest: trim_front_stopped)

text \<open>
  \<open>strings.EqualFold\<close>, exact whenever one side is ASCII: letters fold to lower case, and the two
  code points beyond ASCII that simple folding identifies with a letter, the long s (C5 BF) and
  the Kelvin sign (E2 84 AA), fold to that letter.
\<close>

definition lower_ascii :: "char \<Rightarrow> char" where
  "lower_ascii c = (let n = of_char c :: nat in if 65 \<le> n \<and> n \<le> 90 then char_of (n + 32) else c)"

fun fold_case :: "string \<Rightarrow> string" where
  "fold_case [] = []"
| "fold_case (a # s) =
     (case s of
        b # s' \<Rightarrow>
          if a = CHR 0xC5 \<and> b = CHR 0xBF then CHR ''s'' # fold_case s'
          else (case s' of
              c # s'' \<Rightarrow>
                if a = CHR 0xE2 \<and> b = CHR 0x84 \<and> c = CHR 0xAA then CHR ''k'' # fold_case s''
                else lower_ascii a # fold_case s
            | [] \<Rightarrow> lower_ascii a # fold_case s)
      | [] \<Rightarrow> [lower_ascii a])"

definition equal_fold :: "string \<Rightarrow> string \<Rightarrow> bool" where
  "equal_fold s t \<longleftrightarrow> fold_case s = fold_case t"

lemma equal_fold_refl [simp]: "equal_fold s s"
  by (simp add: equal_fold_def)

section \<open>Decimal numbers\<close>

definition digit_char :: "nat \<Rightarrow> char" where
  "digit_char d = char_of (48 + d)"

definition digit_val :: "char \<Rightarrow> nat option" where
  "digit_val c = (let n = of_char c :: nat in if 48 \<le> n \<and> n \<le> 57 then Some (n - 48) else None)"

fun show_nat :: "nat \<Rightarrow> string" where
  "show_nat n = (if n < 10 then [digit_char n] else show_nat (n div 10) @ [digit_char (n mod 10)])"

declare show_nat.simps [simp del]

definition show_int :: "int \<Rightarrow> string" where
  "show_int i = (if i < 0 then CHR ''-'' # show_nat (nat (- i)) else show_nat (nat i))"

fun read_digits :: "nat \<Rightarrow> string \<Rightarrow> nat option" where
  "read_digits a [] = Some a"
| "read_digits a (c # s) =
     (case digit_val c of None \<Rightarrow> None | Some d \<Rightarrow> read_digits (10 * a + d) s)"

text \<open>
  \<open>strconv.ParseInt(s, 10, 64)\<close>, and \<open>strconv.Atoi\<close>, which agrees with it where \<open>int\<close> has
  64 bits: an optional sign, at least one digit, nothing else, and a value in range.
\<close>

definition parse_int :: "string \<Rightarrow> int option" where
  "parse_int s =
     (let (neg, ds) = (case s of
          c # r \<Rightarrow> if c = CHR ''-'' then (True, r) else if c = CHR ''+'' then (False, r) else (False, s)
        | [] \<Rightarrow> (False, s))
      in if ds = [] then None
         else (case read_digits 0 ds of
             None \<Rightarrow> None
           | Some n \<Rightarrow>
               let i = (if neg then - int n else int n) in if in_i64 i then Some i else None))"

lemma of_char_digit: "d < 10 \<Longrightarrow> (of_char (digit_char d) :: nat) = 48 + d"
  by (simp add: digit_char_def)

lemma digit_val_char [simp]: "d < 10 \<Longrightarrow> digit_val (digit_char d) = Some d"
  by (simp add: digit_val_def of_char_digit Let_def)

lemma read_digits_append:
  "read_digits a (s @ t) = (case read_digits a s of None \<Rightarrow> None | Some b \<Rightarrow> read_digits b t)"
  by (induction a s rule: read_digits.induct) (auto split: option.splits)

lemma read_show_nat: "read_digits 0 (show_nat n) = Some n"
proof (induction n rule: show_nat.induct)
  case (1 n)
  then show ?case
    by (cases "n < 10") (simp_all add: show_nat.simps [of n] read_digits_append)
qed

lemma show_nat_nonempty [simp]: "show_nat n \<noteq> []"
  by (subst show_nat.simps) simp

lemma show_nat_digits: "c \<in> set (show_nat n) \<Longrightarrow> \<exists>d<10. c = digit_char d"
proof (induction n rule: show_nat.induct)
  case (1 n)
  then show ?case
    by (cases "n < 10") (auto simp: show_nat.simps [of n] intro: exI [of _ "n mod 10"])
qed

lemma digit_char_plain:
  assumes "d < 10"
  shows "digit_char d \<noteq> CHR '':''" "digit_char d \<noteq> CHR ''-''" "digit_char d \<noteq> CHR ''+''"
    "digit_char d \<noteq> CHR '',''" "digit_char d \<noteq> CHR ''='' " "digit_char d \<noteq> CHR ''/''"
proof -
  have "of_char (digit_char d) = 48 + d" using assms by (rule of_char_digit)
  then show "digit_char d \<noteq> CHR '':''" "digit_char d \<noteq> CHR ''-''" "digit_char d \<noteq> CHR ''+''"
    "digit_char d \<noteq> CHR '',''" "digit_char d \<noteq> CHR ''='' " "digit_char d \<noteq> CHR ''/''"
    using assms by auto
qed

lemma show_nat_plain:
  "CHR '':'' \<notin> set (show_nat n)" "CHR ''-'' \<notin> set (show_nat n)" "CHR ''+'' \<notin> set (show_nat n)"
  by (metis show_nat_digits digit_char_plain(1), metis show_nat_digits digit_char_plain(2),
      metis show_nat_digits digit_char_plain(3))

lemma show_int_no_colon: "CHR '':'' \<notin> set (show_int i)"
  by (simp add: show_int_def show_nat_plain)

lemma show_int_nonempty [simp]: "show_int i \<noteq> []"
  by (simp add: show_int_def)

lemma hd_show_nat: "show_nat n = c # r \<Longrightarrow> c \<noteq> CHR ''-'' \<and> c \<noteq> CHR ''+''"
  using show_nat_plain(2,3) [of n] by auto

lemma parse_show_int: "in_i64 i \<Longrightarrow> parse_int (show_int i) = Some i"
proof (cases "i < 0")
  case True
  assume "in_i64 i"
  with True show ?thesis by (simp add: show_int_def parse_int_def read_show_nat Let_def)
next
  case False
  assume i: "in_i64 i"
  obtain c r where cr: "show_nat (nat i) = c # r" by (cases "show_nat (nat i)") auto
  with hd_show_nat [OF cr] read_show_nat [of "nat i"] False i show ?thesis
    by (simp add: show_int_def parse_int_def Let_def)
qed

lemma parse_int_range: "parse_int s = Some i \<Longrightarrow> in_i64 i"
  by (auto simp: parse_int_def Let_def split: prod.splits option.splits if_splits)

interpretation decimal: codec in_i64 show_int parse_int
  by unfold_locales (rule parse_show_int)

end
