(* ===== verification/Http.thy ===== *)
theory Http
  imports Go_Strings
begin

text \<open>
  The parts of \<open>net/http\<close> and \<open>encoding/json\<close> the handlers use.  A JSON text is taken as the value
  it denotes, numbers as their literal; the syntax of JSON texts is the one part of
  \<open>encoding/json\<close> left out, so a request body is \<open>Some v\<close> when it begins with the text of \<open>v\<close> and
  \<open>None\<close> when it does not parse.  Decoding a value into a Go struct is modelled: fields are matched
  exactly or else up to case, unknown ones are skipped, \<open>null\<close> leaves a field alone, and a value of
  the wrong type is an error.  What \<open>ServeMux\<close> makes of the path of a request is modelled too.
\<close>

section \<open>JSON values\<close>

datatype json =
    JNull
  | JBool bool
  | JNum string
  | JStr string
  | JArr "json list"
  | JObj "(string \<times> json) list"

definition json_int :: "int \<Rightarrow> json" where
  "json_int n = JNum (show_int n)"

text \<open>\<open>omitempty\<close>: the field is left out when its value is empty.\<close>

definition omit_empty :: "bool \<Rightarrow> string \<Rightarrow> json \<Rightarrow> (string \<times> json) list" where
  "omit_empty blank k v = (if blank then [] else [(k, v)])"

definition json_string_map :: "(string, string) gomap \<Rightarrow> json" where
  "json_string_map m = JObj (map (\<lambda>(k, v). (k, JStr v)) m)"

section \<open>Decoding into Go values\<close>

text \<open>A decoder takes the value the field has now; \<open>Inl\<close> is a type error.\<close>

fun decode_string :: "json \<Rightarrow> string \<Rightarrow> unit + string" where
  "decode_string JNull old = Inr old"
| "decode_string (JStr s) old = Inr s"
| "decode_string _ old = Inl ()"

fun decode_int :: "json \<Rightarrow> int \<Rightarrow> unit + int" where
  "decode_int JNull old = Inr old"
| "decode_int (JNum l) old = (case parse_int l of Some n \<Rightarrow> Inr n | None \<Rightarrow> Inl ())"
| "decode_int _ old = Inl ()"

fun decode_bool :: "json \<Rightarrow> bool \<Rightarrow> unit + bool" where
  "decode_bool JNull old = Inr old"
| "decode_bool (JBool b) old = Inr b"
| "decode_bool _ old = Inl ()"

text \<open>The field of a struct that a key names: the exact name first, else the first up to case.\<close>

definition json_field :: "string list \<Rightarrow> string \<Rightarrow> string option" where
  "json_field names k =
     (if k \<in> set names then Some k else find (\<lambda>n. equal_fold n k) names)"

text \<open>
  Decoding an object: \<open>set_field\<close> stores one decoded field.  A type error does not stop the loop,
  but the decoder returns it at the end, and a caller that sees an error drops the value.
\<close>

fun decode_fields ::
  "string list \<Rightarrow> (string \<Rightarrow> json \<Rightarrow> 'a \<Rightarrow> unit + 'a) \<Rightarrow> (string \<times> json) list \<Rightarrow> 'a \<Rightarrow> unit + 'a" where
  "decode_fields names set_field [] x = Inr x"
| "decode_fields names set_field ((k, v) # kvs) x =
     (case json_field names k of
        None \<Rightarrow> decode_fields names set_field kvs x
      | Some n \<Rightarrow> bind_res (set_field n v x) (decode_fields names set_field kvs))"

fun decode_struct ::
  "string list \<Rightarrow> (string \<Rightarrow> json \<Rightarrow> 'a \<Rightarrow> unit + 'a) \<Rightarrow> json \<Rightarrow> 'a \<Rightarrow> unit + 'a" where
  "decode_struct names set_field JNull x = Inr x"
| "decode_struct names set_field (JObj kvs) x = decode_fields names set_field kvs x"
| "decode_struct names set_field _ x = Inl ()"

text \<open>\<open>json.NewDecoder(body).Decode(&x)\<close> with \<open>x\<close> zero before; \<open>None\<close> is any error.\<close>

definition decode_body :: "(json \<Rightarrow> 'a \<Rightarrow> unit + 'a) \<Rightarrow> 'a \<Rightarrow> json option \<Rightarrow> 'a option" where
  "decode_body dec zero body =
     (case body of None \<Rightarrow> None
      | Some v \<Rightarrow> (case dec v zero of Inl e \<Rightarrow> None | Inr x \<Rightarrow> Some x))"

lemma json_field_exact [simp]: "k \<in> set names \<Longrightarrow> json_field names k = Some k"
  by (simp add: json_field_def)

lemma json_field_in: "json_field names k = Some n \<Longrightarrow> n \<in> set names"
  by (auto simp: json_field_def find_Some_iff split: if_splits)

lemma decode_fields_exact:
  "k \<in> set names \<Longrightarrow> decode_fields names f ((k, v) # kvs) x = bind_res (f k v x) (decode_fields names f kvs)"
  by simp

section \<open>Requests and responses\<close>

record http_request =
  Method :: string
  Path :: string
  RequestHeader :: "(string, string) gomap"
  RemoteAddr :: string
  Body :: "json option"

datatype http_body = EmptyBody | JsonBody json | TextBody string

record http_response =
  Code :: int
  ResponseHeader :: "(string, string) gomap"
  Payload :: http_body

definition header_get :: "http_request \<Rightarrow> string \<Rightarrow> string" where
  "header_get r name = (case gm_get (RequestHeader r) name of None \<Rightarrow> [] | Some v \<Rightarrow> v)"

definition json_response :: "int \<Rightarrow> json \<Rightarrow> http_response" where
  "json_response code v =
     \<lparr>Code = code, ResponseHeader = [(''Content-Type'', ''application/json'')], Payload = JsonBody v\<rparr>"

definition status_only :: "int \<Rightarrow> http_response" where
  "status_only code = \<lparr>Code = code, ResponseHeader = [], Payload = EmptyBody\<rparr>"

text \<open>
  A handler answers one request in a state.  \<open>None\<close> instead of a response is a panic before
  anything was written.
\<close>

type_synonym 's handler = "http_request \<Rightarrow> 's \<Rightarrow> http_response option \<times> 's"

lemma json_response_code [simp]:
  "Code (json_response c v) = c" "Payload (json_response c v) = JsonBody v"
  "Code (status_only c) = c" "Payload (status_only c) = EmptyBody"
  by (simp_all add: json_response_def status_only_def)

section \<open>The target of a request\<close>

text \<open>
  The path of a request is its escaped form, as \<open>ServeMux\<close> takes it.  \<open>cleanPath\<close> resolves empty
  segments, dots and double dots and keeps a final slash.
\<close>

definition clean_segments :: "string list \<Rightarrow> string list" where
  "clean_segments =
     foldl (\<lambda>acc seg. if seg = [] \<or> seg = ''.'' then acc else if seg = ''..'' then butlast acc else acc @ [seg]) []"

definition clean_path :: "string \<Rightarrow> string" where
  "clean_path p =
     (if p = [] then ''/''
      else let np = CHR ''/'' # join_with ''/'' (clean_segments (split_all CHR ''/'' p))
           in if last p = CHR ''/'' \<and> np \<noteq> ''/'' then np @ ''/'' else np)"

definition hex_value :: "char \<Rightarrow> nat option" where
  "hex_value ch =
     (let n = of_char ch :: nat
      in if 48 \<le> n \<and> n \<le> 57 then Some (n - 48)
         else if 65 \<le> n \<and> n \<le> 70 then Some (n - 55)
         else if 97 \<le> n \<and> n \<le> 102 then Some (n - 87) else None)"

fun path_unescape :: "string \<Rightarrow> string" where
  "path_unescape (ch # a # b # s) =
     (case (hex_value a, hex_value b) of
        (Some x, Some y) \<Rightarrow> if ch = CHR ''%'' then char_of (16 * x + y) # path_unescape s else ch # path_unescape (a # b # s)
      | _ \<Rightarrow> ch # path_unescape (a # b # s))"
| "path_unescape s = s"

text \<open>
  What becomes of a request: \<open>*\<close> for a target is refused, a path that is not clean is redirected to
  its clean form, except for CONNECT, and otherwise the unescaped segments of the path are matched.
\<close>

datatype mux_verdict = BadTarget | RedirectTo string | Dispatch "string list"

definition mux_target :: "http_request \<Rightarrow> mux_verdict" where
  "mux_target r =
     (if Path r = ''*'' then BadTarget
      else if Method r \<noteq> ''CONNECT'' \<and> clean_path (Path r) \<noteq> Path r then RedirectTo (clean_path (Path r))
      else Dispatch (map path_unescape (split_all CHR ''/'' (drop 1 (Path r)))))"

text \<open>The paths of the routes are clean and have nothing to unescape.\<close>

lemma mux_routes:
  "Path r = ''/v1/credentials'' \<Longrightarrow> mux_target r = Dispatch [''v1'', ''credentials'']"
  "Path r = ''/v1/ice-report'' \<Longrightarrow> mux_target r = Dispatch [''v1'', ''ice-report'']"
  "Path r = ''/healthz'' \<Longrightarrow> mux_target r = Dispatch [''healthz'']"
  "Path r = ''/nope'' \<Longrightarrow> mux_target r = Dispatch [''nope'']"
proof -
  have c: "clean_path ''/v1/credentials'' = ''/v1/credentials''" "clean_path ''/v1/ice-report'' = ''/v1/ice-report''"
    "clean_path ''/healthz'' = ''/healthz''" "clean_path ''/nope'' = ''/nope''"
    by code_simp+
  have m: "map path_unescape (split_all CHR ''/'' ''v1/credentials'') = [''v1'', ''credentials'']"
    "map path_unescape (split_all CHR ''/'' ''v1/ice-report'') = [''v1'', ''ice-report'']"
    "map path_unescape (split_all CHR ''/'' ''healthz'') = [''healthz'']"
    "map path_unescape (split_all CHR ''/'' ''nope'') = [''nope'']"
    by code_simp+
  from c(1) m(1) show "Path r = ''/v1/credentials'' \<Longrightarrow> mux_target r = Dispatch [''v1'', ''credentials'']" by (simp add: mux_target_def)
  from c(2) m(2) show "Path r = ''/v1/ice-report'' \<Longrightarrow> mux_target r = Dispatch [''v1'', ''ice-report'']" by (simp add: mux_target_def)
  from c(3) m(3) show "Path r = ''/healthz'' \<Longrightarrow> mux_target r = Dispatch [''healthz'']" by (simp add: mux_target_def)
  from c(4) m(4) show "Path r = ''/nope'' \<Longrightarrow> mux_target r = Dispatch [''nope'']" by (simp add: mux_target_def)
qed

text \<open>A doubled slash, a percent escape, and a path that climbs.\<close>

lemma mux_examples:
  "clean_path ''//healthz'' = ''/healthz''" "clean_path ''/v1/../healthz/'' = ''/healthz/''" "path_unescape ''%68ealthz'' = ''healthz''"
  by code_simp+

end
