(* ===== verification/Ratelimit.thy ===== *)
theory Ratelimit
  imports Go_Float Http
begin

text \<open>
  The token-bucket limiter and its HTTP middleware (\<open>internal/ratelimit\<close>).  Tokens and rate are
  \<open>float64\<close>; the buckets are pointers that never leave the limiter, so the map holds the values.
  A call of \<open>Allow\<close> reads the clock up to five times; the readings are a record, named by what
  the code uses each for.
\<close>

section \<open>The limiter\<close>

record bucket =
  tokens :: float64
  lastCheck :: gotime

record limiter =
  buckets :: "(string, bucket) gomap"
  rate :: float64
  burst :: int
  cleanupInterval :: duration
  lastCleanup :: gotime

record allow_clock =
  at_due :: gotime
  at_mark :: gotime
  at_cutoff :: gotime
  at_elapsed :: gotime
  at_check :: gotime

type_synonym bucket_order = "(string \<times> bucket) list \<Rightarrow> (string \<times> bucket) list"

definition new_limiter :: "float64 \<Rightarrow> int \<Rightarrow> gotime \<Rightarrow> limiter" where
  "new_limiter r b now =
     \<lparr>buckets = [], rate = r, burst = b, cleanupInterval = 5 * minute, lastCleanup = now\<rparr>"

definition maybe_cleanup :: "bucket_order \<Rightarrow> allow_clock \<Rightarrow> limiter \<Rightarrow> limiter" where
  "maybe_cleanup ord c l =
     (if since (at_due c) (lastCleanup l) < cleanupInterval l then l
      else let l = l\<lparr>lastCleanup := at_mark c\<rparr>;
               cutoff = time_add (at_cutoff c) (dur_mul (-2) (cleanupInterval l))
           in l\<lparr>buckets := fold (\<lambda>(k, b) bs. if lastCheck b < cutoff then gm_del k bs else bs)
                  (ord (buckets l)) (buckets l)\<rparr>)"

definition refill :: "limiter \<Rightarrow> gotime \<Rightarrow> bucket \<Rightarrow> float64" where
  "refill l now b =
     (let elapsed = seconds (since now (lastCheck b));
          t = f64_add (tokens b) (f64_mul elapsed (rate l))
      in if f64_of_int (burst l) < t then f64_of_int (burst l) else t)"

text \<open>\<open>Allow\<close> after the cleanup: a key's first request always passes.\<close>

definition take_token :: "allow_clock \<Rightarrow> string \<Rightarrow> limiter \<Rightarrow> bool \<times> limiter" where
  "take_token c key l =
     (case gm_get (buckets l) key of
        None \<Rightarrow>
          (True, l\<lparr>buckets := gm_put key \<lparr>tokens = f64_sub (f64_of_int (burst l)) 1, lastCheck = at_elapsed c\<rparr>
             (buckets l)\<rparr>)
      | Some b \<Rightarrow>
          let t = refill l (at_elapsed c) b
          in if 1 \<le> t
             then (True, l\<lparr>buckets := gm_put key \<lparr>tokens = f64_sub t 1, lastCheck = at_check c\<rparr> (buckets l)\<rparr>)
             else (False, l\<lparr>buckets := gm_put key \<lparr>tokens = t, lastCheck = at_check c\<rparr> (buckets l)\<rparr>))"

definition allow :: "bucket_order \<Rightarrow> allow_clock \<Rightarrow> string \<Rightarrow> limiter \<Rightarrow> bool \<times> limiter" where
  "allow ord c key l = take_token c key (maybe_cleanup ord c l)"

definition reset_key :: "string \<Rightarrow> limiter \<Rightarrow> limiter" where
  "reset_key key l = l\<lparr>buckets := gm_del key (buckets l)\<rparr>"

definition limiter_size :: "limiter \<Rightarrow> nat" where
  "limiter_size l = gm_len (buckets l)"

section \<open>The middleware\<close>

text \<open>\<open>X-Forwarded-For\<close> is used whole, as the client sent it; else the address up to its last colon.\<close>

definition client_ip :: "http_request \<Rightarrow> string" where
  "client_ip r =
     (let fwd = header_get r ''X-Forwarded-For''
      in if fwd \<noteq> [] then fwd
         else let i = last_index CHR '':'' (RemoteAddr r)
              in if i < 0 then RemoteAddr r else take (nat i) (RemoteAddr r))"

definition too_many_requests :: http_response where
  "too_many_requests =
     \<lparr>Code = 429, ResponseHeader = [(''Retry-After'', ''1''), (''Content-Type'', ''application/json'')],
      Payload = TextBody ''{\"error\":\"rate limit exceeded\"}''\<rparr>"

text \<open>The state of the wrapped handler is the limiter and the state of the handler it wraps.\<close>

definition rate_limited :: "bucket_order \<Rightarrow> allow_clock \<Rightarrow> 's handler \<Rightarrow> (limiter \<times> 's) handler" where
  "rate_limited ord c nxt r = (\<lambda>(l, s).
     let (ok, l) = allow ord c (client_ip r) l
     in if \<not> ok then (Some too_many_requests, l, s)
        else let (resp, s) = nxt r s in (resp, l, s))"

section \<open>Laws\<close>

lemma fold_cleanup:
  "fold (\<lambda>(k, b) bs. if P b then gm_del k bs else bs) es m
     = filter (\<lambda>e. fst e \<notin> fst ` set (filter (\<lambda>e. P (snd e)) es)) m"
proof (induction es arbitrary: m)
  case (Cons e es)
  then show ?case by (cases e) (auto simp: gm_del_def intro!: filter_cong)
qed simp

lemma cleanup_frame [simp]:
  "rate (maybe_cleanup ord c l) = rate l" "burst (maybe_cleanup ord c l) = burst l"
  "cleanupInterval (maybe_cleanup ord c l) = cleanupInterval l"
  by (simp_all add: maybe_cleanup_def Let_def)

lemma cleanup_ok [wf_intros]: "gm_ok (buckets l) \<Longrightarrow> gm_ok (buckets (maybe_cleanup ord c l))"
  by (auto simp: maybe_cleanup_def Let_def fold_cleanup gm_ok_filter)

text \<open>Cleanup drops exactly the buckets that were last used before the cutoff.\<close>

lemma cleanup_get:
  assumes "gm_ok (buckets l)" "visits ord"
  shows "gm_get (buckets (maybe_cleanup ord c l)) k =
    (case gm_get (buckets l) k of None \<Rightarrow> None
     | Some b \<Rightarrow> if cleanupInterval l \<le> since (at_due c) (lastCleanup l)
          \<and> lastCheck b < time_add (at_cutoff c) (dur_mul (-2) (cleanupInterval l)) then None else Some b)"
proof -
  let ?P = "\<lambda>b. lastCheck b < time_add (at_cutoff c) (dur_mul (-2) (cleanupInterval l))"
  have "filter (\<lambda>e. fst e \<notin> fst ` set (filter (\<lambda>e. ?P (snd e)) (ord (buckets l)))) (buckets l)
      = filter (\<lambda>e. \<not> ?P (snd e)) (buckets l)"
    using assms by (intro filter_cong refl) (auto simp: visits_set gm_ok_def dest: eq_key_imp_eq_value)
  then show ?thesis
    using gm_get_filter [OF assms(1), of "\<lambda>e. \<not> ?P (snd e)" k]
    by (simp add: maybe_cleanup_def Let_def fold_cleanup split: option.split)
qed

lemma take_frame [simp]:
  "rate (snd (take_token c key l)) = rate l" "burst (snd (take_token c key l)) = burst l"
  "cleanupInterval (snd (take_token c key l)) = cleanupInterval l"
  "k \<noteq> key \<Longrightarrow> gm_get (buckets (snd (take_token c key l))) k = gm_get (buckets l) k"
  by (simp_all add: take_token_def Let_def split: option.split)

lemma take_ok [wf_intros]: "gm_ok (buckets l) \<Longrightarrow> gm_ok (buckets (snd (take_token c key l)))"
  by (simp add: take_token_def Let_def gm_ok_put split: option.split)

text \<open>With whole seconds and an integral rate the refill is exact, however long the pause.\<close>

lemma refill_whole:
  assumes "tokens b = of_int m" "0 \<le> m" "m \<le> burst l" "burst l \<le> 2 ^ 52"
    and "rate l = of_int r" "0 \<le> r"
    and "lastCheck b = k * second" "k \<le> e" "modern (k * second)" "modern (e * second)"
  shows "refill l (e * second) b = of_int (min (burst l) (m + (e - k) * r))"
proof -
  have "since (e * second) (k * second) = (e - k) * second"
    using assms(9,10) by (simp add: since_exact algebra_simps)
  moreover have "\<bar>e - k\<bar> \<le> 2 ^ 53"
    using assms(8-10) by (auto simp: modern_def second_def)
  ultimately have el: "seconds (since (e * second) (lastCheck b)) = of_int (e - k)"
    using assms(7) by (simp only: seconds_whole)
  let ?d = "(e - k) * r"
  have d0: "0 \<le> ?d" using assms by simp
  have b: "f64_of_int (burst l) = of_int (burst l)"
    using assms by (simp add: f64_of_int_def f64.rnd_int)
  show ?thesis
  proof (cases "?d \<le> 2 ^ 52")
    case True
    have "f64_mul (of_int (e - k)) (rate l) = of_int ?d"
      using True d0 f64.rnd_int [of ?d] by (simp add: f64_mul_def assms(5))
    moreover have "f64_add (tokens b) (of_int ?d) = of_int (m + ?d)"
      using True d0 assms(1-4) f64.rnd_int [of "m + ?d"] by (simp add: f64_add_def)
    ultimately have "refill l (e * second) b
        = (if of_int (burst l) < (of_int (m + ?d) :: rat) then of_int (burst l) else of_int (m + ?d))"
      unfolding refill_def Let_def el b by (simp only:)
    then show ?thesis by (simp only: of_int_less_iff min_def) auto
  next
    case False
    then have "of_int (2 ^ 52) \<le> f64_mul (of_int (e - k)) (rate l)"
      unfolding f64_mul_def assms(5) of_int_mult [symmetric]
      by (intro f64.rnd_ge_int) (simp_all only: of_int_le_iff, simp)
    then have "of_int (burst l) \<le> tokens b + f64_mul (of_int (e - k)) (rate l)"
      using assms(1-4) by (simp add: add_increasing order_trans [of _ "of_int (2 ^ 52)"])
    then have "of_int (burst l) \<le> f64_add (tokens b) (f64_mul (of_int (e - k)) (rate l))"
      unfolding f64_add_def using assms(2-4) by (intro f64.rnd_ge_int) auto
    then have "refill l (e * second) b = of_int (burst l)"
      unfolding refill_def Let_def el b by auto
    moreover have "burst l \<le> m + ?d" using False assms(2,4) by linarith
    ultimately show ?thesis by (simp only: min_absorb1)
  qed
qed

section \<open>Runs\<close>

datatype limiter_op = RAllow bucket_order allow_clock string | RReset string

fun limiter_step :: "limiter_op \<Rightarrow> limiter \<Rightarrow> limiter" where
  "limiter_step (RAllow ord c key) l = snd (allow ord c key l)"
| "limiter_step (RReset key) l = reset_key key l"

fun allowed :: "string \<Rightarrow> limiter_op list \<Rightarrow> limiter \<Rightarrow> int" where
  "allowed key [] l = 0"
| "allowed key (x # xs) l =
     (case x of RAllow ord c k \<Rightarrow> if k = key \<and> fst (allow ord c k l) then 1 else 0 | RReset k \<Rightarrow> 0)
     + allowed key xs (limiter_step x l)"

text \<open>
  A clock that ticks in whole seconds and does not go back: every reading of the run lies between
  second \<open>from\<close> and second \<open>upto\<close>, in the order the code makes them.
\<close>

definition ticks :: "int \<Rightarrow> int \<Rightarrow> allow_clock \<Rightarrow> bool" where
  "ticks a b c \<longleftrightarrow> (\<exists>q e k. at_cutoff c = q * second \<and> at_elapsed c = e * second \<and> at_check c = k * second
     \<and> a \<le> q \<and> q \<le> e \<and> e \<le> k \<and> k \<le> b)"

fun ticking :: "int \<Rightarrow> int \<Rightarrow> limiter_op list \<Rightarrow> bool" where
  "ticking a b [] = (a \<le> b)"
| "ticking a b (RAllow ord c key # xs) =
     (visits ord \<and> ticks a b c \<and> ticking (at_check c div second) b xs)"
| "ticking a b (RReset key # xs) = ticking a b xs"

text \<open>
  What the run relies on: the bucket of the key holds a whole number of tokens, at most the burst,
  and was last used at a whole second not in the future.
\<close>

definition whole_bucket :: "int \<Rightarrow> limiter \<Rightarrow> bucket \<Rightarrow> bool" where
  "whole_bucket now l b \<longleftrightarrow> (\<exists>m k. tokens b = of_int m \<and> lastCheck b = k * second \<and> 0 \<le> m \<and> m \<le> burst l
     \<and> 0 \<le> k \<and> k \<le> now)"

definition whole_limiter :: "int \<Rightarrow> string \<Rightarrow> limiter \<Rightarrow> bool" where
  "whole_limiter now key l \<longleftrightarrow> gm_ok (buckets l) \<and> 1 \<le> burst l \<and> burst l \<le> 2 ^ 52
     \<and> (\<exists>r. rate l = of_int r \<and> 0 \<le> r) \<and> cleanupInterval l = 5 * minute
     \<and> (case gm_get (buckets l) key of None \<Rightarrow> True | Some b \<Rightarrow> whole_bucket now l b)"

text \<open>
  What the key can still be allowed until second \<open>b\<close>: the tokens of its bucket and what the rate
  adds, or a full burst if the bucket was not used since second \<open>a\<close>.
\<close>

definition budget :: "int \<Rightarrow> int \<Rightarrow> string \<Rightarrow> limiter \<Rightarrow> rat" where
  "budget a b key l =
     (case gm_get (buckets l) key of
        None \<Rightarrow> of_int (burst l) + rate l * of_int (b - a)
      | Some bk \<Rightarrow> if a * second \<le> lastCheck bk
          then tokens bk + rate l * of_int (b - lastCheck bk div second)
          else of_int (burst l) + rate l * of_int (b - a))"

lemma second_pos [simp]: "0 < second" "second \<noteq> 0"
  by (simp_all add: second_def)

lemma second_div [simp]: "k * second div second = k"
  by (simp add: second_def)

lemma second_le [simp]: "j * second \<le> k * second \<longleftrightarrow> j \<le> k"
  by (simp add: second_def)

lemma modern_between: "modern (b * second) \<Longrightarrow> 0 \<le> j \<Longrightarrow> j \<le> b \<Longrightarrow> modern (j * second)"
  by (simp add: modern_def second_def)

lemma whole_bucketI:
  "tokens b = of_int m \<Longrightarrow> lastCheck b = k * second \<Longrightarrow> 0 \<le> m \<Longrightarrow> m \<le> burst l \<Longrightarrow> 0 \<le> k \<Longrightarrow> k \<le> now
   \<Longrightarrow> whole_bucket now l b"
  by (auto simp: whole_bucket_def)

lemma whole_bucket_cong [simp]:
  "whole_bucket now (snd (take_token c k l)) = whole_bucket now l" "whole_bucket now (maybe_cleanup ord c l) = whole_bucket now l"
  "whole_bucket now (l\<lparr>buckets := bs\<rparr>) = whole_bucket now l"
  by (simp_all add: whole_bucket_def fun_eq_iff)

lemma whole_limiter_mono: "whole_limiter now key l \<Longrightarrow> now \<le> now' \<Longrightarrow> whole_limiter now' key l"
  by (force simp: whole_limiter_def whole_bucket_def split: option.splits)

lemma whole_cleanup:
  assumes "whole_limiter now key l" "visits ord" "ticks a b c"
  shows "whole_limiter now key (maybe_cleanup ord c l)"
    and "b - a' < 600 \<Longrightarrow> budget a' b key (maybe_cleanup ord c l) = budget a' b key l"
proof -
  let ?l = "maybe_cleanup ord c l"
  obtain q e k where c: "at_cutoff c = q * second" "a \<le> q" "q \<le> e" "e \<le> k" "k \<le> b"
    using assms(3) by (auto simp: ticks_def)
  have l: "gm_ok (buckets l)" "cleanupInterval l = 5 * minute"
    using assms(1) by (auto simp: whole_limiter_def)
  have clean: "gm_get (buckets ?l) key = gm_get (buckets l) key
      \<or> gm_get (buckets ?l) key = None \<and> (\<exists>bk. gm_get (buckets l) key = Some bk \<and> lastCheck bk < (q - 600) * second)"
    using cleanup_get [OF l(1) assms(2), of c key] l(2) c(1)
    by (auto simp: dur_mul_def wrap64_def time_add_def dur_units split: option.splits)
  with assms(1) l show "whole_limiter now key ?l"
    by (auto simp: whole_limiter_def cleanup_ok whole_bucket_def split: option.splits)
  assume "b - a' < 600"
  with c have "(q - 600) * second \<le> a' * second" by (simp add: second_def)
  then have "\<not> a' * second \<le> lastCheck bk" if "lastCheck bk < (q - 600) * second" for bk :: bucket
    using that by linarith
  with clean show "budget a' b key ?l = budget a' b key l"
    by (auto simp: budget_def split: option.split)
qed

text \<open>One request: the bucket stays whole, and a granted one costs a unit of the budget.\<close>

lemma whole_minus_one: "1 \<le> m \<Longrightarrow> m \<le> 2 ^ 52 \<Longrightarrow> f64_sub (of_int m) 1 = of_int (m - 1)"
  using f64.rnd_int [of "m - 1"] by (simp add: f64_sub_def)

lemma rate_passes:
  fixes r :: int
  assumes "0 \<le> r" "j \<le> e" "e \<le> k" "k \<le> b"
  shows "r * (b - k) + r * (e - j) \<le> r * (b - j)" "a \<le> j \<Longrightarrow> r * (b - k) \<le> r * (b - a)"
    "a \<le> j \<Longrightarrow> r * (b - e) \<le> r * (b - a)"
proof -
  show "r * (b - k) + r * (e - j) \<le> r * (b - j)"
    using assms mult_left_mono [of "(b - k) + (e - j)" "b - j" r] by (simp add: algebra_simps)
  show "a \<le> j \<Longrightarrow> r * (b - k) \<le> r * (b - a)" "a \<le> j \<Longrightarrow> r * (b - e) \<le> r * (b - a)"
    using assms by (simp_all add: mult_left_mono)
qed

lemma whole_take:
  assumes w: "whole_limiter now key l" and t: "ticks now b c" and b: "modern (b * second)" "0 \<le> now"
  shows "whole_limiter (at_check c div second) key (snd (take_token c key l))"
    and "a \<le> now \<Longrightarrow>
      (if fst (take_token c key l) then 1 else 0) + budget a b key (snd (take_token c key l)) \<le> budget a b key l"
proof -
  obtain q e k where c: "at_elapsed c = e * second" "at_check c = k * second" "now \<le> q" "q \<le> e" "e \<le> k" "k \<le> b"
    using t by (auto simp: ticks_def)
  obtain r where r: "rate l = of_int r" "0 \<le> r" and l: "gm_ok (buckets l)" "1 \<le> burst l" "burst l \<le> 2 ^ 52"
    "cleanupInterval l = 5 * minute"
    using w by (auto simp: whole_limiter_def)
  have sub1: "f64_sub (of_int m) 1 = of_int (m - 1)" if "1 \<le> m" "m \<le> burst l" for m
    using that l by (intro whole_minus_one) simp_all
  have fb: "f64_of_int (burst l) = of_int (burst l)"
    using l by (simp add: f64_of_int_def f64.rnd_int)
  note pass = rate_passes [OF r(2) _ c(5,6)]
  have "whole_limiter k key (snd (take_token c key l)) \<and> (a \<le> now \<longrightarrow>
      (if fst (take_token c key l) then 1 else 0) + budget a b key (snd (take_token c key l)) \<le> budget a b key l)"
  proof (cases "gm_get (buckets l) key")
    case None
    then have take: "take_token c key l =
        (True, l\<lparr>buckets := gm_put key \<lparr>tokens = of_int (burst l - 1), lastCheck = e * second\<rparr> (buckets l)\<rparr>)"
      using l sub1 [of "burst l"] by (simp add: take_token_def fb c(1))
    have "of_int (burst l + r * (b - e)) \<le> (of_int (burst l + r * (b - a)) :: rat)" if "a \<le> now"
      using pass(3) [of now a] that c(3,4) by (simp only: of_int_le_iff add_le_cancel_left)
    moreover have "whole_bucket k l \<lparr>tokens = of_int (burst l - 1), lastCheck = e * second\<rparr>"
      using c l \<open>0 \<le> now\<close> by (intro whole_bucketI [of _ "burst l - 1" e]) auto
    ultimately show ?thesis
      using w None c l r by (auto simp: whole_limiter_def take budget_def gm_ok_put)
  next
    case (Some bk)
    obtain m j where bk: "tokens bk = of_int m" "lastCheck bk = j * second" "0 \<le> m" "m \<le> burst l" "0 \<le> j" "j \<le> now"
      using w Some by (auto simp: whole_limiter_def whole_bucket_def)
    define n where "n = min (burst l) (m + (e - j) * r)"
    have ref: "refill l (e * second) bk = of_int n"
      unfolding n_def using bk c l r b by (intro refill_whole) (auto intro: modern_between [OF b(1)])
    have n: "0 \<le> n" "n \<le> burst l" "n \<le> m + r * (e - j)"
      using bk c r l by (auto simp: n_def mult.commute)
    let ?n = "if 1 \<le> n then n - 1 else n"
    have take: "take_token c key l =
        (1 \<le> n, l\<lparr>buckets := gm_put key \<lparr>tokens = of_int ?n, lastCheck = k * second\<rparr> (buckets l)\<rparr>)"
      using Some n sub1 [of n] by (simp add: take_token_def Let_def c(1,2) ref)
    have "of_int (n + r * (b - k)) \<le> (of_int (burst l + r * (b - a)) :: rat)"
      "of_int (n + r * (b - k)) \<le> (of_int (m + r * (b - j)) :: rat)" if "a \<le> now"
      using pass(2) [of now a] pass(1) [of j] that c(3,4) n bk by (simp_all only: of_int_le_iff) simp_all
    moreover have "whole_bucket k l \<lparr>tokens = of_int ?n, lastCheck = k * second\<rparr>"
      using c n \<open>0 \<le> now\<close> by (intro whole_bucketI [of _ ?n k]) auto
    ultimately show ?thesis
      using w Some c l r n bk by (auto simp: whole_limiter_def take budget_def gm_ok_put)
  qed
  then show "whole_limiter (at_check c div second) key (snd (take_token c key l))"
    and "a \<le> now \<Longrightarrow>
      (if fst (take_token c key l) then 1 else 0) + budget a b key (snd (take_token c key l)) \<le> budget a b key l"
    by (simp_all add: c(2))
qed

lemma budget_nonneg:
  assumes "whole_limiter now key l" "now \<le> b" "a \<le> b"
  shows "0 \<le> budget a b key l"
proof -
  obtain r where "rate l = of_int r" "0 \<le> r" "1 \<le> burst l"
    using assms(1) by (auto simp: whole_limiter_def)
  with assms show ?thesis
    by (auto simp: budget_def whole_limiter_def whole_bucket_def split: option.split)
qed

lemma ticking_le: "ticking a b xs \<Longrightarrow> a \<le> b"
proof (induction a b xs rule: ticking.induct)
  case (2 a b ord c key xs)
  then show ?case by (auto simp: ticks_def)
qed simp_all

text \<open>A run of requests and resets of any keys.\<close>

lemma whole_step_other:
  assumes w: "whole_limiter now key l" and t: "ticking now b (x # xs)" and b: "modern (b * second)" "0 \<le> now"
  shows "\<exists>now'. now \<le> now' \<and> ticking now' b xs \<and> whole_limiter now' key (limiter_step x l)
    \<and> (x \<noteq> RReset key \<longrightarrow> a \<le> now \<longrightarrow> b - a < 600 \<longrightarrow>
        (case x of RAllow ord c k \<Rightarrow> if k = key \<and> fst (allow ord c k l) then 1 else 0 | RReset k \<Rightarrow> 0)
        + budget a b key (limiter_step x l) \<le> budget a b key l)"
proof (cases x)
  case (RReset k)
  with w t show ?thesis
    by (intro exI [of _ now])
      (auto simp: reset_key_def whole_limiter_def whole_bucket_def budget_def gm_ok_del split: option.split)
next
  case (RAllow ord c k)
  with t have o: "visits ord" and c: "ticks now b c" and xs: "ticking (at_check c div second) b xs" by auto
  have le: "now \<le> at_check c div second" using c by (auto simp: ticks_def)
  note w' = whole_cleanup(1) [OF w o c] and bud = whole_cleanup(2) [OF w o c, of a]
  show ?thesis
  proof (cases "k = key")
    case True
    with whole_take(1) [OF w' c b] whole_take(2) [OF w' c b, of a] bud le xs RAllow show ?thesis
      by (intro exI [of _ "at_check c div second"]) (auto simp: allow_def)
  next
    case False
    then have "whole_limiter now key (snd (allow ord c k l))"
      using w' by (auto simp: allow_def whole_limiter_def take_ok split: option.splits)
    moreover have "budget a b key (snd (allow ord c k l)) = budget a b key (maybe_cleanup ord c l)"
      using False by (simp add: allow_def budget_def split: option.split)
    ultimately show ?thesis
      using bud le xs RAllow False
      by (intro exI [of _ "at_check c div second"]) (auto intro: whole_limiter_mono)
  qed
qed

lemma run_budget:
  assumes "whole_limiter now key l" "ticking now b xs" "modern (b * second)" "0 \<le> now" "a \<le> now" "b - a < 600"
    and "RReset key \<notin> set xs"
  shows "of_int (allowed key xs l) \<le> budget a b key l"
  using assms
proof (induction xs arbitrary: now l)
  case Nil
  then show ?case by (simp add: budget_nonneg)
next
  case (Cons x xs)
  from whole_step_other [OF Cons.prems(1-4), of a] Cons.prems(5-7) obtain now' where n:
    "now \<le> now'" "ticking now' b xs" "whole_limiter now' key (limiter_step x l)"
    "(case x of RAllow ord c k \<Rightarrow> if k = key \<and> fst (allow ord c k l) then 1 else 0 | RReset k \<Rightarrow> 0)
        + budget a b key (limiter_step x l) \<le> budget a b key l" by auto
  have "of_int (allowed key xs (limiter_step x l)) \<le> budget a b key (limiter_step x l)"
    using Cons.prems n by (intro Cons.IH [OF n(3,2)]) auto
  with n(4) show ?case by (cases x) (auto split: if_splits)
qed

lemma run_whole:
  "whole_limiter now key l \<Longrightarrow> ticking now b xs \<Longrightarrow> modern (b * second) \<Longrightarrow> 0 \<le> now \<Longrightarrow>
   whole_limiter b key (fold limiter_step xs l)"
proof (induction xs arbitrary: now l)
  case Nil
  then show ?case by (auto intro: whole_limiter_mono)
next
  case (Cons x xs)
  from whole_step_other [OF Cons.prems, of 0] obtain now' where
    "now \<le> now'" "ticking now' b xs" "whole_limiter now' key (limiter_step x l)" by auto
  with Cons.IH [of now' "limiter_step x l"] Cons.prems show ?case by simp
qed

section \<open>Requests at one instant\<close>

fun verdicts :: "bucket_order \<Rightarrow> allow_clock \<Rightarrow> string \<Rightarrow> nat \<Rightarrow> limiter \<Rightarrow> bool list" where
  "verdicts ord c key 0 l = []"
| "verdicts ord c key (Suc n) l = (let (ok, l) = allow ord c key l in ok # verdicts ord c key n l)"

definition frozen :: "gotime \<Rightarrow> allow_clock" where
  "frozen t = \<lparr>at_due = t, at_mark = t, at_cutoff = t, at_elapsed = t, at_check = t\<rparr>"

lemma frozen_readings [simp]:
  "at_due (frozen t) = t" "at_mark (frozen t) = t" "at_cutoff (frozen t) = t" "at_elapsed (frozen t) = t"
  "at_check (frozen t) = t"
  by (simp_all add: frozen_def)

lemma upt_shift: "map P [0..<Suc n] = P 0 # map (\<lambda>i. P (Suc i)) [0..<n]"
  by (simp add: upt_conv_Cons map_Suc_upt [symmetric] comp_def del: upt_Suc map_Suc_upt)

lemma frozen_cleanup:
  assumes "gm_ok (buckets l)" "visits ord" "0 \<le> cleanupInterval l" "cleanupInterval l \<le> 2 ^ 61"
    and "gm_get (buckets l) key = Some b" "lastCheck b = t"
  shows "gm_get (buckets (maybe_cleanup ord (frozen t) l)) key = Some b"
  using assms cleanup_get [OF assms(1,2), of "frozen t" key]
  by (simp add: time_add_def dur_mul_def wrap64_id in_i64_iff)

lemma frozen_refill:
  "tokens b = of_int m \<Longrightarrow> m \<le> burst l \<Longrightarrow> \<bar>burst l\<bar> \<le> 2 ^ 52 \<Longrightarrow> \<bar>m\<bar> \<le> 2 ^ 53 \<Longrightarrow> lastCheck b = t \<Longrightarrow>
   refill l t b = of_int m"
proof -
  assume a: "tokens b = of_int m" "m \<le> burst l" "\<bar>burst l\<bar> \<le> 2 ^ 52" "\<bar>m\<bar> \<le> 2 ^ 53" "lastCheck b = t"
  have "seconds (since t t) = 0" using seconds_whole [of 0] by (simp add: since_def sat64_def min_i64_def max_i64_def)
  moreover have "f64_of_int (burst l) = of_int (burst l)" using a by (simp add: f64_of_int_def f64.rnd_int)
  moreover have "f64_add (of_int m) (f64_mul 0 (rate l)) = of_int m"
    using a by (simp add: f64_add_def f64_mul_def f64.rnd_0 f64.rnd_int)
  ultimately show ?thesis using a by (simp add: refill_def Let_def)
qed

lemma frozen_verdicts:
  assumes "visits ord" "0 \<le> cleanupInterval l" "cleanupInterval l \<le> 2 ^ 61" "\<bar>burst l\<bar> \<le> 2 ^ 52"
    and "gm_ok (buckets l)" "gm_get (buckets l) key = Some b" "lastCheck b = t"
    and "tokens b = of_int m" "m \<le> burst l" "\<bar>m\<bar> \<le> 2 ^ 53"
  shows "verdicts ord (frozen t) key n l = map (\<lambda>i. int i < m) [0..<n]"
  using assms(2-)
proof (induction n arbitrary: l b m)
  case (Suc n)
  let ?l = "maybe_cleanup ord (frozen t) l"
  have get: "gm_get (buckets ?l) key = Some b"
    using Suc.prems by (intro frozen_cleanup assms(1)) auto
  have ref: "refill ?l t b = of_int m"
    using Suc.prems by (intro frozen_refill) auto
  have ok: "gm_ok (buckets ?l)" using Suc.prems by (simp add: cleanup_ok)
  show ?case
  proof (cases "1 \<le> m")
    case True
    let ?b = "\<lparr>tokens = of_int (m - 1), lastCheck = t\<rparr>"
    have "f64_sub (of_int m) 1 = of_int (m - 1)"
      using True Suc.prems f64.rnd_int [of "m - 1"] by (simp add: f64_sub_def)
    then have "allow ord (frozen t) key l = (True, ?l\<lparr>buckets := gm_put key ?b (buckets ?l)\<rparr>)"
      using True by (simp add: allow_def take_token_def get ref Let_def)
    moreover have "verdicts ord (frozen t) key n (?l\<lparr>buckets := gm_put key ?b (buckets ?l)\<rparr>)
        = map (\<lambda>i. int i < m - 1) [0..<n]"
      using Suc.prems True ok by (intro Suc.IH [of _ ?b]) (auto simp: gm_ok_put)
    ultimately show ?thesis
      using True by (simp only: verdicts.simps Let_def prod.case upt_shift) (auto simp: less_diff_eq add.commute)
  next
    case False
    let ?b = "\<lparr>tokens = of_int m, lastCheck = t\<rparr>"
    have "allow ord (frozen t) key l = (False, ?l\<lparr>buckets := gm_put key ?b (buckets ?l)\<rparr>)"
      using False by (simp add: allow_def take_token_def get ref Let_def)
    moreover have "verdicts ord (frozen t) key n (?l\<lparr>buckets := gm_put key ?b (buckets ?l)\<rparr>)
        = map (\<lambda>i. int i < m) [0..<n]"
      using Suc.prems False ok by (intro Suc.IH [of _ ?b]) (auto simp: gm_ok_put)
    ultimately show ?thesis
      using False by (simp only: verdicts.simps Let_def prod.case upt_shift) auto
  qed
qed simp

lemma allow_unknown:
  assumes "gm_ok (buckets l)" "visits ord" "gm_get (buckets l) key = None"
  shows "allow ord c key l = (True, (maybe_cleanup ord c l)\<lparr>buckets :=
      gm_put key \<lparr>tokens = f64_sub (f64_of_int (burst l)) 1, lastCheck = at_elapsed c\<rparr> (buckets (maybe_cleanup ord c l))\<rparr>)"
  using cleanup_get [OF assms(1,2), of c key] assms(3) by (simp add: allow_def take_token_def)

section \<open>Properties\<close>

text \<open>
  C5: within any span shorter than ten minutes a key is allowed at most a burst and what the rate
  adds over the span, whatever other keys do and however often the limiter cleans up.
  (Whole seconds and an integral rate, so that \<open>float64\<close> is exact; ten minutes is the idle time
  after which a bucket is dropped, and its key starts with a full burst again.)
\<close>

theorem rate_bound:
  assumes "1 \<le> n" "n \<le> 2 ^ 52" "0 \<le> r"
    and "ticking t a before" "ticking a b ops" "0 \<le> t" "modern (b * second)" "b - a < 600"
    and "RReset key \<notin> set ops"
    and "l = fold limiter_step before (new_limiter (of_int r) n now)"
  shows "allowed key ops l \<le> n + r * (b - a)"
proof -
  have "whole_limiter t key (new_limiter (of_int r) n now)"
    using assms(1-3) by (auto simp: new_limiter_def whole_limiter_def)
  moreover have "0 \<le> a" "a \<le> b" using assms(4,5,6) by (auto dest: ticking_le)
  ultimately have w: "whole_limiter a key l"
    using assms(4,6,7,10) by (simp add: run_whole modern_between)
  have f: "rate l = of_int r" "burst l = n"
  proof -
    have "rate (fold limiter_step xs m) = rate m \<and> burst (fold limiter_step xs m) = burst m" for xs m
    proof (induction xs arbitrary: m)
      case (Cons x xs)
      then show ?case by (cases x) (simp_all add: allow_def reset_key_def)
    qed simp
    then show "rate l = of_int r" "burst l = n" by (simp_all add: assms(10) new_limiter_def)
  qed
  have "budget a b key l \<le> of_int (n + r * (b - a))"
    using w f assms(3) \<open>a \<le> b\<close>
    by (auto simp: budget_def whole_limiter_def whole_bucket_def split: option.split)
  with run_budget [OF w assms(5,7) \<open>0 \<le> a\<close> order_refl assms(8,9)]
  have "(of_int (allowed key ops l) :: rat) \<le> of_int (n + r * (b - a))" by (rule order_trans)
  then show ?thesis by (simp only: of_int_le_iff)
qed

definition at_second :: "int \<Rightarrow> allow_clock" where
  "at_second k = \<lparr>at_due = k * second, at_mark = k * second, at_cutoff = k * second,
                 at_elapsed = k * second, at_check = k * second\<rparr>"

theorem rate_bound_witness:
  "allowed ''10.0.0.1'' (map (RAllow rev (at_second 1000)) [''10.0.0.1'', ''10.0.0.1'', ''10.0.0.1''])
     (fold limiter_step [RAllow rev (at_second 990) ''10.0.0.1''] (new_limiter (of_int 1) 2 0)) \<le> 2"
proof -
  have t: "ticks 1000 1000 (at_second 1000)" "ticks 990 1000 (at_second 990)" "at_check (at_second k) div second = k" for k
    by (auto simp: ticks_def at_second_def)
  then show ?thesis
    using rate_bound [of 2 1 990 1000 "[RAllow rev (at_second 990) ''10.0.0.1'']" 1000
      "map (RAllow rev (at_second 1000)) [''10.0.0.1'', ''10.0.0.1'', ''10.0.0.1'']" "''10.0.0.1''" _ 0, OF _ _ _ _ _ _ _ _ _ refl]
    by (simp add: modern_def second_def)
qed

text \<open>
  Of any number of requests of a new key at one instant exactly the first \<open>burst\<close> pass, one
  when the burst is zero or negative, where a limiter that allows nothing was asked for.
\<close>

lemma burst_exact:
  assumes "visits ord" "gm_ok (buckets l)" "gm_get (buckets l) key = None"
    and "0 \<le> cleanupInterval l" "cleanupInterval l \<le> 2 ^ 61" "\<bar>burst l\<bar> \<le> 2 ^ 52"
  shows "verdicts ord (frozen t) key n l = map (\<lambda>i. int i < max 1 (burst l)) [0..<n]"
proof (cases n)
  case (Suc k)
  let ?b = "\<lparr>tokens = of_int (burst l - 1), lastCheck = t\<rparr>"
  let ?l = "maybe_cleanup ord (frozen t) l"
  have "f64_sub (f64_of_int (burst l)) 1 = of_int (burst l - 1)"
    using assms(6) f64.rnd_int [of "burst l - 1"] by (simp add: f64_sub_def f64_of_int_def f64.rnd_int)
  then have "allow ord (frozen t) key l = (True, ?l\<lparr>buckets := gm_put key ?b (buckets ?l)\<rparr>)"
    using allow_unknown [OF assms(2,1,3), of "frozen t"] by simp
  moreover have "verdicts ord (frozen t) key k (?l\<lparr>buckets := gm_put key ?b (buckets ?l)\<rparr>)
      = map (\<lambda>i. int i < burst l - 1) [0..<k]"
    using assms by (intro frozen_verdicts [of _ _ _ ?b]) (auto simp: gm_ok_put cleanup_ok)
  ultimately show ?thesis
    by (simp only: Suc verdicts.simps Let_def prod.case upt_shift) auto
qed simp

lemma burst_exact_witness:
  "verdicts rev (frozen 5000) ''k'' 3 (new_limiter (1 / 10) 2 5000) = [True, True, False]"
  using burst_exact [of rev "new_limiter (1 / 10) 2 5000" "''k''" 5000 3]
  by (simp add: new_limiter_def dur_units numeral_3_eq_3)

text \<open>
  The key of a request is its \<open>X-Forwarded-For\<close> header as sent, so a request whose header value
  was not used before always reaches the handler, whatever the limiter has refused to the same
  peer.
\<close>

lemma forwarded_for_bypasses:
  assumes "visits ord" "gm_ok (buckets l)" "header_get req ''X-Forwarded-For'' = v" "v \<noteq> []"
    and "gm_get (buckets l) v = None"
  shows "fst (rate_limited ord c nxt req (l, s)) = fst (nxt req s)
    \<and> snd (snd (rate_limited ord c nxt req (l, s))) = snd (nxt req s)"
  using allow_unknown [OF assms(2,1,5), of c] assms(3,4)
  by (simp add: rate_limited_def client_ip_def Let_def split: prod.split)

definition sample_get :: "string \<Rightarrow> http_request" where
  "sample_get fwd = \<lparr>Method = ''GET'', Path = ''/'', RequestHeader = [(''X-Forwarded-For'', fwd)],
     RemoteAddr = ''10.0.0.9:51000'', Body = None\<rparr>"

lemma forwarded_for_bypasses_witness:
  "fst (rate_limited rev (frozen 7) (\<lambda>r n. (Some (status_only 200), n + 1)) (sample_get ''b'')
     (snd (allow rev (frozen 7) ''a'' (new_limiter 1 1 7)), 0 :: nat)) = Some (status_only 200)"
proof -
  have "gm_get (buckets (new_limiter 1 1 7)) ''a'' = None" "gm_ok (buckets (new_limiter 1 1 7))"
    by (simp_all add: new_limiter_def)
  from allow_unknown [OF this(2) visits_rev this(1), of "frozen 7"]
  have "gm_ok (buckets (snd (allow rev (frozen 7) ''a'' (new_limiter 1 1 7))))"
    "gm_get (buckets (snd (allow rev (frozen 7) ''a'' (new_limiter 1 1 7)))) ''b'' = None"
    by (simp_all add: maybe_cleanup_def new_limiter_def since_def sat64_def min_i64_def max_i64_def
        dur_units gm_ok_def gm_get_def)
  then show ?thesis
    using forwarded_for_bypasses [OF visits_rev, of "snd (allow rev (frozen 7) ''a'' (new_limiter 1 1 7))"
        "sample_get ''b''" "''b''" "frozen 7" "\<lambda>r n. (Some (status_only 200), n + 1)" "0 :: nat"]
    by (simp add: sample_get_def header_get_def gm_get_def)
qed

end
