(* ===== verification/Config.thy ===== *)
theory Config
  imports Go_Strings
begin

text \<open>
  Configuration (\<open>internal/config\<close>): the defaults, loading from the environment, validation.
  The environment is a function, empty for a variable that is not set, as \<open>os.Getenv\<close> has it.
  Validation returns the list of its errors, which \<open>errors.Join\<close> makes one error of, none when
  the list is empty.
\<close>

record config =
  TURNPort :: int
  TURNRealm :: string
  TURNSharedSecret :: string
  HTTPPort :: int
  AdminAPIToken :: string
  MetricsAddr :: string
  FlyAppName :: string
  FlyOrg :: string
  FlyAPIToken :: string
  RelayMode :: bool
  RelayPeers :: "string list"
  LogLevel :: string

definition DefaultConfig :: config where
  "DefaultConfig =
     \<lparr>TURNPort = 3478, TURNRealm = [], TURNSharedSecret = [], HTTPPort = 8080, AdminAPIToken = [],
      MetricsAddr = '':9090'', FlyAppName = [], FlyOrg = [], FlyAPIToken = [], RelayMode = False,
      RelayPeers = [], LogLevel = ''info''\<rparr>"

type_synonym env = "string \<Rightarrow> string"

text \<open>A variable that is set is stored; a port that is not a number is ignored.\<close>

definition load_string :: "env \<Rightarrow> string \<Rightarrow> (string \<Rightarrow> config \<Rightarrow> config) \<Rightarrow> config \<Rightarrow> config" where
  "load_string env name set_field c = (if env name \<noteq> [] then set_field (env name) c else c)"

definition load_int :: "env \<Rightarrow> string \<Rightarrow> (int \<Rightarrow> config \<Rightarrow> config) \<Rightarrow> config \<Rightarrow> config" where
  "load_int env name set_field =
     load_string env name (\<lambda>v c. case parse_int v of Some p \<Rightarrow> set_field p c | None \<Rightarrow> c)"

definition load_from_env :: "env \<Rightarrow> config \<Rightarrow> config" where
  "load_from_env env c =
     (let c = load_int env ''TURN_PORT'' (\<lambda>p c. c\<lparr>TURNPort := p\<rparr>) c;
          c = load_string env ''TURN_REALM'' (\<lambda>v c. c\<lparr>TURNRealm := v\<rparr>) c;
          c = load_string env ''TURN_SHARED_SECRET'' (\<lambda>v c. c\<lparr>TURNSharedSecret := v\<rparr>) c;
          c = load_int env ''HTTP_PORT'' (\<lambda>p c. c\<lparr>HTTPPort := p\<rparr>) c;
          c = load_string env ''ADMIN_API_TOKEN'' (\<lambda>v c. c\<lparr>AdminAPIToken := v\<rparr>) c;
          c = load_string env ''METRICS_ADDR'' (\<lambda>v c. c\<lparr>MetricsAddr := v\<rparr>) c;
          c = load_string env ''FLY_APP_NAME'' (\<lambda>v c. c\<lparr>FlyAppName := v\<rparr>) c;
          c = load_string env ''FLY_ORG'' (\<lambda>v c. c\<lparr>FlyOrg := v\<rparr>) c;
          c = load_string env ''FLY_API_TOKEN'' (\<lambda>v c. c\<lparr>FlyAPIToken := v\<rparr>) c;
          c = load_string env ''RELAY_MODE'' (\<lambda>v c. c\<lparr>RelayMode := (equal_fold v ''true'' \<or> v = ''1'')\<rparr>) c;
          c = load_string env ''RELAY_PEERS'' (\<lambda>v c. c\<lparr>RelayPeers := split_all CHR '','' v\<rparr>) c
      in load_string env ''LOG_LEVEL'' (\<lambda>v c. c\<lparr>LogLevel := v\<rparr>) c)"

datatype config_error =
    RealmRequired
  | SecretRequired
  | TokenRequired
  | TURNPortRange int
  | HTTPPortRange int
  | LogLevelInvalid string
  | PortsEqual int

definition config_validate :: "config \<Rightarrow> config_error list" where
  "config_validate c =
     (if TURNRealm c = [] then [RealmRequired] else [])
     @ (if TURNSharedSecret c = [] then [SecretRequired] else [])
     @ (if AdminAPIToken c = [] then [TokenRequired] else [])
     @ (if TURNPort c < 1 \<or> TURNPort c > 65535 then [TURNPortRange (TURNPort c)] else [])
     @ (if HTTPPort c < 1 \<or> HTTPPort c > 65535 then [HTTPPortRange (HTTPPort c)] else [])
     @ (if LogLevel c \<notin> {''debug'', ''info'', ''warn'', ''error''} then [LogLevelInvalid (LogLevel c)] else [])
     @ (if TURNPort c = HTTPPort c then [PortsEqual (TURNPort c)] else [])"

lemma load_string_field: "X (load_string e n f c) = (if e n \<noteq> [] then X (f (e n) c) else X c)"
  by (simp add: load_string_def)

lemma load_string_other: "(\<And>v c. X (f v c) = X c) \<Longrightarrow> X (load_string e n f c) = X c"
  by (simp add: load_string_def)

lemma load_int_other: "(\<And>p c. X (f p c) = X c) \<Longrightarrow> X (load_int e n f c) = X c"
  by (simp add: load_int_def load_string_def split: option.split)

lemma load_int_unset: "e n = [] \<Longrightarrow> load_int e n f c = c"
  by (simp add: load_int_def load_string_def)

text \<open>What loading makes of one field.\<close>

lemma loaded_TURNRealm:
  "TURNRealm (load_from_env e c) = (if e ''TURN_REALM'' \<noteq> [] then e ''TURN_REALM'' else TURNRealm c)"
  by (simp add: load_from_env_def Let_def load_int_other [where X = TURNRealm] load_string_other [where X = TURNRealm]
      load_string_field [where X = TURNRealm and n = "''TURN_REALM''"])

lemma loaded_TURNSharedSecret:
  "TURNSharedSecret (load_from_env e c) = (if e ''TURN_SHARED_SECRET'' \<noteq> [] then e ''TURN_SHARED_SECRET'' else TURNSharedSecret c)"
  by (simp add: load_from_env_def Let_def load_int_other [where X = TURNSharedSecret] load_string_other [where X = TURNSharedSecret]
      load_string_field [where X = TURNSharedSecret and n = "''TURN_SHARED_SECRET''"])

lemma loaded_AdminAPIToken:
  "AdminAPIToken (load_from_env e c) = (if e ''ADMIN_API_TOKEN'' \<noteq> [] then e ''ADMIN_API_TOKEN'' else AdminAPIToken c)"
  by (simp add: load_from_env_def Let_def load_int_other [where X = AdminAPIToken] load_string_other [where X = AdminAPIToken]
      load_string_field [where X = AdminAPIToken and n = "''ADMIN_API_TOKEN''"])

lemma loaded_LogLevel:
  "LogLevel (load_from_env e c) = (if e ''LOG_LEVEL'' \<noteq> [] then e ''LOG_LEVEL'' else LogLevel c)"
  by (simp add: load_from_env_def Let_def load_int_other [where X = LogLevel] load_string_other [where X = LogLevel]
      load_string_field [where X = LogLevel and n = "''LOG_LEVEL''"])

lemma loaded_TURNPort: "e ''TURN_PORT'' = [] \<Longrightarrow> TURNPort (load_from_env e c) = TURNPort c"
  by (simp add: load_from_env_def Let_def load_int_unset load_int_other [where X = TURNPort] load_string_other [where X = TURNPort])

lemma loaded_HTTPPort: "e ''HTTP_PORT'' = [] \<Longrightarrow> HTTPPort (load_from_env e c) = HTTPPort c"
  by (simp add: load_from_env_def Let_def load_int_unset load_int_other [where X = HTTPPort] load_string_other [where X = HTTPPort])

lemmas loaded_fields = loaded_TURNRealm loaded_TURNSharedSecret loaded_AdminAPIToken loaded_LogLevel
  loaded_TURNPort loaded_HTTPPort

section \<open>The environment of a configuration\<close>

definition env_of :: "config \<Rightarrow> env" where
  "env_of c name =
     (case map_of
        [(''TURN_PORT'', show_int (TURNPort c)), (''TURN_REALM'', TURNRealm c),
         (''TURN_SHARED_SECRET'', TURNSharedSecret c), (''HTTP_PORT'', show_int (HTTPPort c)),
         (''ADMIN_API_TOKEN'', AdminAPIToken c), (''METRICS_ADDR'', MetricsAddr c),
         (''FLY_APP_NAME'', FlyAppName c), (''FLY_ORG'', FlyOrg c), (''FLY_API_TOKEN'', FlyAPIToken c),
         (''RELAY_MODE'', if RelayMode c then ''true'' else ''false''),
         (''RELAY_PEERS'', join_with '','' (RelayPeers c)), (''LOG_LEVEL'', LogLevel c)] name of
        Some v \<Rightarrow> v | None \<Rightarrow> [])"

text \<open>Peers survive the list syntax when none is empty or has a comma.\<close>

definition peers_ok :: "string list \<Rightarrow> bool" where
  "peers_ok ps \<longleftrightarrow> (\<forall>p\<in>set ps. p \<noteq> [] \<and> CHR '','' \<notin> set p)"

lemma load_peers:
  assumes "peers_ok ps"
  shows "(if join_with '','' ps \<noteq> [] then split_all CHR '','' (join_with '','' ps) else []) = ps"
proof (cases ps)
  case (Cons p qs)
  then have "join_with '','' ps \<noteq> []"
    using assms by (cases qs) (auto simp: peers_ok_def)
  moreover have "split_all CHR '','' (join_with '','' ps) = ps"
    using assms Cons by (intro split_join) (auto simp: peers_ok_def)
  ultimately show ?thesis by simp
qed simp

lemma show_int_not_Nil [simp]: "show_int i \<noteq> []"
proof -
  have "show_nat n \<noteq> []" for n by (subst show_nat.simps) simp
  then show ?thesis by (simp add: show_int_def)
qed

section \<open>Properties\<close>

text \<open>
  C37: a configuration is accepted exactly when its realm, secret and admin token are set, its two
  ports are different TCP ports and its log level is known; when it is not, the errors are exactly
  those of the requirements it misses, each of the seven with the value at fault, once.
\<close>

theorem config_validate_verdict:
  "(config_validate c = [] \<longleftrightarrow>
      TURNRealm c \<noteq> [] \<and> TURNSharedSecret c \<noteq> [] \<and> AdminAPIToken c \<noteq> []
      \<and> TURNPort c \<in> {1..65535} \<and> HTTPPort c \<in> {1..65535} \<and> TURNPort c \<noteq> HTTPPort c
      \<and> LogLevel c \<in> {''debug'', ''info'', ''warn'', ''error''})
   \<and> (RealmRequired \<in> set (config_validate c) \<longleftrightarrow> TURNRealm c = [])
   \<and> (SecretRequired \<in> set (config_validate c) \<longleftrightarrow> TURNSharedSecret c = [])
   \<and> (TokenRequired \<in> set (config_validate c) \<longleftrightarrow> AdminAPIToken c = [])
   \<and> (TURNPortRange p \<in> set (config_validate c) \<longleftrightarrow> p = TURNPort c \<and> p \<notin> {1..65535})
   \<and> (HTTPPortRange p \<in> set (config_validate c) \<longleftrightarrow> p = HTTPPort c \<and> p \<notin> {1..65535})
   \<and> (LogLevelInvalid l \<in> set (config_validate c) \<longleftrightarrow> l = LogLevel c \<and> l \<notin> {''debug'', ''info'', ''warn'', ''error''})
   \<and> (PortsEqual p \<in> set (config_validate c) \<longleftrightarrow> p = TURNPort c \<and> p = HTTPPort c)
   \<and> distinct (config_validate c)"
proof -
  have "RealmRequired \<in> set (config_validate c) \<longleftrightarrow> TURNRealm c = []"
    "SecretRequired \<in> set (config_validate c) \<longleftrightarrow> TURNSharedSecret c = []"
    "TokenRequired \<in> set (config_validate c) \<longleftrightarrow> AdminAPIToken c = []"
    "TURNPortRange p \<in> set (config_validate c) \<longleftrightarrow> p = TURNPort c \<and> p \<notin> {1..65535}"
    "HTTPPortRange p \<in> set (config_validate c) \<longleftrightarrow> p = HTTPPort c \<and> p \<notin> {1..65535}"
    "LogLevelInvalid l \<in> set (config_validate c) \<longleftrightarrow> l = LogLevel c \<and> l \<notin> {''debug'', ''info'', ''warn'', ''error''}"
    "PortsEqual p \<in> set (config_validate c) \<longleftrightarrow> p = TURNPort c \<and> p = HTTPPort c"
    "distinct (config_validate c)"
    by (auto simp: config_validate_def)
  moreover have "config_validate c = [] \<longleftrightarrow>
      TURNRealm c \<noteq> [] \<and> TURNSharedSecret c \<noteq> [] \<and> AdminAPIToken c \<noteq> []
      \<and> TURNPort c \<in> {1..65535} \<and> HTTPPort c \<in> {1..65535} \<and> TURNPort c \<noteq> HTTPPort c
      \<and> LogLevel c \<in> {''debug'', ''info'', ''warn'', ''error''}"
    by (auto simp: config_validate_def)
  ultimately show ?thesis by blast
qed

lemma env_of_get:
  "env_of c ''TURN_PORT'' = show_int (TURNPort c)" "env_of c ''TURN_REALM'' = TURNRealm c"
  "env_of c ''TURN_SHARED_SECRET'' = TURNSharedSecret c" "env_of c ''HTTP_PORT'' = show_int (HTTPPort c)"
  "env_of c ''ADMIN_API_TOKEN'' = AdminAPIToken c" "env_of c ''METRICS_ADDR'' = MetricsAddr c"
  "env_of c ''FLY_APP_NAME'' = FlyAppName c" "env_of c ''FLY_ORG'' = FlyOrg c" "env_of c ''FLY_API_TOKEN'' = FlyAPIToken c"
  "env_of c ''RELAY_MODE'' = (if RelayMode c then ''true'' else ''false'')"
  "env_of c ''RELAY_PEERS'' = join_with '','' (RelayPeers c)" "env_of c ''LOG_LEVEL'' = LogLevel c"
  by (simp_all add: env_of_def)

text \<open>
  C38: every valid configuration can be given through the environment: starting from the defaults,
  loading the variables of a configuration gives that configuration back, provided its ports
  are in range, a metrics address is set and no relay peer is empty or has a comma.
\<close>

theorem config_env_round_trip:
  assumes "config_validate c = []" "MetricsAddr c \<noteq> []" "peers_ok (RelayPeers c)"
  shows "load_from_env (env_of c) DefaultConfig = c"
proof -
  have ports: "parse_int (show_int (TURNPort c)) = Some (TURNPort c)"
    "parse_int (show_int (HTTPPort c)) = Some (HTTPPort c)"
    using assms(1) by (auto simp: config_validate_def in_i64_iff intro!: parse_show_int split: if_splits)
  have fold: "equal_fold ''true'' ''true''" "\<not> equal_fold ''false'' ''true''" by code_simp+
  have "LogLevel c \<noteq> []" "TURNRealm c \<noteq> []" "TURNSharedSecret c \<noteq> []" "AdminAPIToken c \<noteq> []"
    using assms(1) by (auto simp: config_validate_def split: if_splits)
  note set = this assms(2)
  have peers: "load_string (env_of c) ''RELAY_PEERS'' (\<lambda>v c. c\<lparr>RelayPeers := split_all CHR '','' v\<rparr>) d
      = d\<lparr>RelayPeers := RelayPeers c\<rparr>" if "RelayPeers d = []" for d
    using load_peers [OF assms(3)] that by (auto simp: load_string_def env_of_get split: if_splits)
  have mode: "load_string (env_of c) ''RELAY_MODE'' (\<lambda>v c. c\<lparr>RelayMode := (equal_fold v ''true'' \<or> v = ''1'')\<rparr>) d
      = d\<lparr>RelayMode := RelayMode c\<rparr>" for d
    using fold by (simp add: load_string_def env_of_get)
  have fly: "FlyAppName d = [] \<Longrightarrow> load_string (env_of c) ''FLY_APP_NAME'' (\<lambda>v c. c\<lparr>FlyAppName := v\<rparr>) d
        = d\<lparr>FlyAppName := FlyAppName c\<rparr>"
    "FlyOrg d = [] \<Longrightarrow> load_string (env_of c) ''FLY_ORG'' (\<lambda>v c. c\<lparr>FlyOrg := v\<rparr>) d = d\<lparr>FlyOrg := FlyOrg c\<rparr>"
    "FlyAPIToken d = [] \<Longrightarrow> load_string (env_of c) ''FLY_API_TOKEN'' (\<lambda>v c. c\<lparr>FlyAPIToken := v\<rparr>) d
        = d\<lparr>FlyAPIToken := FlyAPIToken c\<rparr>" for d
    by (cases d; simp add: load_string_def env_of_get)+
  have strings: "load_string (env_of c) ''TURN_REALM'' f d = f (TURNRealm c) d"
    "load_string (env_of c) ''TURN_SHARED_SECRET'' f d = f (TURNSharedSecret c) d"
    "load_string (env_of c) ''ADMIN_API_TOKEN'' f d = f (AdminAPIToken c) d"
    "load_string (env_of c) ''METRICS_ADDR'' f d = f (MetricsAddr c) d"
    "load_string (env_of c) ''LOG_LEVEL'' f d = f (LogLevel c) d"
    "load_int (env_of c) ''TURN_PORT'' g d = g (TURNPort c) d"
    "load_int (env_of c) ''HTTP_PORT'' g d = g (HTTPPort c) d" for f g d
    by (simp_all add: load_int_def load_string_def env_of_get set ports)
  have "load_from_env (env_of c) DefaultConfig =
    \<lparr>TURNPort = TURNPort c, TURNRealm = TURNRealm c, TURNSharedSecret = TURNSharedSecret c, HTTPPort = HTTPPort c,
     AdminAPIToken = AdminAPIToken c, MetricsAddr = MetricsAddr c, FlyAppName = FlyAppName c, FlyOrg = FlyOrg c,
     FlyAPIToken = FlyAPIToken c, RelayMode = RelayMode c, RelayPeers = RelayPeers c, LogLevel = LogLevel c\<rparr>"
    unfolding load_from_env_def Let_def DefaultConfig_def strings
    by (simp add: fly peers mode)
  then show ?thesis by simp
qed

theorem config_env_round_trip_witness:
  "let c = DefaultConfig\<lparr>TURNRealm := ''r'', TURNSharedSecret := ''s'', AdminAPIToken := ''t'', HTTPPort := 80,
             RelayMode := True, RelayPeers := [''a:1'', ''b:2'']\<rparr>
   in load_from_env (env_of c) DefaultConfig = c"
  unfolding Let_def
  by (rule config_env_round_trip) (simp_all add: config_validate_def DefaultConfig_def peers_ok_def)

end
