(* ===== verification/Fly_Types.thy ===== *)
theory Fly_Types
  imports Http
begin

text \<open>
  The data of the Fly Machines API (\<open>internal/flydeploy/types.go\<close>) and its JSON form.  A Go slice,
  map or pointer that may be nil is an option: \<open>reflect.DeepEqual\<close> tells a nil map from an empty
  one, and \<open>omitempty\<close> writes neither, so they do not survive the wire alike.
\<close>

section \<open>Types\<close>

record organization =
  OrgName :: string
  OrgSlugOf :: string

record app =
  App_ID :: string
  App_Name :: string
  App_OrgSlug :: string
  App_Status :: string
  App_Network :: string
  App_Organization :: organization

definition effective_org_slug :: "app \<Rightarrow> string" where
  "effective_org_slug a =
     (if OrgSlugOf (App_Organization a) \<noteq> [] then OrgSlugOf (App_Organization a) else App_OrgSlug a)"

record machine_guest =
  CPUKind :: string
  CPUs :: int
  MemoryMB :: int

record service_concurrency =
  ConcurrencyType :: string
  HardLimit :: int
  SoftLimit :: int

record machine_port =
  PortNumber :: int
  Handlers :: "string list option"

record machine_service =
  Protocol :: string
  InternalPort :: int
  Ports :: "machine_port list option"
  Concurrency :: "service_concurrency option"

type_synonym string_map = "(string, string) gomap option"

record machine_config =
  Image :: string
  Env :: string_map
  Services :: "machine_service list option"
  Guest :: "machine_guest option"
  Metadata :: string_map

record machine_request =
  Req_Name :: string
  Req_Region :: string
  Req_Config :: machine_config

record machine =
  Machine_ID :: string
  Machine_Name :: string
  Machine_Region :: string
  Machine_State :: string
  Machine_Config :: machine_config
  ImageRef :: string

record ip_address =
  IP_ID :: string
  Address :: string
  IP_Type :: string
  IP_Region :: string
  IP_CreatedAt :: string

record ip_request =
  IPReq_Type :: string
  IPReq_Region :: string
  IPReq_OrgSlug :: string

section \<open>Zero values\<close>

definition zero_app :: app where
  "zero_app = \<lparr>App_ID = [], App_Name = [], App_OrgSlug = [], App_Status = [], App_Network = [],
     App_Organization = \<lparr>OrgName = [], OrgSlugOf = []\<rparr>\<rparr>"

definition zero_config :: machine_config where
  "zero_config = \<lparr>Image = [], Env = None, Services = None, Guest = None, Metadata = None\<rparr>"

definition zero_machine :: machine where
  "zero_machine = \<lparr>Machine_ID = [], Machine_Name = [], Machine_Region = [], Machine_State = [],
     Machine_Config = zero_config, ImageRef = []\<rparr>"

definition zero_ip :: ip_address where
  "zero_ip = \<lparr>IP_ID = [], Address = [], IP_Type = [], IP_Region = [], IP_CreatedAt = []\<rparr>"

definition zero_guest :: machine_guest where
  "zero_guest = \<lparr>CPUKind = [], CPUs = 0, MemoryMB = 0\<rparr>"

definition zero_concurrency :: service_concurrency where
  "zero_concurrency = \<lparr>ConcurrencyType = [], HardLimit = 0, SoftLimit = 0\<rparr>"

definition zero_port :: machine_port where
  "zero_port = \<lparr>PortNumber = 0, Handlers = None\<rparr>"

definition zero_service :: machine_service where
  "zero_service = \<lparr>Protocol = [], InternalPort = 0, Ports = None, Concurrency = None\<rparr>"

lemmas zero_values = zero_app_def zero_config_def zero_machine_def zero_ip_def zero_guest_def
  zero_concurrency_def zero_port_def zero_service_def

section \<open>Encoding\<close>

definition nil_or_empty :: "'a list option \<Rightarrow> bool" where
  "nil_or_empty x \<longleftrightarrow> x = None \<or> x = Some []"

definition slice_of :: "'a list option \<Rightarrow> 'a list" where
  "slice_of x = (case x of None \<Rightarrow> [] | Some xs \<Rightarrow> xs)"

definition guest_json :: "machine_guest \<Rightarrow> json" where
  "guest_json g =
     JObj [(''cpu_kind'', JStr (CPUKind g)), (''cpus'', json_int (CPUs g)), (''memory_mb'', json_int (MemoryMB g))]"

definition concurrency_json :: "service_concurrency \<Rightarrow> json" where
  "concurrency_json c =
     JObj [(''type'', JStr (ConcurrencyType c)), (''hard_limit'', json_int (HardLimit c)),
           (''soft_limit'', json_int (SoftLimit c))]"

definition port_json :: "machine_port \<Rightarrow> json" where
  "port_json p =
     JObj ([(''port'', json_int (PortNumber p))]
       @ omit_empty (nil_or_empty (Handlers p)) ''handlers'' (JArr (map JStr (slice_of (Handlers p)))))"

definition service_json :: "machine_service \<Rightarrow> json" where
  "service_json s =
     JObj ([(''protocol'', JStr (Protocol s)), (''internal_port'', json_int (InternalPort s))]
       @ omit_empty (nil_or_empty (Ports s)) ''ports'' (JArr (map port_json (slice_of (Ports s))))
       @ omit_empty (Concurrency s = None) ''concurrency''
           (case Concurrency s of None \<Rightarrow> JNull | Some c \<Rightarrow> concurrency_json c))"

definition config_json :: "machine_config \<Rightarrow> json" where
  "config_json c =
     JObj ([(''image'', JStr (Image c))]
       @ omit_empty (nil_or_empty (Env c)) ''env'' (json_string_map (slice_of (Env c)))
       @ omit_empty (nil_or_empty (Services c)) ''services'' (JArr (map service_json (slice_of (Services c))))
       @ omit_empty (Guest c = None) ''guest'' (case Guest c of None \<Rightarrow> JNull | Some g \<Rightarrow> guest_json g)
       @ omit_empty (nil_or_empty (Metadata c)) ''metadata'' (json_string_map (slice_of (Metadata c))))"

definition machine_request_json :: "machine_request \<Rightarrow> json" where
  "machine_request_json r =
     JObj (omit_empty (Req_Name r = []) ''name'' (JStr (Req_Name r))
       @ [(''region'', JStr (Req_Region r)), (''config'', config_json (Req_Config r))])"

definition create_app_json :: "string \<Rightarrow> string \<Rightarrow> json" where
  "create_app_json appName orgSlug = JObj [(''app_name'', JStr appName), (''org_slug'', JStr orgSlug)]"

definition ip_request_json :: "ip_request \<Rightarrow> json" where
  "ip_request_json r =
     JObj ([(''type'', JStr (IPReq_Type r))]
       @ omit_empty (IPReq_Region r = []) ''region'' (JStr (IPReq_Region r))
       @ omit_empty (IPReq_OrgSlug r = []) ''org_slug'' (JStr (IPReq_OrgSlug r)))"

section \<open>Decoding\<close>

fun decode_elems :: "(json \<Rightarrow> 'a \<Rightarrow> unit + 'a) \<Rightarrow> 'a \<Rightarrow> json list \<Rightarrow> 'a list \<Rightarrow> unit + 'a list" where
  "decode_elems dec zero [] olds = Inr []"
| "decode_elems dec zero (v # vs) olds =
     bind_res (dec v (case olds of [] \<Rightarrow> zero | old # _ \<Rightarrow> old))
       (\<lambda>x. bind_res (decode_elems dec zero vs (tl olds)) (\<lambda>xs. Inr (x # xs)))"

fun decode_slice :: "(json \<Rightarrow> 'a \<Rightarrow> unit + 'a) \<Rightarrow> 'a \<Rightarrow> json \<Rightarrow> 'a list option \<Rightarrow> unit + 'a list option" where
  "decode_slice dec zero JNull old = Inr None"
| "decode_slice dec zero (JArr vs) old = bind_res (decode_elems dec zero vs (slice_of old)) (\<lambda>xs. Inr (Some xs))"
| "decode_slice dec zero _ old = Inl ()"

fun decode_map_entries :: "(string \<times> json) list \<Rightarrow> (string, string) gomap \<Rightarrow> unit + (string, string) gomap" where
  "decode_map_entries [] m = Inr m"
| "decode_map_entries ((k, v) # kvs) m =
     bind_res (decode_string v []) (\<lambda>s. decode_map_entries kvs (gm_put k s m))"

fun decode_map :: "json \<Rightarrow> string_map \<Rightarrow> unit + string_map" where
  "decode_map JNull old = Inr None"
| "decode_map (JObj kvs) old = bind_res (decode_map_entries kvs (slice_of old)) (\<lambda>m. Inr (Some m))"
| "decode_map _ old = Inl ()"

definition decode_pointer :: "(json \<Rightarrow> 'a \<Rightarrow> unit + 'a) \<Rightarrow> 'a \<Rightarrow> json \<Rightarrow> 'a option \<Rightarrow> unit + 'a option" where
  "decode_pointer dec zero v old =
     (if v = JNull then Inr None
      else bind_res (dec v (case old of None \<Rightarrow> zero | Some x \<Rightarrow> x)) (\<lambda>x. Inr (Some x)))"

text \<open>One field of a struct: decode into its present value and store the result.\<close>

definition field :: "(json \<Rightarrow> 'b \<Rightarrow> unit + 'b) \<Rightarrow> json \<Rightarrow> 'b \<Rightarrow> ('b \<Rightarrow> 'a) \<Rightarrow> unit + 'a" where
  "field dec v old upd = bind_res (dec v old) (\<lambda>y. Inr (upd y))"

definition decode_organization :: "json \<Rightarrow> organization \<Rightarrow> unit + organization" where
  "decode_organization = decode_struct [''name'', ''slug''] (\<lambda>k v x.
     if k = ''name'' then field decode_string v (OrgName x) (\<lambda>y. x\<lparr>OrgName := y\<rparr>)
     else field decode_string v (OrgSlugOf x) (\<lambda>y. x\<lparr>OrgSlugOf := y\<rparr>))"

definition decode_app :: "json \<Rightarrow> app \<Rightarrow> unit + app" where
  "decode_app = decode_struct [''id'', ''name'', ''org_slug'', ''status'', ''network'', ''organization''] (\<lambda>k v x.
     if k = ''id'' then field decode_string v (App_ID x) (\<lambda>y. x\<lparr>App_ID := y\<rparr>)
     else if k = ''name'' then field decode_string v (App_Name x) (\<lambda>y. x\<lparr>App_Name := y\<rparr>)
     else if k = ''org_slug'' then field decode_string v (App_OrgSlug x) (\<lambda>y. x\<lparr>App_OrgSlug := y\<rparr>)
     else if k = ''status'' then field decode_string v (App_Status x) (\<lambda>y. x\<lparr>App_Status := y\<rparr>)
     else if k = ''network'' then field decode_string v (App_Network x) (\<lambda>y. x\<lparr>App_Network := y\<rparr>)
     else field decode_organization v (App_Organization x) (\<lambda>y. x\<lparr>App_Organization := y\<rparr>))"

definition decode_guest :: "json \<Rightarrow> machine_guest \<Rightarrow> unit + machine_guest" where
  "decode_guest = decode_struct [''cpu_kind'', ''cpus'', ''memory_mb''] (\<lambda>k v x.
     if k = ''cpu_kind'' then field decode_string v (CPUKind x) (\<lambda>y. x\<lparr>CPUKind := y\<rparr>)
     else if k = ''cpus'' then field decode_int v (CPUs x) (\<lambda>y. x\<lparr>CPUs := y\<rparr>)
     else field decode_int v (MemoryMB x) (\<lambda>y. x\<lparr>MemoryMB := y\<rparr>))"

definition decode_concurrency :: "json \<Rightarrow> service_concurrency \<Rightarrow> unit + service_concurrency" where
  "decode_concurrency = decode_struct [''type'', ''hard_limit'', ''soft_limit''] (\<lambda>k v x.
     if k = ''type'' then field decode_string v (ConcurrencyType x) (\<lambda>y. x\<lparr>ConcurrencyType := y\<rparr>)
     else if k = ''hard_limit'' then field decode_int v (HardLimit x) (\<lambda>y. x\<lparr>HardLimit := y\<rparr>)
     else field decode_int v (SoftLimit x) (\<lambda>y. x\<lparr>SoftLimit := y\<rparr>))"

definition decode_port :: "json \<Rightarrow> machine_port \<Rightarrow> unit + machine_port" where
  "decode_port = decode_struct [''port'', ''handlers''] (\<lambda>k v x.
     if k = ''port'' then field decode_int v (PortNumber x) (\<lambda>y. x\<lparr>PortNumber := y\<rparr>)
     else field (decode_slice decode_string []) v (Handlers x) (\<lambda>y. x\<lparr>Handlers := y\<rparr>))"

definition decode_service :: "json \<Rightarrow> machine_service \<Rightarrow> unit + machine_service" where
  "decode_service = decode_struct [''protocol'', ''internal_port'', ''ports'', ''concurrency''] (\<lambda>k v x.
     if k = ''protocol'' then field decode_string v (Protocol x) (\<lambda>y. x\<lparr>Protocol := y\<rparr>)
     else if k = ''internal_port'' then field decode_int v (InternalPort x) (\<lambda>y. x\<lparr>InternalPort := y\<rparr>)
     else if k = ''ports'' then field (decode_slice decode_port zero_port) v (Ports x) (\<lambda>y. x\<lparr>Ports := y\<rparr>)
     else field (decode_pointer decode_concurrency zero_concurrency) v (Concurrency x) (\<lambda>y. x\<lparr>Concurrency := y\<rparr>))"

definition decode_config :: "json \<Rightarrow> machine_config \<Rightarrow> unit + machine_config" where
  "decode_config = decode_struct [''image'', ''env'', ''services'', ''guest'', ''metadata''] (\<lambda>k v x.
     if k = ''image'' then field decode_string v (Image x) (\<lambda>y. x\<lparr>Image := y\<rparr>)
     else if k = ''env'' then field decode_map v (Env x) (\<lambda>y. x\<lparr>Env := y\<rparr>)
     else if k = ''services'' then field (decode_slice decode_service zero_service) v (Services x) (\<lambda>y. x\<lparr>Services := y\<rparr>)
     else if k = ''guest'' then field (decode_pointer decode_guest zero_guest) v (Guest x) (\<lambda>y. x\<lparr>Guest := y\<rparr>)
     else field decode_map v (Metadata x) (\<lambda>y. x\<lparr>Metadata := y\<rparr>))"

definition decode_machine :: "json \<Rightarrow> machine \<Rightarrow> unit + machine" where
  "decode_machine = decode_struct [''id'', ''name'', ''region'', ''state'', ''config'', ''image_ref''] (\<lambda>k v x.
     if k = ''id'' then field decode_string v (Machine_ID x) (\<lambda>y. x\<lparr>Machine_ID := y\<rparr>)
     else if k = ''name'' then field decode_string v (Machine_Name x) (\<lambda>y. x\<lparr>Machine_Name := y\<rparr>)
     else if k = ''region'' then field decode_string v (Machine_Region x) (\<lambda>y. x\<lparr>Machine_Region := y\<rparr>)
     else if k = ''state'' then field decode_string v (Machine_State x) (\<lambda>y. x\<lparr>Machine_State := y\<rparr>)
     else if k = ''config'' then field decode_config v (Machine_Config x) (\<lambda>y. x\<lparr>Machine_Config := y\<rparr>)
     else field decode_string v (ImageRef x) (\<lambda>y. x\<lparr>ImageRef := y\<rparr>))"

definition decode_ip :: "json \<Rightarrow> ip_address \<Rightarrow> unit + ip_address" where
  "decode_ip = decode_struct [''id'', ''ip'', ''type'', ''region'', ''created_at''] (\<lambda>k v x.
     if k = ''id'' then field decode_string v (IP_ID x) (\<lambda>y. x\<lparr>IP_ID := y\<rparr>)
     else if k = ''ip'' then field decode_string v (Address x) (\<lambda>y. x\<lparr>Address := y\<rparr>)
     else if k = ''type'' then field decode_string v (IP_Type x) (\<lambda>y. x\<lparr>IP_Type := y\<rparr>)
     else if k = ''region'' then field decode_string v (IP_Region x) (\<lambda>y. x\<lparr>IP_Region := y\<rparr>)
     else field decode_string v (IP_CreatedAt x) (\<lambda>y. x\<lparr>IP_CreatedAt := y\<rparr>))"

text \<open>The anonymous struct of \<open>ListIPs\<close>.\<close>

definition decode_ip_list :: "json \<Rightarrow> ip_address list option \<Rightarrow> unit + ip_address list option" where
  "decode_ip_list = decode_struct [''ips''] (\<lambda>k v x. decode_slice decode_ip zero_ip v x)"

section \<open>The wire\<close>

definition map_ok :: "string_map \<Rightarrow> bool" where
  "map_ok m \<longleftrightarrow> (case m of None \<Rightarrow> True | Some kvs \<Rightarrow> gm_ok kvs)"

definition guest_ok :: "machine_guest \<Rightarrow> bool" where
  "guest_ok g \<longleftrightarrow> in_i64 (CPUs g) \<and> in_i64 (MemoryMB g)"

definition concurrency_ok :: "service_concurrency \<Rightarrow> bool" where
  "concurrency_ok c \<longleftrightarrow> in_i64 (HardLimit c) \<and> in_i64 (SoftLimit c)"

definition port_ok :: "machine_port \<Rightarrow> bool" where
  "port_ok p \<longleftrightarrow> in_i64 (PortNumber p)"

definition service_ok :: "machine_service \<Rightarrow> bool" where
  "service_ok s \<longleftrightarrow> in_i64 (InternalPort s) \<and> (\<forall>p\<in>set (slice_of (Ports s)). port_ok p)
     \<and> (case Concurrency s of None \<Rightarrow> True | Some c \<Rightarrow> concurrency_ok c)"

definition config_ok :: "machine_config \<Rightarrow> bool" where
  "config_ok c \<longleftrightarrow> map_ok (Env c) \<and> map_ok (Metadata c) \<and> (\<forall>s\<in>set (slice_of (Services c)). service_ok s)
     \<and> (case Guest c of None \<Rightarrow> True | Some g \<Rightarrow> guest_ok g)"

text \<open>What comes back of a value that was sent: empty slices and maps come back nil.\<close>

definition normal :: "'a list option \<Rightarrow> 'a list option" where
  "normal x = (if nil_or_empty x then None else x)"

definition normal_port :: "machine_port \<Rightarrow> machine_port" where
  "normal_port p = p\<lparr>Handlers := normal (Handlers p)\<rparr>"

definition normal_service :: "machine_service \<Rightarrow> machine_service" where
  "normal_service s = s\<lparr>Ports := normal (map_option (map normal_port) (Ports s))\<rparr>"

definition normal_config :: "machine_config \<Rightarrow> machine_config" where
  "normal_config c = c\<lparr>Env := normal (Env c), Services := normal (map_option (map normal_service) (Services c)),
     Metadata := normal (Metadata c)\<rparr>"

lemma decode_json_int [simp]: "in_i64 n \<Longrightarrow> decode_int (json_int n) old = Inr n"
  by (simp add: json_int_def parse_show_int)

lemma json_not_null [simp]:
  "guest_json g \<noteq> JNull" "concurrency_json c \<noteq> JNull"
  by (simp_all add: guest_json_def concurrency_json_def)

lemma decode_elems_map:
  "\<forall>x\<in>set xs. dec (enc x) zero = Inr (nf x) \<Longrightarrow> decode_elems dec zero (map enc xs) [] = Inr (map nf xs)"
  by (induction xs) simp_all

lemma decode_slice_map:
  "\<forall>x\<in>set xs. dec (enc x) zero = Inr (nf x) \<Longrightarrow> decode_slice dec zero (JArr (map enc xs)) None = Inr (Some (map nf xs))"
  using decode_elems_map [of xs dec enc zero nf] by (simp add: slice_of_def)

lemma gm_put_fresh: "k \<notin> fst ` set m \<Longrightarrow> gm_put k v m = m @ [(k, v)]"
  by (induction m) auto

lemma decode_entries:
  "gm_ok (m @ kvs) \<Longrightarrow> decode_map_entries (map (\<lambda>(k, v). (k, JStr v)) kvs) m = Inr (m @ kvs)"
  by (induction kvs arbitrary: m) (auto simp: gm_put_fresh gm_ok_def)

lemma decode_map_json [simp]:
  "gm_ok kvs \<Longrightarrow> decode_map (json_string_map kvs) None = Inr (Some kvs)"
  using decode_entries [of "[]" kvs] by (simp add: json_string_map_def slice_of_def)

lemma decode_guest_json [simp]: "guest_ok g \<Longrightarrow> decode_guest (guest_json g) zero_guest = Inr g"
  by (simp add: decode_guest_def guest_json_def guest_ok_def field_def zero_guest_def)

lemma decode_concurrency_json [simp]:
  "concurrency_ok c \<Longrightarrow> decode_concurrency (concurrency_json c) zero_concurrency = Inr c"
  by (simp add: decode_concurrency_def concurrency_json_def concurrency_ok_def field_def zero_concurrency_def)

lemma decode_strings: "decode_slice decode_string [] (JArr (map JStr xs)) None = Inr (Some xs)"
  using decode_slice_map [of xs decode_string JStr "[]" "\<lambda>x. x"] by simp

lemma decode_port_json: "port_ok p \<Longrightarrow> decode_port (port_json p) zero_port = Inr (normal_port p)"
  by (cases p; cases "nil_or_empty (Handlers p)")
    (auto simp: decode_port_def port_json_def port_ok_def field_def zero_port_def normal_port_def normal_def
      omit_empty_def decode_strings nil_or_empty_def slice_of_def simp del: decode_slice.simps split: option.splits)

lemma normal_cases:
  "nil_or_empty x \<Longrightarrow> normal x = None"
  "\<not> nil_or_empty x \<Longrightarrow> normal x = x \<and> x = Some (slice_of x) \<and> slice_of x \<noteq> []"
  by (auto simp: normal_def nil_or_empty_def slice_of_def split: option.splits)

lemma normal_map:
  "nil_or_empty x \<Longrightarrow> normal (map_option (map f) x) = None"
  "\<not> nil_or_empty x \<Longrightarrow> normal (map_option (map f) x) = Some (map f (slice_of x))"
  by (auto simp: normal_def nil_or_empty_def slice_of_def split: option.splits)

lemma decode_service_json:
  assumes "service_ok s"
  shows "decode_service (service_json s) zero_service = Inr (normal_service s)"
proof -
  have ports: "decode_slice decode_port zero_port (JArr (map port_json (slice_of (Ports s)))) None
      = Inr (Some (map normal_port (slice_of (Ports s))))"
    using assms by (intro decode_slice_map) (auto simp: service_ok_def decode_port_json)
  have conc: "decode_pointer decode_concurrency zero_concurrency (concurrency_json c) None = Inr (Some c)"
    if "Concurrency s = Some c" for c
    using assms that by (simp add: decode_pointer_def service_ok_def)
  show ?thesis
    using assms
    by (cases "nil_or_empty (Ports s)"; cases "Concurrency s")
      (simp_all add: decode_service_def service_json_def field_def zero_service_def omit_empty_def ports conc
        normal_service_def normal_map service_ok_def del: decode_slice.simps)
qed

lemma decode_config_json:
  assumes "config_ok c"
  shows "decode_config (config_json c) zero_config = Inr (normal_config c)"
proof -
  have services: "decode_slice decode_service zero_service (JArr (map service_json (slice_of (Services c)))) None
      = Inr (Some (map normal_service (slice_of (Services c))))"
    using assms by (intro decode_slice_map) (auto simp: config_ok_def decode_service_json)
  have guest: "decode_pointer decode_guest zero_guest (guest_json g) None = Inr (Some g)"
    if "Guest c = Some g" for g
    using assms that by (simp add: decode_pointer_def config_ok_def)
  have env: "\<not> nil_or_empty m \<Longrightarrow> map_ok m \<Longrightarrow> decode_map (json_string_map (slice_of m)) None = Inr (normal m)" for m
    by (auto simp: nil_or_empty_def slice_of_def map_ok_def normal_def split: option.splits)
  have maps: "map_ok (Env c)" "map_ok (Metadata c)" using assms by (simp_all add: config_ok_def)
  show ?thesis
    by (cases "nil_or_empty (Env c)"; cases "nil_or_empty (Services c)"; cases "Guest c"; cases "nil_or_empty (Metadata c)")
      (simp_all add: decode_config_def config_json_def field_def zero_config_def omit_empty_def services guest
        env [OF _ maps(1)] env [OF _ maps(2)] normal_config_def normal_map normal_cases(1) del: decode_slice.simps decode_map.simps)
qed

definition decoded_config :: "json \<Rightarrow> machine_config option" where
  "decoded_config v = (case decode_config v zero_config of Inl e \<Rightarrow> None | Inr c \<Rightarrow> Some c)"

interpretation config_wire: codec "\<lambda>c. config_ok c \<and> normal_config c = c" config_json decoded_config
  by unfold_locales (simp add: decoded_config_def decode_config_json)

section \<open>Equality of configurations\<close>

text \<open>\<open>reflect.DeepEqual\<close>: a nil map equals only a nil map, and maps do not depend on their order.\<close>

definition map_equal :: "string_map \<Rightarrow> string_map \<Rightarrow> bool" where
  "map_equal a b \<longleftrightarrow>
     (case (a, b) of (None, None) \<Rightarrow> True | (Some m, Some m') \<Rightarrow> gm_equal m m' | _ \<Rightarrow> False)"

definition deep_equal :: "machine_config \<Rightarrow> machine_config \<Rightarrow> bool" where
  "deep_equal c d \<longleftrightarrow> Image c = Image d \<and> map_equal (Env c) (Env d) \<and> Services c = Services d
     \<and> Guest c = Guest d \<and> map_equal (Metadata c) (Metadata d)"

lemma map_equal_refl: "map_ok m \<Longrightarrow> map_equal m m"
  by (auto simp: map_equal_def map_ok_def gm_equal_refl split: option.splits)

lemma deep_equal_refl: "config_ok c \<Longrightarrow> deep_equal c c"
  by (simp add: deep_equal_def config_ok_def map_equal_refl)

end
