(* ===== verification/Fly_Client.thy ===== *)
theory Fly_Client
  imports Fly_Types Go_Float
begin

text \<open>
  The client of the Fly Machines API (\<open>internal/flydeploy/client.go\<close>).  The service behind it, the
  clock and the context are the environment: a record of functions on a world \<open>'w\<close>.  An error is
  a value that keeps the operation it happened in, as the wrapped Go errors do.
\<close>

section \<open>The environment\<close>

record fly_request =
  Req_Method :: string
  Req_URL :: string
  Req_Token :: string
  Req_Body :: "json option"

text \<open>A response: its status, its body as text, and the JSON value the body begins with, if any.\<close>

record fly_response =
  StatusCode :: int
  RawBody :: string
  ParsedBody :: "json option"

text \<open>
  \<open>parse_url\<close> is \<open>http.NewRequest\<close>'s check of the URL, \<open>http_do\<close> one exchange, \<open>clock\<close> a reading
  of the clock, and \<open>pause\<close> the wait for a duration that ends early, with the context's error,
  when the context is done.
\<close>

record 'w fly_env =
  parse_url :: "string \<Rightarrow> string option"
  http_do :: "fly_request \<Rightarrow> 'w \<Rightarrow> (string + fly_response) \<times> 'w"
  clock :: "'w \<Rightarrow> gotime \<times> 'w"
  pause :: "duration \<Rightarrow> 'w \<Rightarrow> string option \<times> 'w"

section \<open>Client and errors\<close>

definition defaultBaseURL :: string where
  "defaultBaseURL = ''https://api.machines.dev''"

record client =
  baseURL :: string
  client_token :: string
  dryRun :: bool

definition new_client :: "string \<Rightarrow> bool \<Rightarrow> client" where
  "new_client token dry = \<lparr>baseURL = defaultBaseURL, client_token = token, dryRun = dry\<rparr>"

definition set_base_url :: "string \<Rightarrow> client \<Rightarrow> client" where
  "set_base_url url c = c\<lparr>baseURL := trim_right_char CHR ''/'' url\<rparr>"

datatype fly_op =
    CreateApp string
  | GetApp string
  | ListApps
  | CreateMachine string
  | ListMachines string
  | GetMachine string string
  | UpdateMachine string string
  | StartMachine string
  | StopMachine string
  | DestroyMachine string
  | AllocateIP string
  | ListIPs string

datatype fly_error =
    CreateRequest string
  | HttpRequest string
  | APIError int string
  | DecodeResponse
  | During fly_op fly_error
  | NotReached string string duration
  | ContextDone string

section \<open>Requests\<close>

definition unauthorized_message :: string where
  "unauthorized_message = ''authentication failed '' @ [CHR 0xE2, CHR 0x80, CHR 0x94] @ '' check FLY_API_TOKEN''"

definition fly_request_of :: "client \<Rightarrow> string \<Rightarrow> string \<Rightarrow> json option \<Rightarrow> fly_request" where
  "fly_request_of c meth path body =
     \<lparr>Req_Method = meth, Req_URL = baseURL c @ path, Req_Token = client_token c, Req_Body = body\<rparr>"

definition do_request ::
  "'w fly_env \<Rightarrow> client \<Rightarrow> string \<Rightarrow> string \<Rightarrow> json option \<Rightarrow> 'w \<Rightarrow> (fly_error + fly_response) \<times> 'w" where
  "do_request env c meth path body w =
     (case parse_url env (baseURL c @ path) of
        Some e \<Rightarrow> (Inl (CreateRequest e), w)
      | None \<Rightarrow>
          (case http_do env (fly_request_of c meth path body) w of
             (Inl e, w) \<Rightarrow> (Inl (HttpRequest e), w)
           | (Inr resp, w) \<Rightarrow>
               if 400 \<le> StatusCode resp
               then (Inl (APIError (StatusCode resp)
                       (if StatusCode resp = 401 then unauthorized_message else RawBody resp)), w)
               else (Inr resp, w)))"

text \<open>With a result to decode into, and with none.\<close>

definition do_decode ::
  "'w fly_env \<Rightarrow> client \<Rightarrow> fly_op \<Rightarrow> string \<Rightarrow> string \<Rightarrow> json option \<Rightarrow> (json \<Rightarrow> 'a \<Rightarrow> unit + 'a) \<Rightarrow> 'a \<Rightarrow> 'w
   \<Rightarrow> (fly_error + 'a) \<times> 'w" where
  "do_decode env c op meth path body dec zero w =
     (case do_request env c meth path body w of
        (Inl e, w) \<Rightarrow> (Inl (During op e), w)
      | (Inr resp, w) \<Rightarrow>
          (case decode_body dec zero (ParsedBody resp) of
             None \<Rightarrow> (Inl (During op DecodeResponse), w)
           | Some x \<Rightarrow> (Inr x, w)))"

definition do_plain ::
  "'w fly_env \<Rightarrow> client \<Rightarrow> fly_op \<Rightarrow> string \<Rightarrow> string \<Rightarrow> 'w \<Rightarrow> fly_error option \<times> 'w" where
  "do_plain env c op meth path w =
     (case do_request env c meth path None w of
        (Inl e, w) \<Rightarrow> (Some (During op e), w)
      | (Inr resp, w) \<Rightarrow> (None, w))"

section \<open>Operations\<close>

definition app_path :: "string \<Rightarrow> string" where
  "app_path appName = ''/v1/apps/'' @ appName"

definition machines_path :: "string \<Rightarrow> string" where
  "machines_path appName = app_path appName @ ''/machines''"

definition machine_path :: "string \<Rightarrow> string \<Rightarrow> string" where
  "machine_path appName machineID = machines_path appName @ ''/'' @ machineID"

definition ips_path :: "string \<Rightarrow> string" where
  "ips_path appName = app_path appName @ ''/ip_assignments''"

definition create_app :: "'w fly_env \<Rightarrow> client \<Rightarrow> string \<Rightarrow> string \<Rightarrow> 'w \<Rightarrow> (fly_error + app) \<times> 'w" where
  "create_app env c appName orgSlug w =
     (if dryRun c then (Inr (zero_app\<lparr>App_Name := appName, App_OrgSlug := orgSlug, App_Status := ''dry-run''\<rparr>), w)
      else do_decode env c (CreateApp appName) ''POST'' ''/v1/apps'' (Some (create_app_json appName orgSlug))
             decode_app zero_app w)"

definition get_app :: "'w fly_env \<Rightarrow> client \<Rightarrow> string \<Rightarrow> 'w \<Rightarrow> (fly_error + app) \<times> 'w" where
  "get_app env c appName w =
     (if dryRun c then (Inr (zero_app\<lparr>App_Name := appName, App_Status := ''dry-run''\<rparr>), w)
      else do_decode env c (GetApp appName) ''GET'' (app_path appName) None decode_app zero_app w)"

definition list_apps :: "'w fly_env \<Rightarrow> client \<Rightarrow> 'w \<Rightarrow> (fly_error + app list) \<times> 'w" where
  "list_apps env c w =
     (if dryRun c then (Inr [], w)
      else case do_decode env c ListApps ''GET'' ''/v1/apps'' None (decode_slice decode_app zero_app) None w of
        (Inl e, w) \<Rightarrow> (Inl e, w)
      | (Inr apps, w) \<Rightarrow> (Inr (slice_of apps), w))"

definition create_machine ::
  "'w fly_env \<Rightarrow> client \<Rightarrow> string \<Rightarrow> machine_request \<Rightarrow> 'w \<Rightarrow> (fly_error + machine) \<times> 'w" where
  "create_machine env c appName req w =
     (if dryRun c
      then (Inr (zero_machine\<lparr>Machine_Name := Req_Name req, Machine_Region := Req_Region req,
                   Machine_State := ''dry-run'', Machine_Config := Req_Config req\<rparr>), w)
      else do_decode env c (CreateMachine appName) ''POST'' (machines_path appName)
             (Some (machine_request_json req)) decode_machine zero_machine w)"

definition list_machines :: "'w fly_env \<Rightarrow> client \<Rightarrow> string \<Rightarrow> 'w \<Rightarrow> (fly_error + machine list) \<times> 'w" where
  "list_machines env c appName w =
     (if dryRun c then (Inr [], w)
      else case do_decode env c (ListMachines appName) ''GET'' (machines_path appName) None
               (decode_slice decode_machine zero_machine) None w of
        (Inl e, w) \<Rightarrow> (Inl e, w)
      | (Inr ms, w) \<Rightarrow> (Inr (slice_of ms), w))"

definition get_machine :: "'w fly_env \<Rightarrow> client \<Rightarrow> string \<Rightarrow> string \<Rightarrow> 'w \<Rightarrow> (fly_error + machine) \<times> 'w" where
  "get_machine env c appName machineID w =
     (if dryRun c then (Inr (zero_machine\<lparr>Machine_ID := machineID, Machine_State := ''dry-run''\<rparr>), w)
      else do_decode env c (GetMachine appName machineID) ''GET'' (machine_path appName machineID) None
             decode_machine zero_machine w)"

definition update_machine ::
  "'w fly_env \<Rightarrow> client \<Rightarrow> string \<Rightarrow> string \<Rightarrow> machine_request \<Rightarrow> 'w \<Rightarrow> (fly_error + machine) \<times> 'w" where
  "update_machine env c appName machineID req w =
     (if dryRun c
      then (Inr (zero_machine\<lparr>Machine_ID := machineID, Machine_Name := Req_Name req, Machine_Region := Req_Region req,
                   Machine_State := ''dry-run'', Machine_Config := Req_Config req\<rparr>), w)
      else do_decode env c (UpdateMachine appName machineID) ''POST'' (machine_path appName machineID)
             (Some (machine_request_json req)) decode_machine zero_machine w)"

definition start_machine :: "'w fly_env \<Rightarrow> client \<Rightarrow> string \<Rightarrow> string \<Rightarrow> 'w \<Rightarrow> fly_error option \<times> 'w" where
  "start_machine env c appName machineID w =
     (if dryRun c then (None, w)
      else do_plain env c (StartMachine machineID) ''POST'' (machine_path appName machineID @ ''/start'') w)"

definition stop_machine :: "'w fly_env \<Rightarrow> client \<Rightarrow> string \<Rightarrow> string \<Rightarrow> 'w \<Rightarrow> fly_error option \<times> 'w" where
  "stop_machine env c appName machineID w =
     (if dryRun c then (None, w)
      else do_plain env c (StopMachine machineID) ''POST'' (machine_path appName machineID @ ''/stop'') w)"

definition destroy_machine :: "'w fly_env \<Rightarrow> client \<Rightarrow> string \<Rightarrow> string \<Rightarrow> 'w \<Rightarrow> fly_error option \<times> 'w" where
  "destroy_machine env c appName machineID w =
     (if dryRun c then (None, w)
      else do_plain env c (DestroyMachine machineID) ''DELETE'' (machine_path appName machineID) w)"

definition allocate_ip :: "'w fly_env \<Rightarrow> client \<Rightarrow> string \<Rightarrow> ip_request \<Rightarrow> 'w \<Rightarrow> (fly_error + ip_address) \<times> 'w" where
  "allocate_ip env c appName req w =
     (if dryRun c
      then (Inr (zero_ip\<lparr>IP_Type := IPReq_Type req, IP_Region := IPReq_Region req, Address := ''dry-run-ip''\<rparr>), w)
      else case do_decode env c (AllocateIP appName) ''POST'' (ips_path appName) (Some (ip_request_json req))
               decode_ip zero_ip w of
        (Inl e, w) \<Rightarrow> (Inl e, w)
      | (Inr ip, w) \<Rightarrow> (Inr (if IP_Type ip = [] then ip\<lparr>IP_Type := IPReq_Type req\<rparr> else ip), w))"

definition list_ips :: "'w fly_env \<Rightarrow> client \<Rightarrow> string \<Rightarrow> 'w \<Rightarrow> (fly_error + ip_address list) \<times> 'w" where
  "list_ips env c appName w =
     (if dryRun c then (Inr [], w)
      else case do_decode env c (ListIPs appName) ''GET'' (ips_path appName) None decode_ip_list None w of
        (Inl e, w) \<Rightarrow> (Inl e, w)
      | (Inr ips, w) \<Rightarrow> (Inr (slice_of ips), w))"

section \<open>Waiting for a machine\<close>

text \<open>\<open>url.QueryEscape\<close>, and the query of two parameters in the order \<open>Encode\<close> sorts them.\<close>

definition hex_upper :: "nat \<Rightarrow> char" where
  "hex_upper d = char_of (if d < 10 then 48 + d else 55 + d)"

definition unreserved :: "char \<Rightarrow> bool" where
  "unreserved ch \<longleftrightarrow>
     (let n = of_char ch :: nat
      in (48 \<le> n \<and> n \<le> 57) \<or> (65 \<le> n \<and> n \<le> 90) \<or> (97 \<le> n \<and> n \<le> 122) \<or> ch \<in> {CHR ''-'', CHR ''_'', CHR ''.'', CHR ''~''})"

definition query_escape :: "string \<Rightarrow> string" where
  "query_escape s = concat (map (\<lambda>ch.
     if unreserved ch then [ch] else if ch = CHR '' '' then ''+''
     else let n = of_char ch :: nat in [CHR ''%'', hex_upper (n div 16), hex_upper (n mod 16)]) s)"

definition wait_path :: "string \<Rightarrow> string \<Rightarrow> string \<Rightarrow> duration \<Rightarrow> string" where
  "wait_path appName machineID target timeout =
     machine_path appName machineID @ ''/wait?state='' @ query_escape target
       @ ''&timeout='' @ show_int (f64_trunc (seconds timeout))"

text \<open>
  The polling loop, with fuel: \<open>None\<close> when the fuel is used up before the loop returns, and
  otherwise what it returns.
\<close>

fun wait_loop ::
  "nat \<Rightarrow> 'w fly_env \<Rightarrow> client \<Rightarrow> string \<Rightarrow> string \<Rightarrow> string \<Rightarrow> duration \<Rightarrow> gotime \<Rightarrow> 'w
   \<Rightarrow> (fly_error option \<times> 'w) option" where
  "wait_loop 0 env c appName machineID target timeout deadline w = None"
| "wait_loop (Suc n) env c appName machineID target timeout deadline w =
     (let (now, w) = clock env w
      in if \<not> now < deadline then Some (Some (NotReached machineID target timeout), w)
         else let (r, w) = do_decode env c (GetMachine appName machineID) ''GET''
                             (wait_path appName machineID target timeout) None decode_machine zero_machine w
              in if (case r of Inl e \<Rightarrow> False | Inr m \<Rightarrow> equal_fold (Machine_State m) target) then Some (None, w)
                 else case pause env (5 * second) w of
                   (Some e, w) \<Rightarrow> Some (Some (ContextDone e), w)
                 | (None, w) \<Rightarrow> wait_loop n env c appName machineID target timeout deadline w)"

definition wait_for_machine ::
  "nat \<Rightarrow> 'w fly_env \<Rightarrow> client \<Rightarrow> string \<Rightarrow> string \<Rightarrow> string \<Rightarrow> duration \<Rightarrow> 'w \<Rightarrow> (fly_error option \<times> 'w) option" where
  "wait_for_machine fuel env c appName machineID target timeout w =
     (if dryRun c then Some (None, w)
      else let (now, w) = clock env w
           in wait_loop fuel env c appName machineID target timeout (time_add now timeout) w)"

section \<open>Laws\<close>

lemmas client_ops = create_app_def get_app_def list_apps_def create_machine_def list_machines_def get_machine_def
  update_machine_def start_machine_def stop_machine_def destroy_machine_def allocate_ip_def list_ips_def

text \<open>In a dry run no operation touches the world.\<close>

lemma dry_run_world:
  assumes "dryRun c"
  shows "snd (create_app env c a s w) = w" "snd (get_app env c a w) = w" "snd (list_apps env c w) = w"
    "snd (create_machine env c a req w) = w" "snd (list_machines env c a w) = w" "snd (get_machine env c a m w) = w"
    "snd (update_machine env c a m req w) = w" "snd (start_machine env c a m w) = w"
    "snd (stop_machine env c a m w) = w" "snd (destroy_machine env c a m w) = w"
    "snd (allocate_ip env c a ireq w) = w" "snd (list_ips env c a w) = w"
  using assms by (simp_all add: client_ops)

text \<open>
  The environment with its exchanges written down: what the theorems about the requests a program
  makes are stated on.
\<close>

definition recorded :: "'w fly_env \<Rightarrow> ('w \<times> fly_request list) fly_env" where
  "recorded env =
     \<lparr>parse_url = parse_url env,
      http_do = (\<lambda>q (w, hist). case http_do env q w of (r, w) \<Rightarrow> (r, w, hist @ [q])),
      clock = (\<lambda>(w, hist). case clock env w of (t, w) \<Rightarrow> (t, w, hist)),
      pause = (\<lambda>d (w, hist). case pause env d w of (e, w) \<Rightarrow> (e, w, hist))\<rparr>"

text \<open>
  A recorded exchange is the exchange, with its request in the log if \<open>http.NewRequest\<close> accepts the
  URL; otherwise nothing is sent.
\<close>

definition accepted_request :: "'w fly_env \<Rightarrow> fly_request \<Rightarrow> bool" where
  "accepted_request env q \<longleftrightarrow> parse_url env (Req_URL q) = None"

lemma recorded_request:
  "do_request (recorded env) c meth path body (w, hist)
     = (case do_request env c meth path body w of
          (r, w') \<Rightarrow> (r, w', hist @ filter (accepted_request env) [fly_request_of c meth path body]))"
  by (auto simp: do_request_def recorded_def accepted_request_def fly_request_of_def split: option.split prod.split sum.split)

lemma recorded_decode:
  "do_decode (recorded env) c op meth path body dec zero (w, hist)
     = (case do_decode env c op meth path body dec zero w of
          (r, w') \<Rightarrow> (r, w', hist @ filter (accepted_request env) [fly_request_of c meth path body]))"
  by (simp only: do_decode_def recorded_request split: prod.split) (auto split: sum.split option.split)

lemma recorded_plain:
  "do_plain (recorded env) c op meth path (w, hist)
     = (case do_plain env c op meth path w of
          (r, w') \<Rightarrow> (r, w', hist @ filter (accepted_request env) [fly_request_of c meth path None]))"
  by (simp only: do_plain_def recorded_request split: prod.split) (auto split: sum.split)

lemma recorded_list_machines:
  "\<not> dryRun c \<Longrightarrow> list_machines (recorded env) c a (w, hist)
     = (case list_machines env c a w of
          (r, w') \<Rightarrow> (r, w', hist @ filter (accepted_request env) [fly_request_of c ''GET'' (machines_path a) None]))"
  by (simp only: list_machines_def recorded_decode if_False split: prod.split) (auto split: sum.split)

lemma recorded_update_machine:
  "\<not> dryRun c \<Longrightarrow> update_machine (recorded env) c a m req (w, hist)
     = (case update_machine env c a m req w of
          (r, w') \<Rightarrow> (r, w', hist @ filter (accepted_request env)
             [fly_request_of c ''POST'' (machine_path a m) (Some (machine_request_json req))]))"
  by (simp add: update_machine_def recorded_decode)

lemma recorded_destroy_machine:
  "\<not> dryRun c \<Longrightarrow> destroy_machine (recorded env) c a m (w, hist)
     = (case destroy_machine env c a m w of
          (r, w') \<Rightarrow> (r, w', hist @ filter (accepted_request env) [fly_request_of c ''DELETE'' (machine_path a m) None]))"
  by (simp add: destroy_machine_def recorded_plain)

section \<open>Relations every exchange keeps\<close>

text \<open>
  What each exchange, clock reading and pause of an environment keeps, every operation of the
  client keeps, and so does all that is built from them.
\<close>

locale fly_stepwise =
  fixes R :: "'w \<Rightarrow> 'w \<Rightarrow> bool" and env :: "'w fly_env"
  assumes stay: "R w w"
    and join: "R u v \<Longrightarrow> R v w \<Longrightarrow> R u w"
    and exchange: "http_do env q w = (r, w') \<Longrightarrow> R w w'"
    and reading: "clock env w = (t, w') \<Longrightarrow> R w w'"
    and pausing: "pause env d w = (e, w') \<Longrightarrow> R w w'"
begin

lemma request_keeps: "do_request env c meth path body w = (r, w') \<Longrightarrow> R w w'"
  by (auto simp: do_request_def stay exchange split: option.splits prod.splits sum.splits if_splits)

lemma decode_keeps: "do_decode env c op meth path body dec zero w = (r, w') \<Longrightarrow> R w w'"
  by (auto simp: do_decode_def dest: request_keeps split: prod.splits sum.splits option.splits)

lemma plain_keeps: "do_plain env c op meth path w = (e, w') \<Longrightarrow> R w w'"
  by (auto simp: do_plain_def dest: request_keeps split: prod.splits sum.splits)

lemma operation_keeps:
  "get_app env c a w = (ra, w') \<Longrightarrow> R w w'" "create_app env c a s w = (ra, w') \<Longrightarrow> R w w'"
  "list_machines env c a w = (rm, w') \<Longrightarrow> R w w'" "get_machine env c a m w = (r, w') \<Longrightarrow> R w w'"
  "create_machine env c a req w = (r, w') \<Longrightarrow> R w w'" "update_machine env c a m req w = (r, w') \<Longrightarrow> R w w'"
  "start_machine env c a m w = (e, w') \<Longrightarrow> R w w'" "destroy_machine env c a m w = (e, w') \<Longrightarrow> R w w'"
  "allocate_ip env c a ireq w = (ri, w') \<Longrightarrow> R w w'" "list_ips env c a w = (ris, w') \<Longrightarrow> R w w'"
  by (auto simp: client_ops stay dest: decode_keeps plain_keeps split: if_splits prod.splits sum.splits)

end

text \<open>The log of a recorded environment only grows.\<close>

interpretation fly_log: fly_stepwise "\<lambda>(w, h) (w', h'). \<exists>qs. h' = h @ qs" "recorded env" for env :: "'w fly_env"
  by unfold_locales (auto simp: recorded_def split: prod.splits)

text \<open>
  A recorded operation tracks the operation: same result, same world, and the requests it adds to
  the log are all of a kind.
\<close>

definition tracks ::
  "(fly_request \<Rightarrow> bool) \<Rightarrow> ('w \<times> fly_request list \<Rightarrow> 'r \<times> 'w \<times> fly_request list) \<Rightarrow> ('w \<Rightarrow> 'r \<times> 'w) \<Rightarrow> bool" where
  "tracks P f g \<longleftrightarrow>
     (\<forall>w hist. \<exists>qs. f (w, hist) = (fst (g w), snd (g w), hist @ qs) \<and> list_all P qs)"

lemma tracks_run:
  "tracks P f g \<Longrightarrow> g w = (r, w') \<Longrightarrow> \<exists>qs. f (w, hist) = (r, w', hist @ qs) \<and> list_all P qs"
proof -
  assume "tracks P f g" and g: "g w = (r, w')"
  then obtain qs where "f (w, hist) = (fst (g w), snd (g w), hist @ qs)" "list_all P qs"
    unfolding tracks_def by blast
  with g show ?thesis by auto
qed

lemma tracks_return: "tracks P (\<lambda>s. (r, s)) (\<lambda>w. (r, w))"
  by (simp add: tracks_def)

lemma tracks_bind:
  assumes "tracks P f g" "\<And>r. tracks P (h r) (k r)"
  shows "tracks P (\<lambda>s. case f s of (r, s) \<Rightarrow> h r s) (\<lambda>w. case g w of (r, w) \<Rightarrow> k r w)"
  unfolding tracks_def
proof (intro allI)
  fix w hist
  obtain qs where f: "f (w, hist) = (fst (g w), snd (g w), hist @ qs)" "list_all P qs"
    using assms(1) by (auto simp: tracks_def)
  obtain qs' where "h (fst (g w)) (snd (g w), hist @ qs)
      = (fst (k (fst (g w)) (snd (g w))), snd (k (fst (g w)) (snd (g w))), (hist @ qs) @ qs')" "list_all P qs'"
    using assms(2) unfolding tracks_def by blast
  with f show "\<exists>qs. (case f (w, hist) of (r, s) \<Rightarrow> h r s) =
      (fst (case g w of (r, w) \<Rightarrow> k r w), snd (case g w of (r, w) \<Rightarrow> k r w), hist @ qs) \<and> list_all P qs"
    by (intro exI [of _ "qs @ qs'"]) (simp add: case_prod_unfold)
qed

lemma tracks_sum:
  assumes "tracks P f g" "\<And>e. tracks P (h e) (k e)" "\<And>a. tracks P (h' a) (k' a)"
  shows "tracks P (\<lambda>s. case f s of (Inl e, s) \<Rightarrow> h e s | (Inr a, s) \<Rightarrow> h' a s)
                  (\<lambda>w. case g w of (Inl e, w) \<Rightarrow> k e w | (Inr a, w) \<Rightarrow> k' a w)"
proof -
  have "tracks P (\<lambda>s. case r of Inl e \<Rightarrow> h e s | Inr a \<Rightarrow> h' a s) (\<lambda>w. case r of Inl e \<Rightarrow> k e w | Inr a \<Rightarrow> k' a w)" for r
    using assms(2,3) by (cases r) simp_all
  from tracks_bind [OF assms(1) this] show ?thesis .
qed

lemma tracks_option:
  assumes "tracks P f g" "\<And>e. tracks P (h e) (k e)" "tracks P h' k'"
  shows "tracks P (\<lambda>s. case f s of (Some e, s) \<Rightarrow> h e s | (None, s) \<Rightarrow> h' s)
                  (\<lambda>w. case g w of (Some e, w) \<Rightarrow> k e w | (None, w) \<Rightarrow> k' w)"
proof -
  have "tracks P (\<lambda>s. case r of Some e \<Rightarrow> h e s | None \<Rightarrow> h' s) (\<lambda>w. case r of Some e \<Rightarrow> k e w | None \<Rightarrow> k' w)" for r
    using assms(2,3) by (cases r) simp_all
  from tracks_bind [OF assms(1) this] show ?thesis .
qed

lemma tracks_if:
  "tracks P f g \<Longrightarrow> tracks P f' g' \<Longrightarrow> tracks P (\<lambda>s. if b then f s else f' s) (\<lambda>w. if b then g w else g' w)"
  by (cases b) simp_all

lemma tracks_option_case:
  "tracks P h' k' \<Longrightarrow> (\<And>a. tracks P (h a) (k a)) \<Longrightarrow>
   tracks P (\<lambda>s. case x of None \<Rightarrow> h' s | Some a \<Rightarrow> h a s) (\<lambda>w. case x of None \<Rightarrow> k' w | Some a \<Rightarrow> k a w)"
  by (cases x) simp_all

lemmas tracks_rules = tracks_return tracks_sum tracks_option tracks_if tracks_option_case

lemma tracks_request:
  "P (fly_request_of c meth path body) \<Longrightarrow>
   tracks P (do_request (recorded env) c meth path body) (do_request env c meth path body)"
  unfolding tracks_def by (auto simp: do_request_def recorded_def split: option.split prod.split sum.split)

lemma tracks_decode:
  "P (fly_request_of c meth path body) \<Longrightarrow>
   tracks P (do_decode (recorded env) c op meth path body dec zero) (do_decode env c op meth path body dec zero)"
  unfolding do_decode_def by (intro tracks_rules tracks_request)

lemma tracks_plain:
  "P (fly_request_of c meth path None) \<Longrightarrow>
   tracks P (do_plain (recorded env) c op meth path) (do_plain env c op meth path)"
  unfolding do_plain_def by (intro tracks_rules tracks_request)

lemma tracks_get_app:
  "P (fly_request_of c ''GET'' (app_path a) None) \<Longrightarrow> tracks P (get_app (recorded env) c a) (get_app env c a)"
  unfolding get_app_def by (intro tracks_rules tracks_decode tracks_plain)

lemma tracks_create_app:
  "P (fly_request_of c ''POST'' (''/v1/apps'') (Some (create_app_json a org))) \<Longrightarrow> tracks P (create_app (recorded env) c a org) (create_app env c a org)"
  unfolding create_app_def by (intro tracks_rules tracks_decode tracks_plain)

lemma tracks_list_ips:
  "P (fly_request_of c ''GET'' (ips_path a) None) \<Longrightarrow> tracks P (list_ips (recorded env) c a) (list_ips env c a)"
  unfolding list_ips_def by (intro tracks_rules tracks_decode tracks_plain)

lemma tracks_allocate_ip:
  "P (fly_request_of c ''POST'' (ips_path a) (Some (ip_request_json req))) \<Longrightarrow> tracks P (allocate_ip (recorded env) c a req) (allocate_ip env c a req)"
  unfolding allocate_ip_def by (intro tracks_rules tracks_decode tracks_plain)

lemma tracks_list_machines:
  "P (fly_request_of c ''GET'' (machines_path a) None) \<Longrightarrow> tracks P (list_machines (recorded env) c a) (list_machines env c a)"
  unfolding list_machines_def by (intro tracks_rules tracks_decode tracks_plain)

lemma tracks_get_machine:
  "P (fly_request_of c ''GET'' (machine_path a m) None) \<Longrightarrow> tracks P (get_machine (recorded env) c a m) (get_machine env c a m)"
  unfolding get_machine_def by (intro tracks_rules tracks_decode tracks_plain)

lemma tracks_create_machine:
  "P (fly_request_of c ''POST'' (machines_path a) (Some (machine_request_json req))) \<Longrightarrow> tracks P (create_machine (recorded env) c a req) (create_machine env c a req)"
  unfolding create_machine_def by (intro tracks_rules tracks_decode tracks_plain)

lemma tracks_update_machine:
  "P (fly_request_of c ''POST'' (machine_path a m) (Some (machine_request_json req))) \<Longrightarrow> tracks P (update_machine (recorded env) c a m req) (update_machine env c a m req)"
  unfolding update_machine_def by (intro tracks_rules tracks_decode tracks_plain)

lemma tracks_start_machine:
  "P (fly_request_of c ''POST'' (machine_path a m @ ''/start'') None) \<Longrightarrow> tracks P (start_machine (recorded env) c a m) (start_machine env c a m)"
  unfolding start_machine_def by (intro tracks_rules tracks_decode tracks_plain)

lemma tracks_destroy_machine:
  "P (fly_request_of c ''DELETE'' (machine_path a m) None) \<Longrightarrow> tracks P (destroy_machine (recorded env) c a m) (destroy_machine env c a m)"
  unfolding destroy_machine_def by (intro tracks_rules tracks_decode tracks_plain)

lemmas tracks_ops = tracks_get_app tracks_create_app tracks_list_ips tracks_allocate_ip tracks_list_machines
  tracks_get_machine tracks_create_machine tracks_update_machine tracks_start_machine tracks_destroy_machine

text \<open>
  A clock that moves: \<open>T\<close> is the time of the world, which no exchange turns back and which a pause
  that was not cut short advances by its duration.
\<close>

definition progresses :: "('w \<Rightarrow> gotime) \<Rightarrow> 'w fly_env \<Rightarrow> bool" where
  "progresses T env \<longleftrightarrow>
     (\<forall>w t w'. clock env w = (t, w') \<longrightarrow> T w \<le> t \<and> t \<le> T w')
     \<and> (\<forall>q w r w'. http_do env q w = (r, w') \<longrightarrow> T w \<le> T w')
     \<and> (\<forall>d w w'. pause env d w = (None, w') \<longrightarrow> T w + d \<le> T w')"

lemma progresses_request: "progresses T env \<Longrightarrow> do_request env c meth path body w = (r, w') \<Longrightarrow> T w \<le> T w'"
  by (auto simp: progresses_def do_request_def split: option.splits prod.splits sum.splits if_splits)

lemma progresses_decode: "progresses T env \<Longrightarrow> do_decode env c op meth path body dec zero w = (r, w') \<Longrightarrow> T w \<le> T w'"
  by (auto simp: do_decode_def dest: progresses_request split: prod.splits sum.splits option.splits)

lemma progresses_clock: "progresses T env \<Longrightarrow> clock env w = (t, w') \<Longrightarrow> T w \<le> t \<and> t \<le> T w'"
  by (simp add: progresses_def)

lemma progresses_pause: "progresses T env \<Longrightarrow> pause env d w = (None, w') \<Longrightarrow> T w + d \<le> T w'"
  by (simp add: progresses_def)

lemma wait_loop_terminates:
  "progresses T env \<Longrightarrow> 0 < n \<Longrightarrow> deadline - T w \<le> (int n - 1) * (5 * second) \<Longrightarrow>
   wait_loop n env c appName machineID target timeout deadline w \<noteq> None"
proof (induction n arbitrary: w)
  case (Suc n)
  obtain now w1 where w1: "clock env w = (now, w1)" by fastforce
  obtain r w2 where w2: "do_decode env c (GetMachine appName machineID) ''GET''
      (wait_path appName machineID target timeout) None decode_machine zero_machine w1 = (r, w2)" by fastforce
  obtain e w3 where w3: "pause env (5 * second) w2 = (e, w3)" by fastforce
  have t: "T w \<le> now" "now \<le> T w1" "T w1 \<le> T w2"
    using progresses_clock [OF Suc.prems(1) w1] progresses_decode [OF Suc.prems(1) w2] by auto
  have "wait_loop n env c appName machineID target timeout deadline w3 \<noteq> None" if "now < deadline" "e = None"
  proof -
    have "T w2 + 5 * second \<le> T w3" using progresses_pause [OF Suc.prems(1)] w3 that by simp
    with t Suc.prems(3) have "deadline - T w3 \<le> (int n - 1) * (5 * second)"
      by (simp add: algebra_simps)
    moreover have "0 < n" using that t Suc.prems(3) by (cases n) auto
    ultimately show ?thesis using Suc by blast
  qed
  then show ?case by (auto simp: w1 w2 w3 Let_def split: option.split sum.split)
qed simp

section \<open>Properties\<close>

text \<open>
  Waiting for a machine returns: when the clock moves on, one poll for every five seconds of the
  timeout and one more are enough, whatever the service answers.
\<close>

lemma wait_for_machine_returns:
  assumes "progresses T env" "timeout \<le> int n * (5 * second)"
  shows "wait_for_machine (Suc n) env c appName machineID target timeout w \<noteq> None"
proof -
  obtain now w1 where w1: "clock env w = (now, w1)" by fastforce
  then have "now \<le> T w1" using progresses_clock [OF assms(1)] by auto
  then have "wait_loop (Suc n) env c appName machineID target timeout (time_add now timeout) w1 \<noteq> None"
    using assms by (intro wait_loop_terminates [of T]) (auto simp: time_add_def)
  then show ?thesis by (simp add: wait_for_machine_def w1 del: wait_loop.simps)
qed

text \<open>A service that never answers, in a world that is its clock.\<close>

definition silent_env :: "gotime fly_env" where
  "silent_env =
     \<lparr>parse_url = (\<lambda>u. None), http_do = (\<lambda>q w. (Inl ''connection refused'', w)), clock = (\<lambda>w. (w, w)),
      pause = (\<lambda>d w. (None, w + d))\<rparr>"

lemma silent_progresses: "progresses (\<lambda>w. w) silent_env"
  by (simp add: progresses_def silent_env_def)

lemma wait_for_machine_returns_witness:
  "wait_for_machine 13 silent_env (new_client ''t'' False) ''app'' ''m1'' ''started'' minute 0 \<noteq> None"
  using wait_for_machine_returns [OF silent_progresses, of minute 12 "new_client ''t'' False" "''app''" "''m1''" "''started''" 0]
  by (simp add: dur_units)

end
