(* ===== verification/Go_Bytes.thy ===== *)
theory Go_Bytes
  imports Prelude
begin

unbundle bit_operations_syntax

text \<open>
  Bytes: the big-endian integers of \<open>encoding/binary\<close>, read and written at a width of n bytes,
  and the conversion between strings and byte slices.
\<close>

section \<open>Big-endian words\<close>

text \<open>\<open>binary.BigEndian.PutUint\<close> and \<open>binary.BigEndian.Uint\<close> at a width of n bytes.\<close>

fun put_be :: "nat \<Rightarrow> 'a::len word \<Rightarrow> byte list" where
  "put_be 0 w = []"
| "put_be (Suc n) w = put_be n (drop_bit 8 w) @ [ucast w]"

fun get_be :: "'a::len word \<Rightarrow> byte list \<Rightarrow> 'a word" where
  "get_be acc [] = acc"
| "get_be acc (b # bs) = get_be (push_bit 8 acc OR ucast b) bs"

lemma length_put_be [simp]: "length (put_be n w) = n"
  by (induction n arbitrary: w) auto

lemma get_be_append: "get_be acc (xs @ ys) = get_be (get_be acc xs) ys"
  by (induction xs arbitrary: acc) auto

lemma push_drop_or_byte:
  fixes w :: "'a::len word"
  shows "push_bit 8 (drop_bit 8 w) OR ucast (ucast w :: byte) = w"
  by (rule bit_word_eqI) (auto simp: bit_simps)

lemma get_put_be_mask:
  fixes w :: "'a::len word"
  shows "get_be 0 (put_be n w) = take_bit (8 * n) w"
proof (induction n arbitrary: w)
  case 0
  then show ?case by simp
next
  case (Suc n)
  have "push_bit 8 (take_bit (8 * n) (drop_bit 8 w)) OR ucast (ucast w :: byte)
      = take_bit (8 * Suc n) w"
    by (rule bit_word_eqI) (auto simp: bit_simps)
  with Suc show ?case by (simp add: get_be_append)
qed

lemma get_put_be:
  fixes w :: "'a::len word"
  shows "LENGTH('a) \<le> 8 * n \<Longrightarrow> get_be 0 (put_be n w) = w"
  by (simp add: get_put_be_mask take_bit_word_eq_self)

text \<open>The other direction: reading a word back gives the bytes it was read from.\<close>

lemma bit_get_be: "bit (get_be 0 bs :: 'a::len word) i \<Longrightarrow> i < 8 * length bs"
proof (induction bs arbitrary: i rule: rev_induct)
  case Nil
  then show ?case by simp
next
  case (snoc b bs)
  from snoc.prems have "8 \<le> i \<and> bit (get_be 0 bs :: 'a word) (i - 8) \<or> bit b i"
    by (auto simp: get_be_append bit_simps)
  then show ?case using snoc.IH [of "i - 8"] bit_imp_le_length [of b i] by auto
qed

lemma put_get_be:
  "8 * length bs \<le> LENGTH('a) \<Longrightarrow> put_be (length bs) (get_be 0 bs :: 'a::len word) = bs"
proof (induction bs rule: rev_induct)
  case Nil
  then show ?case by simp
next
  case (snoc b bs)
  let ?g = "get_be 0 bs :: 'a word"
  have "drop_bit 8 (push_bit 8 ?g OR ucast b) = ?g"
  proof (rule bit_word_eqI)
    fix n
    have "\<not> bit b (n + 8)" using bit_imp_le_length [of b "n + 8"] by auto
    moreover have "bit ?g n \<Longrightarrow> n + 8 < LENGTH('a)" using snoc.prems bit_get_be [of bs n] by force
    ultimately show "bit (drop_bit 8 (push_bit 8 ?g OR ucast b)) n = bit ?g n"
      by (auto simp: bit_simps add.commute)
  qed
  moreover have "ucast (push_bit 8 ?g OR ucast b) = b"
    using snoc.prems by (intro bit_word_eqI) (auto simp: bit_simps)
  ultimately show ?case using snoc by (simp add: get_be_append)
qed

lemma unat_get_be_two: "unat (get_be 0 [a, b] :: u16) = 256 * unat a + unat b"
proof -
  have "push_bit 8 (ucast a :: u16) OR ucast b = push_bit 8 (ucast a) + ucast b"
    by (rule disjunctive_add_eq_or [symmetric]) (auto simp: bit_eq_iff bit_simps dest: bit_imp_le_length)
  moreover have "unat a < 256" "unat b < 256"
    using unsigned_less [of a, where ?'a = nat] unsigned_less [of b, where ?'a = nat] by simp_all
  moreover from this have "unat (ucast a :: u16) = unat a" "unat (ucast b :: u16) = unat b"
    by (simp_all add: unsigned_ucast_eq take_bit_nat_eq_self_iff)
  ultimately show ?thesis
    by (simp add: push_bit_eq_mult unat_word_ariths)
qed

section \<open>Strings as byte slices\<close>

definition bytes_of :: "string \<Rightarrow> byte list" where
  "bytes_of s = map (\<lambda>c. word_of_nat (of_char c)) s"

definition string_of :: "byte list \<Rightarrow> string" where
  "string_of bs = map (\<lambda>b. char_of (unat b)) bs"

lemma string_of_bytes [simp]: "string_of (bytes_of s) = s"
  by (simp add: string_of_def bytes_of_def o_def unat_of_nat map_idI)

lemma bytes_of_inj: "bytes_of s = bytes_of t \<Longrightarrow> s = t"
  by (metis string_of_bytes)

lemma length_bytes_of [simp]: "length (bytes_of s) = length s"
  by (simp add: bytes_of_def)

end
