(* ===== verification/Go_Crypto.thy ===== *)
theory Go_Crypto
  imports Go_Bytes Go_Strings
begin

unbundle bit_operations_syntax

text \<open>
  The cryptographic primitives the credentials use, as the standards define them and Go's
  library implements them: SHA-1 (FIPS 180-4), HMAC (RFC 2104) and base64 (RFC 4648) with the
  standard and the URL alphabet, padded or raw.  They compute, so that a credential can be
  evaluated; the lemmas are about lengths.
\<close>

section \<open>SHA-1\<close>

definition rotl :: "nat \<Rightarrow> u32 \<Rightarrow> u32" where
  "rotl n w = push_bit n w OR drop_bit (32 - n) w"

definition sha1_pad :: "byte list \<Rightarrow> byte list" where
  "sha1_pad msg =
     msg @ 0x80 # replicate (nat ((55 - int (length msg)) mod 64)) 0
       @ put_be 8 (word_of_nat (8 * length msg) :: u64)"

fun chunks_of :: "nat \<Rightarrow> nat \<Rightarrow> 'a list \<Rightarrow> 'a list list" where
  "chunks_of n 0 xs = []"
| "chunks_of n (Suc k) xs = take n xs # chunks_of n k (drop n xs)"

text \<open>The message schedule, newest word first.\<close>

fun sha1_expand :: "nat \<Rightarrow> u32 list \<Rightarrow> u32 list" where
  "sha1_expand 0 ws = ws"
| "sha1_expand (Suc n) ws =
     sha1_expand n (rotl 1 (ws ! 2 XOR ws ! 7 XOR ws ! 13 XOR ws ! 15) # ws)"

definition sha1_schedule :: "byte list \<Rightarrow> u32 list" where
  "sha1_schedule block = rev (sha1_expand 64 (rev (map (get_be 0) (chunks_of 4 16 block))))"

type_synonym sha1_state = "u32 \<times> u32 \<times> u32 \<times> u32 \<times> u32"

fun sha1_round :: "nat \<times> u32 \<Rightarrow> sha1_state \<Rightarrow> sha1_state" where
  "sha1_round (t, w) (a, b, c, d, e) =
     (let (f, k) =
        (if t < 20 then ((b AND c) OR (NOT b AND d), 0x5A827999)
         else if t < 40 then (b XOR c XOR d, 0x6ED9EBA1)
         else if t < 60 then ((b AND c) OR (b AND d) OR (c AND d), 0x8F1BBCDC)
         else (b XOR c XOR d, 0xCA62C1D6))
      in (rotl 5 a + f + e + k + w, a, rotl 30 b, c, d))"

fun sha1_block :: "byte list \<Rightarrow> sha1_state \<Rightarrow> sha1_state" where
  "sha1_block block (h0, h1, h2, h3, h4) =
     (let (a, b, c, d, e) =
        fold sha1_round (zip [0..<80] (sha1_schedule block)) (h0, h1, h2, h3, h4)
      in (h0 + a, h1 + b, h2 + c, h3 + d, h4 + e))"

definition sha1 :: "byte list \<Rightarrow> byte list" where
  "sha1 msg =
     (let p = sha1_pad msg;
          (h0, h1, h2, h3, h4) = fold sha1_block (chunks_of 64 (length p div 64) p)
            (0x67452301, 0xEFCDAB89, 0x98BADCFE, 0x10325476, 0xC3D2E1F0)
      in put_be 4 h0 @ put_be 4 h1 @ put_be 4 h2 @ put_be 4 h3 @ put_be 4 h4)"

lemma length_sha1 [simp]: "length (sha1 msg) = 20"
  by (simp add: sha1_def Let_def split: prod.split)

lemma sha1_pad_blocks: "length (sha1_pad msg) mod 64 = 0"
proof -
  let ?z = "(55 - int (length msg)) mod 64"
  have "int (length (sha1_pad msg)) = int (length msg) + 9 + ?z"
    by (simp add: sha1_pad_def)
  also have "\<dots> mod 64 = 0"
    by (simp add: mod_simps)
  finally have "int (length (sha1_pad msg)) mod 64 = 0" .
  then have "int (length (sha1_pad msg) mod 64) = 0" by (simp add: zmod_int)
  then show ?thesis by (simp only: of_nat_eq_0_iff)
qed

section \<open>HMAC\<close>

definition hmac_key :: "byte list \<Rightarrow> byte list" where
  "hmac_key key =
     (let k = (if 64 < length key then sha1 key else key) in k @ replicate (64 - length k) 0)"

definition hmac_sha1 :: "byte list \<Rightarrow> byte list \<Rightarrow> byte list" where
  "hmac_sha1 key msg =
     (let k = hmac_key key
      in sha1 (map (\<lambda>b. b XOR 0x5C) k @ sha1 (map (\<lambda>b. b XOR 0x36) k @ msg)))"

lemma length_hmac_key [simp]: "length (hmac_key key) = 64"
  by (simp add: hmac_key_def Let_def)

lemma length_hmac [simp]: "length (hmac_sha1 key msg) = 20"
  by (simp add: hmac_sha1_def Let_def)

section \<open>Base64\<close>

definition std_alphabet :: string where
  "std_alphabet = ''ABCDEFGHIJKLMNOPQRSTUVWXYZabcdefghijklmnopqrstuvwxyz0123456789+/''"

definition url_alphabet :: string where
  "url_alphabet = ''ABCDEFGHIJKLMNOPQRSTUVWXYZabcdefghijklmnopqrstuvwxyz0123456789-_''"

fun base64 :: "string \<Rightarrow> bool \<Rightarrow> byte list \<Rightarrow> string" where
  "base64 al pad [] = []"
| "base64 al pad [a] =
     [al ! (unat a div 4), al ! (unat a mod 4 * 16)] @ (if pad then ''=='' else [])"
| "base64 al pad [a, b] =
     [al ! (unat a div 4), al ! (unat a mod 4 * 16 + unat b div 16), al ! (unat b mod 16 * 4)]
       @ (if pad then ''='' else [])"
| "base64 al pad (a # b # c # bs) =
     [al ! (unat a div 4), al ! (unat a mod 4 * 16 + unat b div 16),
      al ! (unat b mod 16 * 4 + unat c div 64), al ! (unat c mod 64)]
       @ base64 al pad bs"

definition base64_std :: "byte list \<Rightarrow> string" where
  "base64_std = base64 std_alphabet True"

definition base64_url :: "byte list \<Rightarrow> string" where
  "base64_url = base64 url_alphabet True"

definition base64_raw_url :: "byte list \<Rightarrow> string" where
  "base64_raw_url = base64 url_alphabet False"

lemma length_base64_padded: "length (base64 al True bs) = 4 * ((length bs + 2) div 3)"
proof (induction al True bs rule: base64.induct)
  case (4 al a b c bs)
  have "(length (a # b # c # bs) + 2) div 3 = (length bs + 2) div 3 + 1" by simp
  with 4 show ?case by simp
qed simp_all

lemma length_base64_raw: "length (base64 al False bs) = (4 * length bs + 2) div 3"
  by (induction al False bs rule: base64.induct) auto

lemma length_base64_std: "length (base64_std bs) = 4 * ((length bs + 2) div 3)"
  by (simp add: base64_std_def length_base64_padded)

lemma length_base64_raw_url: "length (base64_raw_url bs) = (4 * length bs + 2) div 3"
  by (simp add: base64_raw_url_def length_base64_raw)

section \<open>Random bytes\<close>

text \<open>
  \<open>crypto/rand.Read\<close> fills a slice of n bytes or fails: a function of n and of the state of the
  random source.
\<close>

type_synonym 'r rand_source = "nat \<Rightarrow> 'r \<Rightarrow> (string + byte list) \<times> 'r"

definition rand_fills :: "'r rand_source \<Rightarrow> bool" where
  "rand_fills rnd \<longleftrightarrow> (\<forall>n r bs r'. rnd n r = (Inr bs, r') \<longrightarrow> length bs = n)"

lemma rand_fillsD: "rand_fills rnd \<Longrightarrow> rnd n r = (Inr bs, r') \<Longrightarrow> length bs = n"
  by (auto simp: rand_fills_def)

end
