(* ===== verification/Go_Json.thy ===== *)
theory Go_Json
  imports Http
begin

text \<open>
  The text \<open>encoding/json\<close> prints for strings and for maps of strings, where the program uses the
  bytes themselves: ASCII is escaped with \<open>Marshal\<close>'s table (the HTML characters included), bytes
  that are no UTF-8 become the replacement character, and U+2028 and U+2029 are escaped.
\<close>

section \<open>UTF-8\<close>

definition byte_in :: "nat \<Rightarrow> nat \<Rightarrow> char \<Rightarrow> bool" where
  "byte_in lo hi ch \<longleftrightarrow> lo \<le> of_char ch \<and> of_char ch \<le> (hi :: nat)"

text \<open>The length of the code point a string begins with, zero when its first byte begins none.\<close>

fun rune_len :: "string \<Rightarrow> nat" where
  "rune_len s =
     (let cont = byte_in 0x80 0xBF
      in case s of
        [] \<Rightarrow> 0
      | a # r \<Rightarrow>
          if byte_in 0 0x7F a then 1
          else if byte_in 0xC2 0xDF a then (case r of b # _ \<Rightarrow> if cont b then 2 else 0 | _ \<Rightarrow> 0)
          else if byte_in 0xE0 0xEF a then
            (case r of
               b # c # _ \<Rightarrow>
                 if byte_in (if a = CHR 0xE0 then 0xA0 else 0x80) (if a = CHR 0xED then 0x9F else 0xBF) b \<and> cont c
                 then 3 else 0
             | _ \<Rightarrow> 0)
          else if byte_in 0xF0 0xF4 a then
            (case r of
               b # c # d # _ \<Rightarrow>
                 if byte_in (if a = CHR 0xF0 then 0x90 else 0x80) (if a = CHR 0xF4 then 0x8F else 0xBF) b \<and> cont c \<and> cont d
                 then 4 else 0
             | _ \<Rightarrow> 0)
          else 0)"

declare rune_len.simps [simp del]

section \<open>Strings\<close>

definition hex_lower :: "nat \<Rightarrow> char" where
  "hex_lower d = char_of (if d < 10 then 48 + d else 87 + d)"

definition backslash :: char where "backslash = CHR 0x5C"

definition quote_mark :: char where "quote_mark = CHR 0x22"

definition escape_ascii :: "char \<Rightarrow> string" where
  "escape_ascii ch =
     (if ch = backslash \<or> ch = quote_mark then [backslash, ch]
      else if ch = CHR 0x08 then [backslash, CHR ''b'']
      else if ch = CHR 0x0C then [backslash, CHR ''f'']
      else if ch = CHR 0x0A then [backslash, CHR ''n'']
      else if ch = CHR 0x0D then [backslash, CHR ''r'']
      else if ch = CHR 0x09 then [backslash, CHR ''t'']
      else if byte_in 0 0x1F ch \<or> ch \<in> {CHR ''<'', CHR ''>'', CHR ''&''}
      then [backslash] @ ''u00'' @ [hex_lower (of_char ch div 16), hex_lower (of_char ch mod 16)]
      else [ch])"

function json_chars :: "string \<Rightarrow> string" where
  "json_chars s =
     (case s of
        [] \<Rightarrow> []
      | a # r \<Rightarrow>
          if byte_in 0 0x7F a then escape_ascii a @ json_chars r
          else if rune_len s = 0 then [backslash] @ ''ufffd'' @ json_chars r
          else if take 3 s = [CHR 0xE2, CHR 0x80, CHR 0xA8] then [backslash] @ ''u2028'' @ json_chars (drop 3 s)
          else if take 3 s = [CHR 0xE2, CHR 0x80, CHR 0xA9] then [backslash] @ ''u2029'' @ json_chars (drop 3 s)
          else take (rune_len s) s @ json_chars (drop (rune_len s) s))"
  by pat_completeness auto
termination by (relation "measure length") (auto split: if_splits)

declare json_chars.simps [simp del]

definition json_quote :: "string \<Rightarrow> string" where
  "json_quote s = [quote_mark] @ json_chars s @ [quote_mark]"

text \<open>\<open>json.Marshal\<close> of a map of strings whose entries are listed by increasing key.\<close>

definition json_map_text :: "(string \<times> string) list \<Rightarrow> string" where
  "json_map_text kvs =
     ''{'' @ join_with '','' (map (\<lambda>(k, v). json_quote k @ '':'' @ json_quote v) kvs) @ ''}''"

text \<open>A string of plain printable characters is printed as it is.\<close>

definition json_plain :: "char \<Rightarrow> bool" where
  "json_plain ch \<longleftrightarrow> byte_in 0x20 0x7E ch \<and> ch \<notin> {backslash, quote_mark, CHR ''<'', CHR ''>'', CHR ''&''}"

lemma escape_plain: "json_plain ch \<Longrightarrow> escape_ascii ch = [ch]"
  by (auto simp: json_plain_def escape_ascii_def byte_in_def)

lemma json_chars_plain: "list_all json_plain s \<Longrightarrow> json_chars s = s"
proof (induction s)
  case (Cons a s)
  moreover from Cons.prems have "byte_in 0 0x7F a" by (simp add: json_plain_def byte_in_def)
  ultimately show ?case by (simp add: json_chars.simps [of "a # s"] escape_plain)
qed (simp add: json_chars.simps)

end
