(* ===== verification/Container_Image.thy ===== *)
theory Container_Image
  imports Fly_Client Go_Crypto Go_Json
begin

text \<open>
  The publisher of container images (\<open>internal/containerimage/docker.go\<close>): the build context is
  collected from a directory, sent to the Docker Engine to build, and the image is pushed to Fly's
  registry.  A directory tree is a value, read when the walk starts; the Docker Engine is a
  function on a world \<open>'w\<close>; a tar archive is the list of its entries.
\<close>

section \<open>The build context\<close>

text \<open>
  What a directory holds: regular files and directories, which may fail to open or read, entries
  of other kinds (links, sockets, devices), and entries whose \<open>Info\<close> fails.  The entries of a
  directory are listed in the order of \<open>os.ReadDir\<close>.
\<close>

datatype entry =
    RegularFile string
  | UnreadableFile string
  | Directory "(string \<times> entry) list"
  | UnreadableDir string
  | OtherKind
  | InfoFails string

text \<open>A tar entry: its name and, for a file, its contents.\<close>

type_synonym tar_entry = "string \<times> string option"

definition should_skip_context_path :: "string \<Rightarrow> string \<Rightarrow> bool" where
  "should_skip_context_path rel name \<longleftrightarrow>
     (if name = ''.git'' \<or> name = ''turnfly'' \<or> name = ''.env'' then True
      else if has_suffix name ''.test'' \<or> has_suffix name ''.out'' \<or> has_suffix name ''.coverprofile'' then True
      else if has_prefix rel ''coverage.'' \<or> rel = ''profile.cov'' then True
      else False)"

definition slash_join :: "string list \<Rightarrow> string" where
  "slash_join = join_with ''/''"

text \<open>The callback of the walk and the walk below it, for an entry under the directory \<open>parent\<close>.\<close>

fun tar_walk :: "string list \<Rightarrow> string \<Rightarrow> entry \<Rightarrow> string + tar_entry list"
and tar_walk_all :: "string list \<Rightarrow> (string \<times> entry) list \<Rightarrow> string + tar_entry list" where
  "tar_walk parent name e =
     (let rel = slash_join (parent @ [name])
      in if should_skip_context_path rel name then Inr []
         else case e of
           InfoFails er \<Rightarrow> Inl er
         | OtherKind \<Rightarrow> Inr []
         | RegularFile s \<Rightarrow> Inr [(rel, Some s)]
         | UnreadableFile er \<Rightarrow> Inl er
         | UnreadableDir er \<Rightarrow> Inl er
         | Directory es \<Rightarrow> bind_res (tar_walk_all (parent @ [name]) es) (\<lambda>ts. Inr ((rel, None) # ts)))"
| "tar_walk_all parent [] = Inr []"
| "tar_walk_all parent ((name, e) # es) =
     bind_res (tar_walk parent name e) (\<lambda>ts. bind_res (tar_walk_all parent es) (\<lambda>us. Inr (ts @ us)))"

text \<open>The callback passes over the root itself; a root that is no directory gives an empty archive.\<close>

definition tar_root :: "entry \<Rightarrow> string + tar_entry list" where
  "tar_root e =
     (case e of
        Directory es \<Rightarrow> tar_walk_all [] es
      | UnreadableDir er \<Rightarrow> Inl er
      | _ \<Rightarrow> Inr [])"

section \<open>The Docker Engine\<close>

record docker_request =
  Docker_URL :: string
  Docker_Header :: "(string \<times> string) list"
  Docker_Body :: "tar_entry list option"

text \<open>A response body: its bytes and the error its reading ends with, if any.\<close>

record docker_response =
  Docker_Status :: int
  Docker_Text :: string
  Docker_End :: "string option"

text \<open>
  \<open>context_root\<close> resolves a directory name and reads the tree there, \<open>json_value\<close> parses a JSON
  text, \<open>new_request\<close> is \<open>http.NewRequest\<close>'s check of a URL and \<open>docker_do\<close> one POST over the
  socket of the given path.
\<close>

record 'w docker_env =
  context_root :: "string \<Rightarrow> string + entry"
  json_value :: "string \<Rightarrow> json option"
  new_request :: "string \<Rightarrow> string option"
  docker_do :: "string \<Rightarrow> docker_request \<Rightarrow> 'w \<Rightarrow> (string + docker_response) \<times> 'w"

record docker_publisher =
  Docker_Base :: string
  Docker_Socket :: string

text \<open>The output is the text written so far, \<open>None\<close> for a nil writer.\<close>

record publish_config =
  ContextDir :: string
  Dockerfile :: string
  PublishImage :: string
  PublishToken :: string

datatype stream_error = DockerError string | TokenTooLong | ReadFailed string

datatype publish_error =
    UnsupportedHost string
  | PublishImageRequired
  | TokenRequired
  | NotInRegistry string
  | ContextFailed string
  | BuildNewRequest string
  | BuildTransport string
  | BuildStatus int string
  | BuildStream stream_error
  | PushNewRequest string
  | PushTransport string
  | PushStatus int string
  | PushStream stream_error

definition defaultDockerHost :: string where
  "defaultDockerHost = ''unix:///var/run/docker.sock''"

definition flyRegistry :: string where
  "flyRegistry = ''registry.fly.io''"

definition new_docker_publisher :: "(string \<Rightarrow> string) \<Rightarrow> string \<Rightarrow> publish_error + docker_publisher" where
  "new_docker_publisher getenv dockerHost =
     (let host = (if dockerHost = [] then getenv ''DOCKER_HOST'' else dockerHost);
          host = (if host = [] then defaultDockerHost else host)
      in if \<not> has_prefix host ''unix://'' then Inl (UnsupportedHost host)
         else Inr \<lparr>Docker_Base = ''http://docker'', Docker_Socket = trim_prefix host ''unix://''\<rparr>)"

definition split_image_tag :: "string \<Rightarrow> string \<times> string" where
  "split_image_tag img =
     (let lastSlash = last_index CHR ''/'' img; lastColon = last_index CHR '':'' img
      in if lastSlash < lastColon then (take (nat lastColon) img, drop (nat lastColon + 1) img)
         else (img, ''latest''))"

definition registry_auth_header :: "string \<Rightarrow> string" where
  "registry_auth_header token =
     base64_url (bytes_of (json_map_text
       [(''password'', token), (''serveraddress'', flyRegistry), (''username'', ''x'')]))"

section \<open>The stream of progress messages\<close>

record docker_msg =
  Msg_Stream :: string
  Msg_Status :: string
  Msg_Error :: string

definition zero_msg :: docker_msg where
  "zero_msg = \<lparr>Msg_Stream = [], Msg_Status = [], Msg_Error = []\<rparr>"

definition decode_docker_msg :: "json \<Rightarrow> docker_msg \<Rightarrow> unit + docker_msg" where
  "decode_docker_msg = decode_struct [''stream'', ''status'', ''error''] (\<lambda>n v m.
     if n = ''stream'' then bind_res (decode_string v (Msg_Stream m)) (\<lambda>s. Inr (m\<lparr>Msg_Stream := s\<rparr>))
     else if n = ''status'' then bind_res (decode_string v (Msg_Status m)) (\<lambda>s. Inr (m\<lparr>Msg_Status := s\<rparr>))
     else bind_res (decode_string v (Msg_Error m)) (\<lambda>s. Inr (m\<lparr>Msg_Error := s\<rparr>)))"

definition newline :: char where "newline = CHR 0x0A"

text \<open>
  The lines of a text as \<open>bufio.ScanLines\<close> cuts them: a last line without a newline counts, an
  empty one does not, and one carriage return before a newline is dropped.  A line that does not
  fit the buffer with its newline ends the scan.
\<close>

definition scan_lines :: "string \<Rightarrow> string list" where
  "scan_lines s = (let ps = split_all newline s in if last ps = [] then butlast ps else ps)"

definition drop_cr :: "string \<Rightarrow> string" where
  "drop_cr l = (if l \<noteq> [] \<and> last l = CHR 0x0D then butlast l else l)"

definition max_token :: nat where
  "max_token = 4 * 1024 * 1024"

datatype line_effect = Fails string | Prints string

definition line_effect :: "(string \<Rightarrow> json option) \<Rightarrow> string \<Rightarrow> line_effect" where
  "line_effect parse line =
     (case decode_body decode_docker_msg zero_msg (parse line) of
        Some m \<Rightarrow>
          if Msg_Error m \<noteq> [] then Fails (Msg_Error m)
          else if Msg_Stream m \<noteq> [] then Prints (Msg_Stream m)
          else if Msg_Status m \<noteq> [] then Prints (Msg_Status m @ [newline])
          else Prints []
      | None \<Rightarrow> Prints (line @ [newline]))"

fun copy_lines :: "(string \<Rightarrow> json option) \<Rightarrow> string option \<Rightarrow> string list \<Rightarrow> string \<Rightarrow> stream_error option \<times> string" where
  "copy_lines parse fin [] out = (map_option ReadFailed fin, out)"
| "copy_lines parse fin (l # ls) out =
     (if max_token < length l + 1 then (Some TokenTooLong, out)
      else case line_effect parse (drop_cr l) of
        Fails e \<Rightarrow> (Some (DockerError e), out)
      | Prints t \<Rightarrow> copy_lines parse fin ls (out @ t))"

definition copy_docker_stream ::
  "(string \<Rightarrow> json option) \<Rightarrow> docker_response \<Rightarrow> string option \<Rightarrow> stream_error option \<times> string option" where
  "copy_docker_stream parse resp output =
     (case copy_lines parse (Docker_End resp) (scan_lines (Docker_Text resp)) [] of
        (e, t) \<Rightarrow> (e, map_option (\<lambda>out. out @ t) output))"

section \<open>Build and push\<close>

definition build_request :: "docker_publisher \<Rightarrow> publish_config \<Rightarrow> tar_entry list \<Rightarrow> docker_request" where
  "build_request p cfg body =
     \<lparr>Docker_URL = Docker_Base p @ ''/build?'' @ ''dockerfile='' @ query_escape (Dockerfile cfg) @ ''&rm=1&t=''
        @ query_escape (PublishImage cfg),
      Docker_Header = [(''Content-Type'', ''application/x-tar'')], Docker_Body = Some body\<rparr>"

definition push_request :: "docker_publisher \<Rightarrow> publish_config \<Rightarrow> docker_request" where
  "push_request p cfg =
     (case split_image_tag (PublishImage cfg) of (name, tag) \<Rightarrow>
        \<lparr>Docker_URL = Docker_Base p @ ''/images/'' @ name @ ''/push?'' @ ''tag='' @ query_escape tag,
         Docker_Header = [(''X-Registry-Auth'', registry_auth_header (PublishToken cfg))], Docker_Body = None\<rparr>)"

definition docker_build ::
  "'w docker_env \<Rightarrow> docker_publisher \<Rightarrow> publish_config \<Rightarrow> tar_entry list \<Rightarrow> string option \<times> 'w
   \<Rightarrow> publish_error option \<times> string option \<times> 'w" where
  "docker_build env p cfg body = (\<lambda>(output, w).
     let req = build_request p cfg body
     in case new_request env (Docker_URL req) of
          Some e \<Rightarrow> (Some (BuildNewRequest e), output, w)
        | None \<Rightarrow>
            (case docker_do env (Docker_Socket p) req w of
               (Inl e, w) \<Rightarrow> (Some (BuildTransport e), output, w)
             | (Inr resp, w) \<Rightarrow>
                 if 400 \<le> Docker_Status resp
                 then (Some (BuildStatus (Docker_Status resp) (trim_space (Docker_Text resp))), output, w)
                 else (case copy_docker_stream (json_value env) resp output of
                         (Some e, output) \<Rightarrow> (Some (BuildStream e), output, w)
                       | (None, output) \<Rightarrow> (None, output, w))))"

definition docker_push ::
  "'w docker_env \<Rightarrow> docker_publisher \<Rightarrow> publish_config \<Rightarrow> string option \<times> 'w
   \<Rightarrow> publish_error option \<times> string option \<times> 'w" where
  "docker_push env p cfg = (\<lambda>(output, w).
     let req = push_request p cfg
     in case new_request env (Docker_URL req) of
          Some e \<Rightarrow> (Some (PushNewRequest e), output, w)
        | None \<Rightarrow>
            (case docker_do env (Docker_Socket p) req w of
               (Inl e, w) \<Rightarrow> (Some (PushTransport e), output, w)
             | (Inr resp, w) \<Rightarrow>
                 if 400 \<le> Docker_Status resp
                 then (Some (PushStatus (Docker_Status resp) (trim_space (Docker_Text resp))), output, w)
                 else (case copy_docker_stream (json_value env) resp output of
                         (Some e, output) \<Rightarrow> (Some (PushStream e), output, w)
                       | (None, output) \<Rightarrow> (None, output, w))))"

definition publish_defaults :: "publish_config \<Rightarrow> publish_config" where
  "publish_defaults cfg =
     (let cfg = (if ContextDir cfg = [] then cfg\<lparr>ContextDir := ''.''\<rparr> else cfg)
      in if Dockerfile cfg = [] then cfg\<lparr>Dockerfile := ''Dockerfile''\<rparr> else cfg)"

definition check_publish :: "publish_config \<Rightarrow> publish_error option" where
  "check_publish cfg =
     (if PublishImage cfg = [] then Some PublishImageRequired
      else if PublishToken cfg = [] then Some TokenRequired
      else if \<not> has_prefix (PublishImage cfg) (flyRegistry @ ''/'') then Some (NotInRegistry (PublishImage cfg))
      else None)"

definition tar_build_context :: "'w docker_env \<Rightarrow> string \<Rightarrow> string + tar_entry list" where
  "tar_build_context env dir = bind_res (context_root env dir) tar_root"

definition build_and_push ::
  "'w docker_env \<Rightarrow> docker_publisher \<Rightarrow> publish_config \<Rightarrow> string option \<times> 'w
   \<Rightarrow> publish_error option \<times> string option \<times> 'w" where
  "build_and_push env p cfg = (\<lambda>(output, w).
     let cfg = publish_defaults cfg
     in case check_publish cfg of
          Some e \<Rightarrow> (Some e, output, w)
        | None \<Rightarrow>
            (case tar_build_context env (ContextDir cfg) of
               Inl e \<Rightarrow> (Some (ContextFailed e), output, w)
             | Inr contextTar \<Rightarrow>
                 (case docker_build env p cfg contextTar (output, w) of
                    (Some e, s) \<Rightarrow> (Some e, s)
                  | (None, s) \<Rightarrow> docker_push env p cfg s)))"

section \<open>Image references\<close>

lemma last_index_bound: "last_index c s < int (length s)"
proof (cases "c \<in> set s")
  case True
  then obtain a b where "s = a @ c # b" "c \<notin> set b" by (meson split_list_last)
  then show ?thesis by (simp add: last_index_last)
qed (simp add: last_index_absent)

lemma last_index_ge: "- 1 \<le> last_index c s"
proof (cases "c \<in> set s")
  case True
  then obtain a b where "s = a @ c # b" "c \<notin> set b" by (meson split_list_last)
  then show ?thesis by (simp add: last_index_last)
qed (simp add: last_index_absent)

text \<open>What follows the last slash.\<close>

definition last_segment :: "string \<Rightarrow> string" where
  "last_segment s = rev (takeWhile (\<lambda>x. x \<noteq> CHR ''/'') (rev s))"

lemma last_segment_mem:
  assumes "d \<noteq> CHR ''/''" and "d \<notin> set b"
  shows "d \<in> set (last_segment (a @ d # b)) \<longleftrightarrow> CHR ''/'' \<notin> set b"
proof (cases "CHR ''/'' \<in> set b")
  case True
  then have "takeWhile (\<lambda>x. x \<noteq> CHR ''/'') (rev b @ d # rev a) = takeWhile (\<lambda>x. x \<noteq> CHR ''/'') (rev b)"
    by (intro takeWhile_append1 [of "CHR ''/''"]) auto
  with True assms show ?thesis
    by (auto simp: last_segment_def dest: set_takeWhileD)
next
  case False
  then show ?thesis using assms by (auto simp: last_segment_def takeWhile_append)
qed

lemma last_segment_set: "set (last_segment s) \<subseteq> set s"
  by (auto simp: last_segment_def dest: set_takeWhileD)

lemma slash_before_colon:
  assumes "CHR '':'' \<notin> set b"
  shows "last_index CHR ''/'' (a @ CHR '':'' # b) < int (length a) \<longleftrightarrow> CHR ''/'' \<notin> set b"
proof (cases "CHR ''/'' \<in> set b")
  case True
  then obtain u v where "b = u @ CHR ''/'' # v" "CHR ''/'' \<notin> set v" by (meson split_list_last)
  then show ?thesis using last_index_last [of "CHR ''/''" v "a @ CHR '':'' # u"] by simp
next
  case False
  then have "last_index CHR ''/'' (a @ CHR '':'' # b) = last_index CHR ''/'' a"
    by (simp add: last_index_def last_index_from_append last_index_from_absent)
  with False last_index_bound show ?thesis by simp
qed

text \<open>
  An image reference is cut at the colon of its last path segment: the two parts and the colon
  give the reference back and the tag is no path; a reference without such a colon (a registry's
  port is none) is taken whole, with the tag latest.
\<close>

lemma split_image_tag_exact:
  "split_image_tag img = (name, tag) \<longleftrightarrow>
     (img = name @ '':'' @ tag \<and> set tag \<inter> {CHR '':'', CHR ''/''} = {})
     \<or> (img = name \<and> tag = ''latest'' \<and> CHR '':'' \<notin> set (last_segment img))"
proof (cases "CHR '':'' \<in> set img")
  case True
  then obtain a b where ab: "img = a @ CHR '':'' # b" "CHR '':'' \<notin> set b" by (meson split_list_last)
  have uniq: "\<And>x y. img = x @ CHR '':'' # y \<Longrightarrow> CHR '':'' \<notin> set y \<Longrightarrow> x = a \<and> y = b"
  proof -
    fix x y assume xy: "img = x @ CHR '':'' # y" "CHR '':'' \<notin> set y"
    then have "length x = length a" using ab last_index_last by (metis of_nat_eq_iff)
    with xy(1) ab(1) show "x = a \<and> y = b" by simp
  qed
  have val: "split_image_tag img = (if CHR ''/'' \<notin> set b then (a, b) else (img, ''latest''))"
    using ab(1) last_index_last [OF ab(2), of a] slash_before_colon [OF ab(2), of a]
    by (simp add: split_image_tag_def)
  have seg: "CHR '':'' \<in> set (last_segment img) \<longleftrightarrow> CHR ''/'' \<notin> set b"
    using last_segment_mem [of "CHR '':''" b a] ab by simp
  have tagged: "img = name @ '':'' @ tag \<and> set tag \<inter> {CHR '':'', CHR ''/''} = {}
      \<longleftrightarrow> name = a \<and> tag = b \<and> CHR ''/'' \<notin> set b"
    using uniq [of name tag] ab by auto
  show ?thesis
    unfolding val seg tagged by auto
next
  case False
  then have val: "split_image_tag img = (img, ''latest'')"
    using last_index_ge [of "CHR ''/''" img] by (simp add: split_image_tag_def last_index_absent not_less)
  have "CHR '':'' \<notin> set (last_segment img)" "img \<noteq> name @ '':'' @ tag"
    using False last_segment_set by auto
  then show ?thesis unfolding val by auto
qed

section \<open>The stream\<close>

text \<open>What a line says, if it is a message, and what is shown of one that reports no error.\<close>

definition message_of :: "(string \<Rightarrow> json option) \<Rightarrow> string \<Rightarrow> docker_msg option" where
  "message_of parse l = decode_body decode_docker_msg zero_msg (parse (drop_cr l))"

definition reports_error :: "(string \<Rightarrow> json option) \<Rightarrow> string \<Rightarrow> bool" where
  "reports_error parse l \<longleftrightarrow> (case message_of parse l of None \<Rightarrow> False | Some m \<Rightarrow> Msg_Error m \<noteq> [])"

definition shown :: "(string \<Rightarrow> json option) \<Rightarrow> string \<Rightarrow> string" where
  "shown parse l =
     (case message_of parse l of
        None \<Rightarrow> drop_cr l @ [newline]
      | Some m \<Rightarrow> if Msg_Stream m \<noteq> [] then Msg_Stream m else if Msg_Status m \<noteq> [] then Msg_Status m @ [newline] else [])"

abbreviation stops_at :: "(string \<Rightarrow> json option) \<Rightarrow> string \<Rightarrow> bool" where
  "stops_at parse l \<equiv> 4 * 1024 * 1024 \<le> length l \<or> reports_error parse l"

lemma line_effect_message:
  "line_effect parse (drop_cr l) =
     (if reports_error parse l then Fails (Msg_Error (the (message_of parse l))) else Prints (shown parse l))"
  by (simp add: line_effect_def reports_error_def shown_def message_of_def split: option.split)

lemma copy_lines_stops:
  "copy_lines parse fin ls out =
     (case find (stops_at parse) ls of
        None \<Rightarrow> map_option ReadFailed fin
      | Some l \<Rightarrow> Some (if 4 * 1024 * 1024 \<le> length l then TokenTooLong else DockerError (Msg_Error (the (message_of parse l)))),
      out @ concat (map (shown parse) (takeWhile (\<lambda>l. \<not> stops_at parse l) ls)))"
  by (induction ls arbitrary: out) (auto simp: line_effect_message max_token_def)

lemma scan_whole_lines:
  assumes "\<forall>l\<in>set ls. newline \<notin> set l"
  shows "scan_lines (concat (map (\<lambda>l. l @ [newline]) ls)) = ls"
proof -
  have "split_all newline (concat (map (\<lambda>l. l @ [newline]) ls)) = ls @ [[]]"
    using assms by (induction ls) (simp_all add: split_all_append)
  then show ?thesis by (simp add: scan_lines_def)
qed

text \<open>
  C39: a progress stream of whole lines is copied up to its first bad line, one that reports an error or
  does not fit the scanner's buffer of 4 MiB. The output is what the lines before it show, in order: the
  text of a message, its status on a line, nothing for a message with neither, and a line that is no
  message as it is; the result is the error the bad line reports, or that it is too long; without a
  bad line everything is shown and the result is how reading ended. A message has its text, status
  and error under these names.
\<close>

theorem docker_stream_verdict:
  assumes "Docker_Text resp = concat (map (\<lambda>l. l @ [newline]) ls)" "\<forall>l\<in>set ls. newline \<notin> set l"
  shows "copy_docker_stream parse resp output =
      (case find (stops_at parse) ls of
         None \<Rightarrow> map_option ReadFailed (Docker_End resp)
       | Some l \<Rightarrow> Some (if 4 * 1024 * 1024 \<le> length l then TokenTooLong else DockerError (Msg_Error (the (message_of parse l)))),
       map_option (\<lambda>out. out @ concat (map (shown parse) (takeWhile (\<lambda>l. \<not> stops_at parse l) ls))) output)
    \<and> (parse (drop_cr l) = Some (JObj [(''stream'', JStr t), (''status'', JStr u), (''error'', JStr e)]) \<longrightarrow>
         message_of parse l = Some \<lparr>Msg_Stream = t, Msg_Status = u, Msg_Error = e\<rparr>)"
proof -
  have "copy_docker_stream parse resp output =
      (case find (stops_at parse) ls of
         None \<Rightarrow> map_option ReadFailed (Docker_End resp)
       | Some l \<Rightarrow> Some (if 4 * 1024 * 1024 \<le> length l then TokenTooLong else DockerError (Msg_Error (the (message_of parse l)))),
       map_option (\<lambda>out. out @ concat (map (shown parse) (takeWhile (\<lambda>l. \<not> stops_at parse l) ls))) output)"
    by (simp add: copy_docker_stream_def assms(1) scan_whole_lines [OF assms(2)] copy_lines_stops)
  moreover have "message_of parse l = Some \<lparr>Msg_Stream = t, Msg_Status = u, Msg_Error = e\<rparr>"
    if "parse (drop_cr l) = Some (JObj [(''stream'', JStr t), (''status'', JStr u), (''error'', JStr e)])"
    using that by (simp add: message_of_def decode_body_def decode_docker_msg_def zero_msg_def)
  ultimately show ?thesis by blast
qed

text \<open>Two progress lines, one that is no message, and an error that ends the copy.\<close>

definition sample_messages :: "string \<Rightarrow> json option" where
  "sample_messages l = map_of
     [(''S'', JObj [(''stream'', JStr ''Step 1'')]), (''P'', JObj [(''status'', JStr ''Pushed'')]),
      (''E'', JObj [(''error'', JStr ''denied'')])] l"

theorem docker_stream_verdict_witness:
  "copy_docker_stream sample_messages
      \<lparr>Docker_Status = 200, Docker_Text = concat (map (\<lambda>l. l @ [newline]) [''S'', ''P'', ''no'', ''E'', ''S'']), Docker_End = None\<rparr> (Some [])
    = (Some (DockerError ''denied''), Some (''Step 1Pushed'' @ [newline] @ ''no'' @ [newline]))"
proof -
  have m: "message_of sample_messages ''S'' = Some (zero_msg\<lparr>Msg_Stream := ''Step 1''\<rparr>)"
    "message_of sample_messages ''P'' = Some (zero_msg\<lparr>Msg_Status := ''Pushed''\<rparr>)"
    "message_of sample_messages ''E'' = Some (zero_msg\<lparr>Msg_Error := ''denied''\<rparr>)"
    "message_of sample_messages ''no'' = None"
    by (simp_all add: message_of_def sample_messages_def drop_cr_def decode_body_def decode_docker_msg_def zero_msg_def)
  have "drop_cr ''no'' = ''no''" by (simp add: drop_cr_def)
  then show ?thesis
    using docker_stream_verdict [of "\<lparr>Docker_Status = 200,
        Docker_Text = concat (map (\<lambda>l. l @ [newline]) [''S'', ''P'', ''no'', ''E'', ''S'']), Docker_End = None\<rparr>"
        "[''S'', ''P'', ''no'', ''E'', ''S'']" sample_messages "Some []"]
    by (simp add: m shown_def reports_error_def zero_msg_def newline_def)
qed

section \<open>What the build context holds\<close>

text \<open>The nodes of a tree in the order of the walk, each with its path, and the skipped paths.\<close>

fun nodes :: "string list \<Rightarrow> string \<Rightarrow> entry \<Rightarrow> (string list \<times> entry) list"
and nodes_all :: "string list \<Rightarrow> (string \<times> entry) list \<Rightarrow> (string list \<times> entry) list" where
  "nodes parent name e =
     (parent @ [name], e) # (case e of Directory es \<Rightarrow> nodes_all (parent @ [name]) es | _ \<Rightarrow> [])"
| "nodes_all parent [] = []"
| "nodes_all parent ((name, e) # es) = nodes parent name e @ nodes_all parent es"

definition kept :: "string list \<Rightarrow> bool" where
  "kept p \<longleftrightarrow> list_all (\<lambda>i. \<not> should_skip_context_path (slash_join (take (Suc i) p)) (p ! i)) [0..<length p]"

definition broken :: "entry \<Rightarrow> bool" where
  "broken e \<longleftrightarrow> (case e of InfoFails _ \<Rightarrow> True | UnreadableFile _ \<Rightarrow> True | UnreadableDir _ \<Rightarrow> True | _ \<Rightarrow> False)"

fun archived :: "string list \<times> entry \<Rightarrow> tar_entry list" where
  "archived (p, RegularFile s) = [(slash_join p, Some s)]"
| "archived (p, Directory es) = [(slash_join p, None)]"
| "archived (p, e) = []"

lemma kept_Nil [simp]: "kept []"
  by (simp add: kept_def)

lemma kept_snoc: "kept (p @ [n]) \<longleftrightarrow> kept p \<and> \<not> should_skip_context_path (slash_join (p @ [n])) n"
  by (auto simp: kept_def list_all_iff nth_append)

lemma kept_prefix: "kept (p @ q) \<Longrightarrow> kept p"
  by (induction q rule: rev_induct) (auto simp flip: append_assoc simp: kept_snoc)

lemma nodes_extend:
  "(p, x) \<in> set (nodes parent name e) \<Longrightarrow> \<exists>q. p = parent @ name # q"
  "(p, x) \<in> set (nodes_all parent es) \<Longrightarrow> \<exists>n q. p = parent @ n # q"
  by (induction parent name e and parent es rule: nodes_nodes_all.induct)
    (auto split: entry.splits)

lemma nodes_skipped:
  assumes "kept parent" and "should_skip_context_path (slash_join (parent @ [name])) name"
  shows "filter (\<lambda>(p, x). kept p) (nodes parent name e) = []"
proof -
  have "\<not> kept (parent @ name # q)" for q
    using assms kept_prefix [of "parent @ [name]" q] by (auto simp: kept_snoc)
  then show ?thesis by (auto simp: filter_empty_conv simp del: nodes.simps dest!: nodes_extend(1))
qed

abbreviation kept_nodes :: "(string list \<times> entry) list \<Rightarrow> (string list \<times> entry) list" where
  "kept_nodes \<equiv> filter (\<lambda>(p, x). kept p)"

lemma walk_is_filter:
  "kept parent \<Longrightarrow> tar_walk parent name e = Inr ts \<longleftrightarrow>
     list_all (\<lambda>(p, x). \<not> broken x) (kept_nodes (nodes parent name e))
     \<and> ts = concat (map archived (kept_nodes (nodes parent name e)))"
  "kept parent \<Longrightarrow> tar_walk_all parent es = Inr ts \<longleftrightarrow>
     list_all (\<lambda>(p, x). \<not> broken x) (kept_nodes (nodes_all parent es))
     \<and> ts = concat (map archived (kept_nodes (nodes_all parent es)))"
proof (induction parent name e and parent es arbitrary: ts and ts rule: tar_walk_tar_walk_all.induct)
  case (1 parent name e)
  show ?case
  proof (cases "should_skip_context_path (slash_join (parent @ [name])) name")
    case True
    with 1 show ?thesis by (simp add: nodes_skipped del: nodes.simps) auto
  next
    case False
    with 1 have "kept (parent @ [name])" by (simp add: kept_snoc)
    with False 1 show ?thesis
      by (cases e) (auto simp: broken_def bind_res_Inr_iff)
  qed
next
  case (3 parent name e es)
  then show ?case by (auto simp: bind_res_Inr_iff simp del: tar_walk.simps nodes.simps)
qed auto

text \<open>The root, which is never skipped nor archived.\<close>

definition tree_nodes :: "entry \<Rightarrow> (string list \<times> entry) list" where
  "tree_nodes e = (case e of Directory es \<Rightarrow> nodes_all [] es | _ \<Rightarrow> [])"

definition unreadable :: "entry \<Rightarrow> bool" where
  "unreadable e \<longleftrightarrow> (case e of UnreadableDir _ \<Rightarrow> True | _ \<Rightarrow> False)"

text \<open>
  C11: the build context is the directory tree without its skipped parts: of all the nodes of the
  tree, in the order of the walk, the files and directories that are not skipped themselves and lie
  in no skipped directory, each file with its contents; and it exists exactly when none of those
  nodes failed to be read, failures inside what is skipped being of no consequence.
\<close>

theorem build_context_exact:
  "tar_root tree = Inr ts \<longleftrightarrow>
     \<not> unreadable tree
     \<and> list_all (\<lambda>(p, x). \<not> broken x) (filter (\<lambda>(p, x). kept p) (tree_nodes tree))
     \<and> ts = concat (map archived (filter (\<lambda>(p, x). kept p) (tree_nodes tree)))"
  by (cases tree) (auto simp: tar_root_def tree_nodes_def unreadable_def walk_is_filter)

text \<open>File names have no slash and are not empty.\<close>

definition names_ok :: "entry \<Rightarrow> bool" where
  "names_ok tree \<longleftrightarrow> list_all (\<lambda>(p, x). list_all (\<lambda>n. n \<noteq> [] \<and> CHR ''/'' \<notin> set n) p) (tree_nodes tree)"

lemma skip_named: "n \<in> {''.git'', ''turnfly'', ''.env''} \<Longrightarrow> should_skip_context_path rel n"
  by (auto simp: should_skip_context_path_def)

lemma kept_name:
  assumes "kept p" and "n \<in> set p"
  shows "n \<notin> {''.git'', ''turnfly'', ''.env''}"
proof -
  from assms(2) obtain i where i: "i < length p" "p ! i = n" by (auto simp: in_set_conv_nth)
  with assms(1) have "\<not> should_skip_context_path (slash_join (take (Suc i) p)) n"
    by (auto simp: kept_def list_all_iff)
  with skip_named show ?thesis by blast
qed

lemma archived_path: "(rel, c) \<in> set (archived (p, x)) \<Longrightarrow> rel = slash_join p"
  by (cases x) auto

lemma context_kept:
  assumes "tar_root tree = Inr ts" and "(rel, c) \<in> set ts"
  obtains p x where "(p, x) \<in> set (tree_nodes tree)" "kept p" "rel = slash_join p"
proof -
  have ts: "ts = concat (map archived (kept_nodes (tree_nodes tree)))"
    using assms(1) by (cases tree) (auto simp: tar_root_def tree_nodes_def walk_is_filter)
  with assms(2) obtain y where y: "y \<in> set (kept_nodes (tree_nodes tree))" "(rel, c) \<in> set (archived y)"
    by auto
  obtain p x where "y = (p, x)" by (cases y)
  with y that archived_path show thesis by auto
qed

text \<open>
  C26: no name on the way to an entry of the build context is \<open>.git\<close>, \<open>.env\<close> or \<open>turnfly\<close>. The last
  of these, meant for the compiled program, also takes this repository's \<open>cmd/turnfly\<close> out of every
  build context, the directory its \<open>Dockerfile\<close> compiles.
\<close>

theorem own_source_left_out:
  assumes "names_ok tree" and "tar_root tree = Inr ts" and "(rel, c) \<in> set ts"
  shows "set (split_all CHR ''/'' rel) \<inter> {''.git'', ''.env'', ''turnfly''} = {} \<and> rel \<noteq> ''cmd/turnfly/main.go''"
proof -
  obtain p x where p: "(p, x) \<in> set (tree_nodes tree)" "kept p" "rel = slash_join p"
    using context_kept [OF assms(2,3)] .
  with assms(1) have "\<forall>n\<in>set p. CHR ''/'' \<notin> set n"
    by (auto simp: names_ok_def list_all_iff)
  then have "split_all CHR ''/'' rel = (if p = [] then [[]] else p)"
    using p(3) split_join [of p "CHR ''/''"] by (simp add: slash_join_def)
  with kept_name [OF p(2)] have parts: "set (split_all CHR ''/'' rel) \<inter> {''.git'', ''.env'', ''turnfly''} = {}"
    by (auto split: if_splits)
  moreover have "rel \<noteq> ''cmd/turnfly/main.go''"
  proof
    assume "rel = ''cmd/turnfly/main.go''"
    then have "''turnfly'' \<in> set (split_all CHR ''/'' rel)" by simp
    with parts show False by simp
  qed
  ultimately show ?thesis by blast
qed

definition sample_tree :: entry where
  "sample_tree = Directory
     [(''.env'', RegularFile ''KEY=1''), (''Dockerfile'', RegularFile ''FROM scratch''),
      (''cmd'', Directory [(''turnfly'', Directory [(''main.go'', RegularFile ''package main'')])])]"

lemma sample_context: "tar_root sample_tree = Inr [(''Dockerfile'', Some ''FROM scratch''), (''cmd'', None)]"
  by code_simp

theorem own_source_left_out_witness:
  "set (split_all CHR ''/'' ''Dockerfile'') \<inter> {''.git'', ''.env'', ''turnfly''} = {} \<and> ''cmd'' \<noteq> ''cmd/turnfly/main.go''"
proof -
  have "names_ok sample_tree" by code_simp
  from own_source_left_out [OF this sample_context, of "''Dockerfile''" "Some ''FROM scratch''"]
    own_source_left_out [OF this sample_context, of "''cmd''" None]
  show ?thesis by simp
qed

section \<open>What the publisher asks of the engine\<close>

text \<open>The engine with its requests written down, each as the event \<open>tag\<close> makes of it.\<close>

definition recorded_docker :: "(docker_request \<Rightarrow> 'e) \<Rightarrow> 'w docker_env \<Rightarrow> ('w \<times> 'e list) docker_env" where
  "recorded_docker tag env =
     \<lparr>context_root = context_root env, json_value = json_value env, new_request = new_request env,
      docker_do = (\<lambda>sock q (w, hist). case docker_do env sock q w of (r, w) \<Rightarrow> (r, w, hist @ [tag q]))\<rparr>"

text \<open>How many of the two requests an outcome says were made.\<close>

definition requests_made :: "publish_error option \<Rightarrow> nat" where
  "requests_made e =
     (case e of
        None \<Rightarrow> 2
      | Some (PushTransport _) \<Rightarrow> 2 | Some (PushStatus _ _) \<Rightarrow> 2 | Some (PushStream _) \<Rightarrow> 2
      | Some (PushNewRequest _) \<Rightarrow> 1
      | Some (BuildTransport _) \<Rightarrow> 1 | Some (BuildStatus _ _) \<Rightarrow> 1 | Some (BuildStream _) \<Rightarrow> 1
      | _ \<Rightarrow> 0)"

text \<open>
  One exchange that went well: the engine answered below 400, with a stream that was read to its end
  and reports no error.
\<close>

definition engine_accepts :: "'w docker_env \<Rightarrow> docker_publisher \<Rightarrow> docker_request \<Rightarrow> 'w \<Rightarrow> 'w \<Rightarrow> bool" where
  "engine_accepts env p q w w' \<longleftrightarrow>
     (case docker_do env (Docker_Socket p) q w of
        (Inl e, v) \<Rightarrow> False
      | (Inr resp, v) \<Rightarrow> v = w' \<and> Docker_Status resp < 400 \<and> fst (copy_docker_stream (json_value env) resp None) = None)"

lemma stream_error_output: "fst (copy_docker_stream parse resp o1) = fst (copy_docker_stream parse resp None)"
  by (simp add: copy_docker_stream_def split: prod.split)

lemma build_recorded:
  assumes "docker_build (recorded_docker tag env) p cfg body (output, w, hist) = (e, output', w', hist')"
  shows "hist' = hist @ map tag (take (requests_made e) [build_request p cfg body])" "e = None \<or> requests_made e \<le> 1"
    and "e = None \<Longrightarrow> engine_accepts env p (build_request p cfg body) w w'"
  using assms
  by (auto simp: docker_build_def recorded_docker_def Let_def requests_made_def engine_accepts_def not_le
      split: prod.splits sum.splits if_splits option.splits) (metis fst_conv stream_error_output)

lemma push_recorded:
  assumes "docker_push (recorded_docker tag env) p cfg (output, w, hist) = (e, output', w', hist')"
  shows "hist' = hist @ map tag (take (requests_made e - 1) [push_request p cfg])" "0 < requests_made e"
    and "e = None \<Longrightarrow> engine_accepts env p (push_request p cfg) w w'"
  using assms
  by (auto simp: docker_push_def recorded_docker_def Let_def requests_made_def engine_accepts_def not_le
      split: prod.splits sum.splits if_splits option.splits) (metis fst_conv stream_error_output)

lemma refused_makes_none: "check_publish cfg = Some e \<Longrightarrow> requests_made (Some e) = 0"
  by (auto simp: check_publish_def requests_made_def split: if_splits)

lemma check_publish_ok:
  "check_publish (publish_defaults cfg) = None \<longleftrightarrow>
     PublishToken cfg \<noteq> [] \<and> has_prefix (PublishImage cfg) (flyRegistry @ ''/'')"
  by (auto simp: check_publish_def publish_defaults_def Let_def flyRegistry_def has_prefix_iff)

lemma publish_log:
  assumes "build_and_push (recorded_docker tag env) p cfg (output, w, hist) = (e, output', w', hist')"
  shows "hist' = hist @ map tag (take (requests_made e)
           [build_request p (publish_defaults cfg) (projr (tar_build_context env (ContextDir (publish_defaults cfg)))),
            push_request p (publish_defaults cfg)])
    \<and> (0 < requests_made e \<longrightarrow>
         PublishToken cfg \<noteq> [] \<and> has_prefix (PublishImage cfg) (flyRegistry @ ''/''))
    \<and> (requests_made e = 2 \<longrightarrow> (\<exists>v. engine_accepts env p (build_request p (publish_defaults cfg)
             (projr (tar_build_context env (ContextDir (publish_defaults cfg))))) w v
         \<and> (e = None \<longrightarrow> engine_accepts env p (push_request p (publish_defaults cfg)) v w')))"
proof (cases "check_publish (publish_defaults cfg)")
  case (Some er)
  with assms have "e = Some er" "hist' = hist" by (simp_all add: build_and_push_def Let_def)
  with refused_makes_none [OF Some] show ?thesis by simp
next
  case None
  let ?cfg = "publish_defaults cfg"
  have ok: "PublishToken cfg \<noteq> [] \<and> has_prefix (PublishImage cfg) (flyRegistry @ ''/'')"
    using None check_publish_ok by blast
  have same: "tar_build_context (recorded_docker tag env) (ContextDir ?cfg) = tar_build_context env (ContextDir ?cfg)"
    by (simp add: tar_build_context_def recorded_docker_def)
  show ?thesis
  proof (cases "tar_build_context env (ContextDir ?cfg)")
    case (Inl er)
    with None assms same show ?thesis by (auto simp: build_and_push_def Let_def requests_made_def)
  next
    case (Inr body)
    obtain e1 o1 w1 h1 where b: "docker_build (recorded_docker tag env) p ?cfg body (output, w, hist) = (e1, o1, w1, h1)"
      by (cases "docker_build (recorded_docker tag env) p ?cfg body (output, w, hist)") auto
    note h1 = build_recorded [OF b]
    show ?thesis
    proof (cases e1)
      case (Some er)
      with assms None Inr b same have "e = e1" "hist' = h1" by (auto simp: build_and_push_def Let_def)
      moreover have "requests_made e1 \<le> 1" using h1(2) Some by simp
      ultimately show ?thesis using h1(1) ok Inr by (cases "requests_made e1") auto
    next
      case None': None
      with assms None Inr b same
      have "docker_push (recorded_docker tag env) p ?cfg (o1, w1, h1) = (e, output', w', hist')"
        by (simp add: build_and_push_def Let_def)
      note h2 = push_recorded [OF this]
      have "h1 = hist @ [tag (build_request p ?cfg body)]" using h1(1) None' by (simp add: requests_made_def)
      with h2(1,2) have "hist' = hist @ map tag (take (requests_made e) [build_request p ?cfg body, push_request p ?cfg])"
        by (cases "requests_made e") auto
      with h1(3) [OF None'] h2(3) ok Inr show ?thesis by auto
    qed
  qed
qed

text \<open>
  C20: publishing makes its requests in order and no more than its outcome accounts for: none when the
  image, the token, the registry, the build context or the URL of the build is refused; the build alone
  when the build or its progress stream fails or the URL of the push is refused; and the build and then
  the push, of the same image, otherwise.  The push is sent only if the engine accepted the build, and
  success is reported only if it accepted both.  Nothing is sent without a token or for another registry.
\<close>

theorem publish_requests:
  assumes "build_and_push (recorded_docker tag env) p cfg (output, w, hist) = (e, output', w', hist')"
  shows "hist' = hist @ map tag (take (requests_made e)
           [build_request p (publish_defaults cfg) (projr (tar_build_context env (ContextDir (publish_defaults cfg)))),
            push_request p (publish_defaults cfg)])
    \<and> (0 < requests_made e \<longrightarrow>
         PublishToken cfg \<noteq> [] \<and> has_prefix (PublishImage cfg) (flyRegistry @ ''/''))
    \<and> (requests_made e = 2 \<longrightarrow> (\<exists>v. engine_accepts env p (build_request p (publish_defaults cfg)
             (projr (tar_build_context env (ContextDir (publish_defaults cfg))))) w v
         \<and> (e = None \<longrightarrow> engine_accepts env p (push_request p (publish_defaults cfg)) v w')))"
  by (rule publish_log [OF assms])

definition quiet_docker :: "int \<Rightarrow> 'w docker_env" where
  "quiet_docker code =
     \<lparr>context_root = (\<lambda>dir. Inr sample_tree), json_value = (\<lambda>s. None), new_request = (\<lambda>u. None),
      docker_do = (\<lambda>sock q w. (Inr \<lparr>Docker_Status = code, Docker_Text = ''no'', Docker_End = None\<rparr>, w))\<rparr>"

definition sample_publish :: publish_config where
  "sample_publish =
     \<lparr>ContextDir = [], Dockerfile = [], PublishImage = ''registry.fly.io/a:b'', PublishToken = ''t''\<rparr>"

theorem publish_requests_witness:
  "\<exists>output' w'. build_and_push (recorded_docker id (quiet_docker 500)) \<lparr>Docker_Base = [], Docker_Socket = []\<rparr> sample_publish (None, (), [])
     = (Some (BuildStatus 500 ''no''), output', w',
        [build_request \<lparr>Docker_Base = [], Docker_Socket = []\<rparr> (publish_defaults sample_publish)
           [(''Dockerfile'', Some ''FROM scratch''), (''cmd'', None)]])"
proof -
  let ?p = "\<lparr>Docker_Base = [], Docker_Socket = []\<rparr>"
  obtain e o' w' h' where r: "build_and_push (recorded_docker id (quiet_docker 500)) ?p sample_publish (None, (), []) = (e, o', w', h')"
    by (cases "build_and_push (recorded_docker id (quiet_docker 500)) ?p sample_publish (None, (), [])") auto
  note h = publish_requests [OF r]
  have trim: "trim_space ''no'' = ''no''" by code_simp
  have tar: "tar_build_context (quiet_docker 500 :: unit docker_env) (ContextDir (publish_defaults sample_publish))
      = Inr [(''Dockerfile'', Some ''FROM scratch''), (''cmd'', None)]"
    by (simp add: tar_build_context_def quiet_docker_def sample_context)
  have "check_publish (publish_defaults sample_publish) = None"
    by (simp add: check_publish_ok) (simp add: sample_publish_def flyRegistry_def has_prefix_def)
  with r tar trim have "e = Some (BuildStatus 500 ''no'')"
    by (auto simp: build_and_push_def Let_def docker_build_def recorded_docker_def quiet_docker_def tar_build_context_def)
  with r h tar show ?thesis by (auto simp: requests_made_def)
qed

end
