(* ===== verification/Fly_Deployer.thy ===== *)
theory Fly_Deployer
  imports Fly_Client
begin

text \<open>
  Deployment to Fly (\<open>internal/flydeploy/deployer.go\<close>): make sure of the app, of a public address
  and of one machine per region, destroy machines in other regions, wait until they run.  The
  deployment threads the world of the environment through its requests in the order of the code;
  the order in which it visits the map of existing machines is an argument.
\<close>

section \<open>Configuration and result\<close>

record deploy_config =
  AppName :: string
  OrgSlug :: string
  Regions :: "string list"
  DeployImage :: string
  DeployEnv :: string_map
  MachineName :: string
  DeployGuest :: machine_guest
  HealthPort :: int
  HealthTimeout :: duration

record deploy_result =
  Result_App :: app
  Result_Machines :: "machine list"
  Result_IPs :: "ip_address list"
  Result_DryRun :: bool
  Result_Regions :: "string list"

datatype machine_error =
    Updating string fly_error
  | Starting string fly_error
  | Creating fly_error

datatype deploy_error =
    AppNameRequired
  | OrgSlugRequired
  | RegionsRequired
  | ImageRequired
  | EnsureApp fly_error
  | EnsureIPs fly_error
  | AllocateIPv4 fly_error
  | ListExisting fly_error
  | EnsureMachine string machine_error

definition DefaultGuest :: machine_guest where
  "DefaultGuest = \<lparr>CPUKind = ''shared'', CPUs = 1, MemoryMB = 256\<rparr>"

definition with_defaults :: "deploy_config \<Rightarrow> deploy_config" where
  "with_defaults cfg =
     (let cfg = (if HealthTimeout cfg = 0 then cfg\<lparr>HealthTimeout := 5 * minute\<rparr> else cfg);
          cfg = (if HealthPort cfg = 0 then cfg\<lparr>HealthPort := 8080\<rparr> else cfg)
      in if MachineName cfg = [] then cfg\<lparr>MachineName := ''turnfly''\<rparr> else cfg)"

section \<open>The steps\<close>

definition ensure_app :: "'w fly_env \<Rightarrow> client \<Rightarrow> string \<Rightarrow> string \<Rightarrow> 'w \<Rightarrow> (fly_error + app) \<times> 'w" where
  "ensure_app env c appName orgSlug w =
     (case get_app env c appName w of
        (Inl e, w) \<Rightarrow> create_app env c appName orgSlug w
      | (Inr a, w) \<Rightarrow> (Inr a, w))"

definition ensure_ips ::
  "'w fly_env \<Rightarrow> client \<Rightarrow> string \<Rightarrow> string \<Rightarrow> 'w \<Rightarrow> (deploy_error + ip_address list) \<times> 'w" where
  "ensure_ips env c appName orgSlug w =
     (case list_ips env c appName w of
        (Inl e, w) \<Rightarrow> (Inl (EnsureIPs e), w)
      | (Inr existing, w) \<Rightarrow>
          if 0 < length existing then (Inr existing, w)
          else (case allocate_ip env c appName \<lparr>IPReq_Type = ''v4'', IPReq_Region = [], IPReq_OrgSlug = orgSlug\<rparr> w of
                  (Inl e, w) \<Rightarrow> (Inl (AllocateIPv4 e), w)
                | (Inr v4, w) \<Rightarrow> (Inr [v4], w)))"

definition desired_config :: "deploy_config \<Rightarrow> machine_config" where
  "desired_config cfg =
     \<lparr>Image = DeployImage cfg, Env = DeployEnv cfg,
      Services = Some
        [\<lparr>Protocol = ''udp'', InternalPort = 3478, Ports = Some [\<lparr>PortNumber = 3478, Handlers = None\<rparr>], Concurrency = None\<rparr>,
         \<lparr>Protocol = ''tcp'', InternalPort = 3478, Ports = Some [\<lparr>PortNumber = 3478, Handlers = None\<rparr>], Concurrency = None\<rparr>,
         \<lparr>Protocol = ''tcp'', InternalPort = HealthPort cfg,
          Ports = Some [\<lparr>PortNumber = 80, Handlers = Some [''http'']\<rparr>],
          Concurrency = Some \<lparr>ConcurrencyType = ''connections'', HardLimit = 1000, SoftLimit = 800\<rparr>\<rparr>],
      Guest = Some (DeployGuest cfg), Metadata = None\<rparr>"

definition desired_request :: "deploy_config \<Rightarrow> string \<Rightarrow> machine_request" where
  "desired_request cfg region =
     \<lparr>Req_Name = MachineName cfg @ ''-'' @ region, Req_Region = region, Req_Config = desired_config cfg\<rparr>"

definition ensure_machine ::
  "'w fly_env \<Rightarrow> client \<Rightarrow> string \<Rightarrow> string \<Rightarrow> deploy_config \<Rightarrow> machine option \<Rightarrow> 'w
   \<Rightarrow> (machine_error + machine) \<times> 'w" where
  "ensure_machine env c appName region cfg existing w =
     (case existing of
        Some old \<Rightarrow>
          (case (if deep_equal (Machine_Config old) (desired_config cfg) then (Inr old, w)
                 else update_machine env c appName (Machine_ID old) (desired_request cfg region) w) of
             (Inl e, w) \<Rightarrow> (Inl (Updating (Machine_ID old) e), w)
           | (Inr m, w) \<Rightarrow>
               if equal_fold (Machine_State m) ''stopped''
               then (case start_machine env c appName (Machine_ID old) w of
                       (Some e, w) \<Rightarrow> (Inl (Starting (Machine_ID old) e), w)
                     | (None, w) \<Rightarrow> (Inr m, w))
               else (Inr m, w))
      | None \<Rightarrow>
          (case create_machine env c appName (desired_request cfg region) w of
             (Inl e, w) \<Rightarrow> (Inl (Creating e), w)
           | (Inr m, w) \<Rightarrow> (Inr m, w)))"

text \<open>The last machine of a region that the API lists is the one the region keeps.\<close>

definition machines_by_region :: "machine list \<Rightarrow> (string, machine) gomap" where
  "machines_by_region ms =
     fold (\<lambda>m acc. if Machine_Region m \<noteq> [] then gm_put (Machine_Region m) m acc else acc) ms []"

text \<open>A failed destruction is logged and passed over.\<close>

fun destroy_loop ::
  "'w fly_env \<Rightarrow> client \<Rightarrow> string \<Rightarrow> string list \<Rightarrow> (string \<times> machine) list \<Rightarrow> 'w \<Rightarrow> 'w" where
  "destroy_loop env c appName desired [] w = w"
| "destroy_loop env c appName desired ((region, m) # ms) w =
     (if region \<notin> set desired
      then destroy_loop env c appName desired ms (snd (destroy_machine env c appName (Machine_ID m) w))
      else destroy_loop env c appName desired ms w)"

fun ensure_loop ::
  "'w fly_env \<Rightarrow> client \<Rightarrow> deploy_config \<Rightarrow> (string, machine) gomap \<Rightarrow> string list \<Rightarrow> 'w
   \<Rightarrow> (deploy_error + machine list) \<times> 'w" where
  "ensure_loop env c cfg existing [] w = (Inr [], w)"
| "ensure_loop env c cfg existing (r # rs) w =
     (let region = trim_space r
      in case ensure_machine env c (AppName cfg) region cfg (gm_get existing region) w of
           (Inl e, w) \<Rightarrow> (Inl (EnsureMachine region e), w)
         | (Inr m, w) \<Rightarrow>
             (case ensure_loop env c cfg existing rs w of
                (Inl e, w) \<Rightarrow> (Inl e, w)
              | (Inr ms, w) \<Rightarrow> (Inr (m # ms), w)))"

datatype health_error = Interrupted string | BadState string string | TimedOut string duration

text \<open>The polling of one machine, with fuel as \<open>wait_loop\<close> has it.\<close>

fun health_loop ::
  "nat \<Rightarrow> 'w fly_env \<Rightarrow> client \<Rightarrow> string \<Rightarrow> string \<Rightarrow> duration \<Rightarrow> gotime \<Rightarrow> 'w \<Rightarrow> (health_error option \<times> 'w) option" where
  "health_loop 0 env c appName machineID timeout deadline w = None"
| "health_loop (Suc n) env c appName machineID timeout deadline w =
     (let (now, w) = clock env w
      in if \<not> now < deadline then Some (Some (TimedOut machineID timeout), w)
         else let (r, w) = get_machine env c appName machineID w
              in if (case r of Inl e \<Rightarrow> False | Inr m \<Rightarrow> equal_fold (Machine_State m) ''started'') then Some (None, w)
                 else if (case r of Inl e \<Rightarrow> False
                          | Inr m \<Rightarrow> equal_fold (Machine_State m) ''error'' \<or> equal_fold (Machine_State m) ''destroyed'')
                 then Some (Some (BadState machineID (case r of Inl e \<Rightarrow> [] | Inr m \<Rightarrow> Machine_State m)), w)
                 else case pause env (10 * second) w of
                   (Some e, w) \<Rightarrow> Some (Some (Interrupted e), w)
                 | (None, w) \<Rightarrow> health_loop n env c appName machineID timeout deadline w)"

definition wait_for_healthy ::
  "nat \<Rightarrow> 'w fly_env \<Rightarrow> client \<Rightarrow> string \<Rightarrow> string \<Rightarrow> duration \<Rightarrow> 'w \<Rightarrow> (health_error option \<times> 'w) option" where
  "wait_for_healthy fuel env c appName machineID timeout w =
     (let (now, w) = clock env w
      in health_loop fuel env c appName machineID timeout (time_add now timeout) w)"

fun wait_all :: "nat \<Rightarrow> 'w fly_env \<Rightarrow> client \<Rightarrow> string \<Rightarrow> duration \<Rightarrow> machine list \<Rightarrow> 'w \<Rightarrow> 'w option" where
  "wait_all fuel env c appName timeout [] w = Some w"
| "wait_all fuel env c appName timeout (m # ms) w =
     (case wait_for_healthy fuel env c appName (Machine_ID m) timeout w of
        None \<Rightarrow> None
      | Some (e, w) \<Rightarrow> wait_all fuel env c appName timeout ms w)"

section \<open>Deploy and destroy\<close>

type_synonym machine_order = "(string \<times> machine) list \<Rightarrow> (string \<times> machine) list"

definition check_deploy :: "deploy_config \<Rightarrow> deploy_error option" where
  "check_deploy cfg =
     (if AppName cfg = [] then Some AppNameRequired
      else if OrgSlug cfg = [] then Some OrgSlugRequired
      else if Regions cfg = [] then Some RegionsRequired
      else if DeployImage cfg = [] then Some ImageRequired
      else None)"

text \<open>Everything up to the wait for health.\<close>

definition deploy_steps ::
  "'w fly_env \<Rightarrow> machine_order \<Rightarrow> client \<Rightarrow> deploy_config \<Rightarrow> 'w \<Rightarrow> (deploy_error + deploy_result) \<times> 'w" where
  "deploy_steps env ord c cfg w =
     (case ensure_app env c (AppName cfg) (OrgSlug cfg) w of
        (Inl e, w) \<Rightarrow> (Inl (EnsureApp e), w)
      | (Inr a, w) \<Rightarrow>
          let org = (if effective_org_slug a \<noteq> [] then effective_org_slug a else OrgSlug cfg)
          in case ensure_ips env c (AppName cfg) org w of
               (Inl e, w) \<Rightarrow> (Inl e, w)
             | (Inr ips, w) \<Rightarrow>
                 (case list_machines env c (AppName cfg) w of
                    (Inl e, w) \<Rightarrow> (Inl (ListExisting e), w)
                  | (Inr existing, w) \<Rightarrow>
                      let byRegion = machines_by_region existing;
                          w = destroy_loop env c (AppName cfg) (Regions cfg) (ord byRegion) w
                      in case ensure_loop env c cfg byRegion (Regions cfg) w of
                           (Inl e, w) \<Rightarrow> (Inl e, w)
                         | (Inr ms, w) \<Rightarrow>
                             (Inr \<lparr>Result_App = a, Result_Machines = ms, Result_IPs = ips,
                                   Result_DryRun = dryRun c, Result_Regions = Regions cfg\<rparr>, w)))"

definition deploy ::
  "nat \<Rightarrow> 'w fly_env \<Rightarrow> machine_order \<Rightarrow> client \<Rightarrow> deploy_config \<Rightarrow> 'w
   \<Rightarrow> ((deploy_error + deploy_result) \<times> 'w) option" where
  "deploy fuel env ord c cfg w =
     (case check_deploy cfg of
        Some e \<Rightarrow> Some (Inl e, w)
      | None \<Rightarrow>
          let cfg = with_defaults cfg
          in case deploy_steps env ord c cfg w of
               (Inl e, w) \<Rightarrow> Some (Inl e, w)
             | (Inr result, w) \<Rightarrow>
                 if dryRun c then Some (Inr result, w)
                 else map_option (Pair (Inr result))
                   (wait_all fuel env c (AppName cfg) (HealthTimeout cfg) (Result_Machines result) w))"

fun destroy_all :: "'w fly_env \<Rightarrow> client \<Rightarrow> string \<Rightarrow> machine list \<Rightarrow> 'w \<Rightarrow> 'w" where
  "destroy_all env c appName [] w = w"
| "destroy_all env c appName (m # ms) w =
     destroy_all env c appName ms (snd (destroy_machine env c appName (Machine_ID m) w))"

definition destroy :: "'w fly_env \<Rightarrow> client \<Rightarrow> string \<Rightarrow> 'w \<Rightarrow> fly_error option \<times> 'w" where
  "destroy env c appName w =
     (case list_machines env c appName w of
        (Inl e, w) \<Rightarrow> (Some e, w)
      | (Inr ms, w) \<Rightarrow> (None, destroy_all env c appName ms w))"

section \<open>What the steps ask of the API\<close>

lemma tracks_ensure_app:
  assumes "P (fly_request_of c ''GET'' (app_path a) None)"
    "P (fly_request_of c ''POST'' ''/v1/apps'' (Some (create_app_json a org)))"
  shows "tracks P (ensure_app (recorded env) c a org) (ensure_app env c a org)"
  unfolding ensure_app_def by (intro tracks_rules tracks_ops assms)

lemma tracks_ensure_ips:
  assumes "P (fly_request_of c ''GET'' (ips_path a) None)" "\<And>req. P (fly_request_of c ''POST'' (ips_path a) (Some req))"
  shows "tracks P (ensure_ips (recorded env) c a org) (ensure_ips env c a org)"
  unfolding ensure_ips_def by (intro tracks_rules tracks_ops assms)

lemma tracks_ensure_machine:
  assumes "existing = None \<Longrightarrow> P (fly_request_of c ''POST'' (machines_path a) (Some (machine_request_json (desired_request cfg region))))"
    and "\<And>old. existing = Some old \<Longrightarrow> \<not> deep_equal (Machine_Config old) (desired_config cfg) \<Longrightarrow>
        P (fly_request_of c ''POST'' (machine_path a (Machine_ID old)) (Some (machine_request_json (desired_request cfg region))))"
    and "\<And>old. existing = Some old \<Longrightarrow>
        \<not> (deep_equal (Machine_Config old) (desired_config cfg) \<and> \<not> equal_fold (Machine_State old) ''stopped'') \<Longrightarrow>
        P (fly_request_of c ''POST'' (machine_path a (Machine_ID old) @ ''/start'') None)"
  shows "tracks P (ensure_machine (recorded env) c a region cfg existing) (ensure_machine env c a region cfg existing)"
proof (cases existing)
  case None
  then show ?thesis
    using assms(1) unfolding ensure_machine_def by (simp only: option.case) (intro tracks_rules tracks_ops; simp)
next
  case (Some old)
  have start: "tracks P
      (\<lambda>s. if equal_fold (Machine_State m) ''stopped''
             then (case start_machine (recorded env) c a (Machine_ID old) s of
                     (Some e, s) \<Rightarrow> (Inl (Starting (Machine_ID old) e), s) | (None, s) \<Rightarrow> (Inr m, s))
             else (Inr m, s))
      (\<lambda>w. if equal_fold (Machine_State m) ''stopped''
             then (case start_machine env c a (Machine_ID old) w of
                     (Some e, w) \<Rightarrow> (Inl (Starting (Machine_ID old) e), w) | (None, w) \<Rightarrow> (Inr m, w))
             else (Inr m, w))"
    if "\<not> (deep_equal (Machine_Config old) (desired_config cfg) \<and> \<not> equal_fold (Machine_State old) ''stopped'')
      \<or> \<not> equal_fold (Machine_State m) ''stopped''" for m
  proof (cases "equal_fold (Machine_State m) ''stopped''")
    case True
    with that assms(3) [OF Some] have "P (fly_request_of c ''POST'' (machine_path a (Machine_ID old) @ ''/start'') None)" by blast
    with True show ?thesis by (simp only: if_True) (intro tracks_rules tracks_ops)
  next
    case False
    then show ?thesis by (simp only: if_False) (intro tracks_rules)
  qed
  show ?thesis
  proof (cases "deep_equal (Machine_Config old) (desired_config cfg)")
    case True
    then show ?thesis
      using start [of old] Some unfolding ensure_machine_def by (auto simp only: option.case if_True prod.case sum.case)
  next
    case False
    then show ?thesis
      using Some assms(2) start unfolding ensure_machine_def
      by (simp only: option.case if_False) (intro tracks_sum tracks_return tracks_ops; blast)
  qed
qed

lemma ensure_loop_fun:
  "ensure_loop env c cfg existing [] = (\<lambda>w. (Inr [], w))"
  "ensure_loop env c cfg existing (r # rs) = (\<lambda>w.
     case ensure_machine env c (AppName cfg) (trim_space r) cfg (gm_get existing (trim_space r)) w of
       (Inl e, w) \<Rightarrow> (Inl (EnsureMachine (trim_space r) e), w)
     | (Inr m, w) \<Rightarrow> (case ensure_loop env c cfg existing rs w of
          (Inl e, w) \<Rightarrow> (Inl e, w) | (Inr ms, w) \<Rightarrow> (Inr (m # ms), w)))"
  by (simp_all add: fun_eq_iff Let_def)

lemma tracks_ensure_loop:
  assumes "\<And>r. r \<in> set rs \<Longrightarrow> tracks P
      (ensure_machine (recorded env) c (AppName cfg) (trim_space r) cfg (gm_get existing (trim_space r)))
      (ensure_machine env c (AppName cfg) (trim_space r) cfg (gm_get existing (trim_space r)))"
  shows "tracks P (ensure_loop (recorded env) c cfg existing rs) (ensure_loop env c cfg existing rs)"
  using assms
proof (induction rs)
  case Nil
  show ?case unfolding ensure_loop_fun by (rule tracks_return)
next
  case (Cons r rs)
  then show ?case unfolding ensure_loop_fun by (intro tracks_sum tracks_return) auto
qed

lemma ensure_loop_length:
  "ensure_loop env c cfg existing rs w = (Inr ms, w') \<Longrightarrow> length ms = length rs"
  by (induction rs arbitrary: w ms w') (auto simp: Let_def split: prod.splits sum.splits)

definition delete_request :: "client \<Rightarrow> string \<Rightarrow> machine \<Rightarrow> fly_request" where
  "delete_request c appName m = fly_request_of c ''DELETE'' (machine_path appName (Machine_ID m)) None"

lemma delete_request_sel [simp]: "Req_Method (delete_request c a m) = ''DELETE''"
  by (simp add: delete_request_def fly_request_of_def)

lemma recorded_destroy_loop:
  assumes "\<not> dryRun c"
  shows "destroy_loop (recorded env) c a desired ms (w, hist)
    = (destroy_loop env c a desired ms w,
       hist @ filter (accepted_request env) (map (\<lambda>(r, m). delete_request c a m) (filter (\<lambda>(r, m). r \<notin> set desired) ms)))"
proof (induction ms arbitrary: w hist)
  case (Cons x ms)
  obtain r m where x: "x = (r, m)" by (cases x)
  show ?case
    using Cons recorded_destroy_machine [OF assms, of env a "Machine_ID m" w hist]
    by (simp add: x delete_request_def split: prod.split)
qed simp

lemma recorded_destroy_all:
  assumes "\<not> dryRun c"
  shows "destroy_all (recorded env) c a ms (w, hist)
    = (destroy_all env c a ms w, hist @ filter (accepted_request env) (map (delete_request c a) ms))"
proof (induction ms arbitrary: w hist)
  case (Cons m ms)
  show ?case
    using Cons recorded_destroy_machine [OF assms, of env a "Machine_ID m" w hist]
    by (simp add: delete_request_def split: prod.split)
qed simp

text \<open>Waiting only reads.\<close>

lemma recorded_health_loop:
  assumes "\<And>m. P (fly_request_of c ''GET'' (machine_path a m) None)"
  shows "health_loop n (recorded env) c a i timeout deadline (w, hist) = Some (e, w', hist')
    \<Longrightarrow> \<exists>qs. hist' = hist @ qs \<and> list_all P qs"
proof (induction n arbitrary: w hist)
  case (Suc n)
  obtain now w1 where w1: "clock env w = (now, w1)" by fastforce
  then have c1: "clock (recorded env) (w, hist) = (now, w1, hist)" by (simp add: recorded_def)
  obtain qs where g: "get_machine (recorded env) c a i (w1, hist)
      = (fst (get_machine env c a i w1), snd (get_machine env c a i w1), hist @ qs)" "list_all P qs"
    using tracks_get_machine [of P c a i env, OF assms] unfolding tracks_def by blast
  obtain r w2 where r: "get_machine env c a i w1 = (r, w2)" by fastforce
  obtain p w3 where p: "pause env (10 * second) w2 = (p, w3)" by fastforce
  then have p1: "pause (recorded env) (10 * second) (w2, hist @ qs) = (p, w3, hist @ qs)"
    by (simp add: recorded_def)
  from Suc.prems g r c1 p1 Suc.IH [of w3 "hist @ qs"] show ?case
    by (auto simp: Let_def split: if_splits option.splits)
qed simp

lemma recorded_wait_all:
  assumes "\<And>m. P (fly_request_of c ''GET'' (machine_path a m) None)"
  shows "wait_all n (recorded env) c a timeout ms (w, hist) = Some (w', hist')
    \<Longrightarrow> \<exists>qs. hist' = hist @ qs \<and> list_all P qs"
proof (induction ms arbitrary: w hist)
  case (Cons m ms)
  obtain now w1 where w1: "clock env w = (now, w1)" by fastforce
  then have c1: "clock (recorded env) (w, hist) = (now, w1, hist)" by (simp add: recorded_def)
  with Cons.prems obtain e w2 h2 where l: "health_loop n (recorded env) c a (Machine_ID m) timeout (time_add now timeout) (w1, hist)
      = Some (e, w2, h2)" "wait_all n (recorded env) c a timeout ms (w2, h2) = Some (w', hist')"
    by (auto simp: wait_for_healthy_def split: option.splits)
  from recorded_health_loop [of P, OF assms l(1)] Cons.IH [OF l(2)] show ?case
    by (metis append.assoc list_all_append)
qed simp

section \<open>Runs of a deployment\<close>

lemma with_defaults_frame [simp]:
  "AppName (with_defaults cfg) = AppName cfg" "OrgSlug (with_defaults cfg) = OrgSlug cfg"
  "Regions (with_defaults cfg) = Regions cfg" "DeployImage (with_defaults cfg) = DeployImage cfg"
  "DeployEnv (with_defaults cfg) = DeployEnv cfg" "DeployGuest (with_defaults cfg) = DeployGuest cfg"
  by (simp_all add: with_defaults_def Let_def)

lemma by_region_ok: "gm_ok (machines_by_region ms)"
proof -
  have "gm_ok acc \<Longrightarrow> gm_ok (fold (\<lambda>m acc. if Machine_Region m \<noteq> [] then gm_put (Machine_Region m) m acc else acc) ms acc)"
    for acc :: "(string, machine) gomap"
    by (induction ms arbitrary: acc) (auto simp: gm_ok_put)
  then show ?thesis by (simp add: machines_by_region_def)
qed

lemma by_region_find:
  "gm_get (machines_by_region ms) r = (if r = [] then None else find (\<lambda>m. Machine_Region m = r) (rev ms))"
proof (induction ms rule: rev_induct)
  case (snoc m ms)
  then show ?case by (auto simp: machines_by_region_def)
qed (simp add: machines_by_region_def)

lemma by_region_member: "gm_get (machines_by_region ms) r = Some m \<Longrightarrow> m \<in> set ms \<and> Machine_Region m = r"
  by (auto simp: by_region_find dest: find_SomeD split: if_splits)

text \<open>
  The machines a deployment finds: what the API lists once the app and its address are there, and
  none if it does not get that far.
\<close>

definition found_machines :: "'w fly_env \<Rightarrow> client \<Rightarrow> deploy_config \<Rightarrow> 'w \<Rightarrow> machine list" where
  "found_machines env c cfg w =
     (case ensure_app env c (AppName cfg) (OrgSlug cfg) w of
        (Inl e, w) \<Rightarrow> []
      | (Inr a, w) \<Rightarrow>
          (case ensure_ips env c (AppName cfg) (if effective_org_slug a \<noteq> [] then effective_org_slug a else OrgSlug cfg) w of
             (Inl e, w) \<Rightarrow> []
           | (Inr ips, w) \<Rightarrow>
               (case list_machines env c (AppName cfg) w of (Inl e, w) \<Rightarrow> [] | (Inr ms, w) \<Rightarrow> ms)))"

definition reading :: "fly_request \<Rightarrow> bool" where
  "reading q \<longleftrightarrow> Req_Method q = ''GET''"

definition adds :: "(fly_request \<Rightarrow> bool) \<Rightarrow> 'r \<times> 'w \<times> fly_request list \<Rightarrow> 'r \<times> 'w \<Rightarrow> bool" where
  "adds P x y \<longleftrightarrow> (\<exists>qs. x = (fst y, snd y, qs) \<and> list_all P qs)"

lemma tracks_adds: "tracks P f g \<Longrightarrow> list_all P h \<Longrightarrow> adds P (f (w, h)) (g w)"
proof -
  assume "tracks P f g" and h: "list_all P h"
  then obtain qs where "f (w, h) = (fst (g w), snd (g w), h @ qs)" "list_all P qs" unfolding tracks_def by blast
  with h show ?thesis unfolding adds_def by simp
qed

text \<open>
  A run, whatever the service answers: the requests that see to the app, the address and the list,
  then the destructions, then the requests for the regions' machines.
\<close>

lemma steps_log:
  assumes dry: "\<not> dryRun c" and none: "ord [] = []"
    and app: "adds P (ensure_app (recorded env) c (AppName cfg) (OrgSlug cfg) (w, [])) (ensure_app env c (AppName cfg) (OrgSlug cfg) w)"
    and ips: "\<And>a w1 og h. ensure_app env c (AppName cfg) (OrgSlug cfg) w = (Inr a, w1) \<Longrightarrow> list_all P h \<Longrightarrow>
      adds P (ensure_ips (recorded env) c (AppName cfg) og (w1, h)) (ensure_ips env c (AppName cfg) og w1)"
    and list: "P (fly_request_of c ''GET'' (machines_path (AppName cfg)) None)"
    and each: "\<And>r. r \<in> set (Regions cfg) \<Longrightarrow> tracks P
      (ensure_machine (recorded env) c (AppName cfg) (trim_space r) cfg (gm_get (machines_by_region (found_machines env c cfg w)) (trim_space r)))
      (ensure_machine env c (AppName cfg) (trim_space r) cfg (gm_get (machines_by_region (found_machines env c cfg w)) (trim_space r)))"
  shows "\<exists>r w' pre post. deploy_steps (recorded env) ord c cfg (w, []) = (r, w', pre
      @ filter (accepted_request env) (map (\<lambda>(r, m). delete_request c (AppName cfg) m)
          (filter (\<lambda>(r, m). r \<notin> set (Regions cfg)) (ord (machines_by_region (found_machines env c cfg w)))))
      @ post) \<and> list_all P pre \<and> list_all P post"
proof -
  let ?a = "AppName cfg"
  obtain r1 w1 where a: "ensure_app env c ?a (OrgSlug cfg) w = (r1, w1)" by fastforce
  with app obtain q1 where q1: "ensure_app (recorded env) c ?a (OrgSlug cfg) (w, []) = (r1, w1, q1)" "list_all P q1"
    by (auto simp: adds_def)
  have stops: ?thesis if "found_machines env c cfg w = []" "deploy_steps (recorded env) ord c cfg (w, []) = (r, w', q)" "list_all P q"
    for r w' q
    using that none by (intro exI [of _ r] exI [of _ w'] exI [of _ q] exI [of _ "[]"]) (simp add: machines_by_region_def)
  show ?thesis
  proof (cases r1)
    case (Inl e)
    with a q1 show ?thesis by (intro stops [where q = q1]) (auto simp: deploy_steps_def found_machines_def)
  next
    case r1: (Inr ap)
    define org where "org = (if effective_org_slug ap \<noteq> [] then effective_org_slug ap else OrgSlug cfg)"
    obtain r2 w2 where i: "ensure_ips env c ?a org w1 = (r2, w2)" by fastforce
    with ips [of ap w1 q1 org] a r1 q1(2) obtain q2 where q2: "ensure_ips (recorded env) c ?a org (w1, q1) = (r2, w2, q2)" "list_all P q2"
      by (auto simp: adds_def)
    show ?thesis
    proof (cases r2)
      case (Inl e)
      with a q1 r1 i q2 show ?thesis
        by (intro stops [where q = q2]) (auto simp: deploy_steps_def found_machines_def org_def [symmetric] Let_def)
    next
      case r2: (Inr ip)
      obtain r3 w3 where l: "list_machines env c ?a w2 = (r3, w3)" by fastforce
      obtain q3 where q3: "list_machines (recorded env) c ?a (w2, q2) = (r3, w3, q3)" "list_all P q3"
        using recorded_list_machines [OF dry, of env ?a w2 q2] l list q2(2) by (auto simp del: filter.simps split: if_splits)
          (simp add: list_all_iff)
      show ?thesis
      proof (cases r3)
        case (Inl e)
        with a q1 r1 i q2 r2 l q3 show ?thesis
          by (intro stops [where q = q3]) (auto simp: deploy_steps_def found_machines_def org_def [symmetric] Let_def)
      next
        case r3: (Inr ms)
        let ?by = "machines_by_region ms"
        have found: "found_machines env c cfg w = ms"
          using a r1 i r2 l r3 by (simp add: found_machines_def org_def [symmetric])
        let ?del = "filter (accepted_request env)
          (map (\<lambda>(r, m). delete_request c ?a m) (filter (\<lambda>(r, m). r \<notin> set (Regions cfg)) (ord ?by)))"
        obtain w4 where d: "destroy_loop (recorded env) c ?a (Regions cfg) (ord ?by) (w3, q3) = (w4, q3 @ ?del)"
          using recorded_destroy_loop [OF dry] by fastforce
        have ms: "\<And>r. r \<in> set (Regions cfg) \<Longrightarrow> tracks P
            (ensure_machine (recorded env) c ?a (trim_space r) cfg (gm_get ?by (trim_space r)))
            (ensure_machine env c ?a (trim_space r) cfg (gm_get ?by (trim_space r)))"
          using each by (simp only: found)
        obtain r5 w5 post where e: "ensure_loop (recorded env) c cfg ?by (Regions cfg) (w4, q3 @ ?del) = (r5, w5, (q3 @ ?del) @ post)"
          "list_all P post"
          using tracks_run [OF tracks_ensure_loop [of "Regions cfg" P env c cfg ?by, OF ms] prod.collapse [symmetric]] by blast
        have "\<exists>res. deploy_steps (recorded env) ord c cfg (w, []) = (res, w5, (q3 @ ?del) @ post)"
          using q1 q2 q3 r1 r2 r3 d e(1)
          by (cases r5) (simp_all add: deploy_steps_def org_def [symmetric] Let_def)
        with q3(2) e(2) show ?thesis by (auto simp: found)
      qed
    qed
  qed
qed

lemma found_machines_defaults [simp]: "found_machines env c (with_defaults cfg) w = found_machines env c cfg w"
  unfolding found_machines_def with_defaults_frame by (rule refl)

lemma deploy_log:
  assumes "\<not> dryRun c" "check_deploy cfg = None" "ord [] = []"
    and "adds P (ensure_app (recorded env) c (AppName cfg) (OrgSlug cfg) (w, [])) (ensure_app env c (AppName cfg) (OrgSlug cfg) w)"
    and "\<And>a w1 og h. ensure_app env c (AppName cfg) (OrgSlug cfg) w = (Inr a, w1) \<Longrightarrow> list_all P h \<Longrightarrow>
      adds P (ensure_ips (recorded env) c (AppName cfg) og (w1, h)) (ensure_ips env c (AppName cfg) og w1)"
    and "\<And>path. P (fly_request_of c ''GET'' path None)"
    and "\<And>r. r \<in> set (Regions cfg) \<Longrightarrow> tracks P
      (ensure_machine (recorded env) c (AppName cfg) (trim_space r) (with_defaults cfg)
         (gm_get (machines_by_region (found_machines env c cfg w)) (trim_space r)))
      (ensure_machine env c (AppName cfg) (trim_space r) (with_defaults cfg)
         (gm_get (machines_by_region (found_machines env c cfg w)) (trim_space r)))"
    and "deploy fuel (recorded env) ord c cfg (w, []) = Some (r, w', hist)"
  shows "\<exists>pre post. hist = pre
      @ filter (accepted_request env) (map (\<lambda>(r, m). delete_request c (AppName cfg) m)
          (filter (\<lambda>(r, m). r \<notin> set (Regions cfg)) (ord (machines_by_region (found_machines env c cfg w)))))
      @ post \<and> list_all P pre \<and> list_all P post"
proof -
  let ?del = "filter (accepted_request env) (map (\<lambda>(r, m). delete_request c (AppName cfg) m)
          (filter (\<lambda>(r, m). r \<notin> set (Regions cfg)) (ord (machines_by_region (found_machines env c cfg w)))))"
  from steps_log [of c ord P env "with_defaults cfg" w] assms(1,3-7) obtain r1 w1 pre post where s:
    "deploy_steps (recorded env) ord c (with_defaults cfg) (w, []) = (r1, w1, pre @ ?del @ post)" "list_all P pre" "list_all P post"
    by auto
  show ?thesis
  proof (cases r1)
    case (Inl e)
    with s assms(8) show ?thesis by (auto simp: deploy_def assms(2) Let_def)
  next
    case (Inr res)
    with s assms(8) obtain w2 where wait: "wait_all fuel (recorded env) c (AppName cfg) (HealthTimeout (with_defaults cfg))
        (Result_Machines res) (w1, pre @ ?del @ post) = Some (w2, hist)"
      by (auto simp: deploy_def assms(1,2) Let_def)
    from recorded_wait_all [of P, OF assms(6) wait] obtain qs where "hist = (pre @ ?del @ post) @ qs" "list_all P qs"
      by blast
    with s(2,3) show ?thesis by (intro exI [of _ pre] exI [of _ "post @ qs"]) simp
  qed
qed

section \<open>Termination\<close>

lemma health_loop_terminates:
  "progresses T env \<Longrightarrow> 0 < n \<Longrightarrow> deadline - T w \<le> (int n - 1) * (10 * second) \<Longrightarrow> \<not> dryRun c \<Longrightarrow>
   health_loop n env c a i timeout deadline w \<noteq> None"
proof (induction n arbitrary: w)
  case (Suc n)
  obtain now w1 where w1: "clock env w = (now, w1)" by fastforce
  obtain r w2 where w2: "get_machine env c a i w1 = (r, w2)" by fastforce
  obtain e w3 where w3: "pause env (10 * second) w2 = (e, w3)" by fastforce
  have "T w1 \<le> T w2"
    using w2 Suc.prems(4) progresses_decode [OF Suc.prems(1)] by (simp add: get_machine_def)
  with progresses_clock [OF Suc.prems(1) w1] have t: "T w \<le> now" "now \<le> T w1" "T w1 \<le> T w2" by auto
  have "health_loop n env c a i timeout deadline w3 \<noteq> None" if "now < deadline" "e = None"
  proof -
    have "T w2 + 10 * second \<le> T w3" using progresses_pause [OF Suc.prems(1)] w3 that by simp
    with t Suc.prems(3) have "deadline - T w3 \<le> (int n - 1) * (10 * second)"
      by (simp add: algebra_simps)
    moreover have "0 < n" using that t Suc.prems(3) by (cases n) auto
    ultimately show ?thesis using Suc by blast
  qed
  then show ?case by (auto simp: w1 w2 w3 Let_def split: option.split)
qed simp

lemma wait_all_terminates:
  assumes "progresses T env" "timeout \<le> int n * (10 * second)" "\<not> dryRun c"
  shows "wait_all (Suc n) env c a timeout ms w \<noteq> None"
proof (induction ms arbitrary: w)
  case (Cons m ms)
  obtain now w1 where w1: "clock env w = (now, w1)" by fastforce
  then have "now \<le> T w1" using progresses_clock [OF assms(1)] by auto
  then have "health_loop (Suc n) env c a (Machine_ID m) timeout (time_add now timeout) w1 \<noteq> None"
    using assms by (intro health_loop_terminates [of T]) (auto simp: time_add_def)
  with Cons show ?case by (auto simp: wait_for_healthy_def w1 simp del: health_loop.simps)
qed simp

lemma deploy_terminates:
  assumes "progresses T env" "HealthTimeout (with_defaults cfg) \<le> int n * (10 * second)"
  shows "deploy (Suc n) env ord c cfg w \<noteq> None"
  using wait_all_terminates [OF assms]
  by (auto simp: deploy_def Let_def simp del: wait_all.simps split: option.split prod.split sum.split)

text \<open>The wanted configuration on the wire.\<close>

lemma desired_wire:
  assumes "map_ok (DeployEnv cfg)" "guest_ok (DeployGuest cfg)" "in_i64 (HealthPort cfg)"
  shows "config_ok (desired_config cfg)"
    and "normal_config (desired_config cfg) = (desired_config cfg)\<lparr>Env := normal (DeployEnv cfg)\<rparr>"
  using assms
  by (simp_all add: config_ok_def desired_config_def slice_of_def service_ok_def port_ok_def concurrency_ok_def map_ok_def
      in_i64_iff normal_config_def normal_service_def normal_port_def normal_def nil_or_empty_def)

section \<open>What a deployment keeps\<close>

context fly_stepwise
begin

lemma ensure_app_keeps: "ensure_app env c a s w = (r, w') \<Longrightarrow> R w w'"
  by (auto simp: ensure_app_def dest: operation_keeps join split: prod.splits sum.splits)

lemma ensure_ips_keeps: "ensure_ips env c a s w = (r, w') \<Longrightarrow> R w w'"
  by (auto simp: ensure_ips_def dest: operation_keeps join split: prod.splits sum.splits if_splits)

lemma ensure_machine_keeps: "ensure_machine env c a rg cfg ex w = (r, w') \<Longrightarrow> R w w'"
  by (auto simp: ensure_machine_def stay dest: operation_keeps join
      split: option.splits prod.splits sum.splits if_splits)

lemma destroy_loop_keeps: "R w (destroy_loop env c a rs ms w)"
proof (induction ms arbitrary: w)
  case (Cons x ms)
  obtain rg m where x: "x = (rg, m)" by (cases x)
  have "R w (snd (destroy_machine env c a (Machine_ID m) w))"
    using operation_keeps(8) prod.collapse by metis
  with Cons x show ?case by (auto intro: join)
qed (simp add: stay)

lemma ensure_loop_keeps: "ensure_loop env c cfg ex rs w = (r, w') \<Longrightarrow> R w w'"
proof (induction rs arbitrary: w w' r)
  case (Cons rg rs)
  then show ?case
    by (auto simp: Let_def dest: ensure_machine_keeps intro: join split: prod.splits sum.splits)
qed (simp add: stay)

lemma health_loop_keeps: "health_loop n env c a m tmo dl w = Some (e, w') \<Longrightarrow> R w w'"
proof (induction n arbitrary: w)
  case (Suc n)
  then show ?case
    by (auto simp: Let_def dest!: reading operation_keeps pausing intro: join
        split: prod.splits option.splits if_splits)
qed simp

lemma wait_all_keeps: "wait_all fuel env c a tmo ms w = Some w' \<Longrightarrow> R w w'"
proof (induction ms arbitrary: w)
  case (Cons m ms)
  then show ?case
    by (auto simp: wait_for_healthy_def dest!: reading health_loop_keeps intro: join split: option.splits prod.splits)
qed (simp add: stay)

lemma deploy_steps_keeps: "deploy_steps env ord c cfg w = (r, w') \<Longrightarrow> R w w'"
  by (auto simp: deploy_steps_def Let_def dest!: ensure_app_keeps ensure_ips_keeps operation_keeps ensure_loop_keeps
      join [OF destroy_loop_keeps] intro: join split: prod.splits sum.splits)

lemma deploy_keeps: "deploy fuel env ord c cfg w = Some (r, w') \<Longrightarrow> R w w'"
  by (auto simp: deploy_def Let_def stay dest!: deploy_steps_keeps wait_all_keeps intro: join
      split: option.splits prod.splits sum.splits if_splits)

end

section \<open>Properties\<close>

text \<open>
  C1: what a deployment destroys: whatever the service answers, the destructions a deployment asks for
  are those of the machines it finds in regions it does not want, for each such region the one listed
  last, and of no machine of a wanted region; a machine whose URL \<open>http.NewRequest\<close> refuses is left
  out.  The regions are compared as they were given, so one with a space around it does not protect
  its machine.
\<close>

theorem deploy_destroys_exactly:
  assumes "\<not> dryRun c" "check_deploy cfg = None" "visits ord"
    and "deploy fuel (recorded env) ord c cfg (w, []) = Some (r, w', hist)"
  shows "{q \<in> set hist. Req_Method q = ''DELETE''}
    = {delete_request c (AppName cfg) m | region m. region \<noteq> [] \<and> region \<notin> set (Regions cfg)
         \<and> find (\<lambda>m. Machine_Region m = region) (rev (found_machines env c cfg w)) = Some m
         \<and> accepted_request env (delete_request c (AppName cfg) m)}"
proof -
  let ?P = "\<lambda>q. Req_Method q \<noteq> ''DELETE''" and ?by = "machines_by_region (found_machines env c cfg w)"
  have P: "meth \<noteq> ''DELETE'' \<Longrightarrow> ?P (fly_request_of c meth path body)" for meth path body
    by (simp add: fly_request_of_def)
  have each: "tracks ?P (ensure_machine (recorded env) c (AppName cfg) rg (with_defaults cfg) ex)
      (ensure_machine env c (AppName cfg) rg (with_defaults cfg) ex)" for rg ex
    by (rule tracks_ensure_machine) (simp_all add: P)
  have app: "adds ?P (ensure_app (recorded env) c (AppName cfg) (OrgSlug cfg) (w, [])) (ensure_app env c (AppName cfg) (OrgSlug cfg) w)"
    by (rule tracks_adds [OF tracks_ensure_app]) (simp_all add: P)
  have ips: "list_all ?P h \<Longrightarrow> adds ?P (ensure_ips (recorded env) c (AppName cfg) s (v, h)) (ensure_ips env c (AppName cfg) s v)" for s v h
    by (rule tracks_adds [OF tracks_ensure_ips]) (simp_all add: P)
  have none: "ord [] = []" using visits_set [OF assms(3), of "[]"] by simp
  have get: "?P (fly_request_of c ''GET'' path None)" for path by (simp add: P)
  from deploy_log [of c cfg ord ?P env w fuel r w' hist, OF assms(1,2) none app ips get each assms(4)] obtain pre post where
    h: "hist = pre @ filter (accepted_request env) (map (\<lambda>(r, m). delete_request c (AppName cfg) m)
          (filter (\<lambda>(r, m). r \<notin> set (Regions cfg)) (ord ?by))) @ post"
    "list_all ?P pre" "list_all ?P post" by blast
  have "Req_Method q \<noteq> ''DELETE''" if "q \<in> set pre \<or> q \<in> set post" for q
    using that h(2,3) by (auto simp: list_all_iff)
  then have eq: "{q \<in> set hist. Req_Method q = ''DELETE''}
      = {q. \<exists>r m. q = delete_request c (AppName cfg) m \<and> (r, m) \<in> set ?by \<and> r \<notin> set (Regions cfg) \<and> accepted_request env q}"
    unfolding h(1) using visits_set [OF assms(3), of ?by] by auto
  have mem: "(r, m) \<in> set ?by \<longleftrightarrow> r \<noteq> [] \<and> find (\<lambda>m. Machine_Region m = r) (rev (found_machines env c cfg w)) = Some m" for r m
    by (simp add: by_region_find flip: gm_get_mem [OF by_region_ok])
  show ?thesis unfolding eq mem by (intro Collect_cong iff_exI) auto
qed

text \<open>A service with one machine, in \<open>iad\<close>, in a world that is its clock.\<close>

definition one_machine_env :: "json \<Rightarrow> gotime fly_env" where
  "one_machine_env cfg = silent_env\<lparr>http_do := (\<lambda>q w.
     (Inr \<lparr>StatusCode = 200, RawBody = [], ParsedBody = Some
        (if Req_URL q = ''/v1/apps/a/machines'' \<and> Req_Method q = ''GET''
         then JArr [JObj [(''id'', JStr ''m1''), (''region'', JStr ''iad''), (''state'', JStr ''started''), (''config'', cfg)]]
         else if Req_URL q = ''/v1/apps/a/ip_assignments'' then JObj [(''ips'', JArr [JObj []])]
         else JObj [])\<rparr>, w))\<rparr>"

definition sample_client :: client where
  "sample_client = set_base_url [] (new_client ''t'' False)"

definition sample_deploy :: "string list \<Rightarrow> string_map \<Rightarrow> deploy_config" where
  "sample_deploy rs e = \<lparr>AppName = ''a'', OrgSlug = ''o'', Regions = rs, DeployImage = ''i'', DeployEnv = e,
     MachineName = [], DeployGuest = DefaultGuest, HealthPort = 0, HealthTimeout = 0\<rparr>"

definition listed_machine :: "machine_config \<Rightarrow> machine" where
  "listed_machine got = zero_machine\<lparr>Machine_ID := ''m1'', Machine_Region := ''iad'',
     Machine_State := ''started'', Machine_Config := got\<rparr>"

lemma sample_client_sel: "baseURL sample_client = []" "\<not> dryRun sample_client"
  by (simp_all add: sample_client_def set_base_url_def new_client_def trim_right_char_def)

lemma one_machine_ok:
  "accepted_request (one_machine_env cfg) q" "progresses (\<lambda>w. w) (one_machine_env cfg)"
  by (simp_all add: accepted_request_def progresses_def one_machine_env_def silent_env_def)

lemma one_machine_do:
  "do_request (one_machine_env cfg) sample_client meth path body w =
     (Inr \<lparr>StatusCode = 200, RawBody = [], ParsedBody = Some
        (if path = ''/v1/apps/a/machines'' \<and> meth = ''GET''
         then JArr [JObj [(''id'', JStr ''m1''), (''region'', JStr ''iad''), (''state'', JStr ''started''), (''config'', cfg)]]
         else if path = ''/v1/apps/a/ip_assignments'' then JObj [(''ips'', JArr [JObj []])]
         else JObj [])\<rparr>, w)"
  by (simp add: do_request_def one_machine_env_def silent_env_def sample_client_sel fly_request_of_def)

lemma one_machine_answers:
  assumes "decode_config cfg zero_config = Inr got"
  shows "get_app (one_machine_env cfg) sample_client ''a'' w = (Inr zero_app, w)"
    "list_ips (one_machine_env cfg) sample_client ''a'' w = (Inr [zero_ip], w)"
    "list_machines (one_machine_env cfg) sample_client ''a'' w = (Inr [listed_machine got], w)"
proof -
  have "decode_machine (JObj [(''id'', JStr ''m1''), (''region'', JStr ''iad''), (''state'', JStr ''started''), (''config'', cfg)])
      zero_machine = Inr (listed_machine got)"
    using assms by (simp add: decode_machine_def field_def listed_machine_def zero_machine_def)
  then show "get_app (one_machine_env cfg) sample_client ''a'' w = (Inr zero_app, w)"
    "list_ips (one_machine_env cfg) sample_client ''a'' w = (Inr [zero_ip], w)"
    "list_machines (one_machine_env cfg) sample_client ''a'' w = (Inr [listed_machine got], w)"
    by (simp_all add: get_app_def list_ips_def list_machines_def sample_client_sel do_decode_def one_machine_do decode_body_def
        app_path_def machines_path_def ips_path_def slice_of_def decode_app_def decode_ip_list_def decode_ip_def
        zero_app_def zero_ip_def field_def)
qed

lemma one_machine_found:
  assumes "decode_config cfg zero_config = Inr got"
  shows "found_machines (one_machine_env cfg) sample_client (sample_deploy rs e) w = [listed_machine got]"
  by (simp add: found_machines_def ensure_app_def ensure_ips_def sample_deploy_def one_machine_answers [OF assms])

lemma one_machine_deploys:
  "\<exists>r w' hist. deploy 31 (recorded (one_machine_env cfg)) ord sample_client (sample_deploy rs e) (0, []) = Some (r, w', hist)"
proof -
  have "progresses (\<lambda>(w, _). w) (recorded (one_machine_env cfg))"
    using one_machine_ok(2) [of cfg] by (auto simp: progresses_def recorded_def split: prod.splits)
  from deploy_terminates [OF this, of "sample_deploy rs e" 30 ord sample_client "(0, [])"]
  show ?thesis by (auto simp: with_defaults_def sample_deploy_def dur_units)
qed

theorem deploy_destroys_exactly_witness:
  "\<exists>r w' hist. deploy 31 (recorded (one_machine_env JNull)) rev sample_client (sample_deploy ['' iad''] None) (0, [])
      = Some (r, w', hist)
    \<and> {q \<in> set hist. Req_Method q = ''DELETE''}
      = {delete_request sample_client ''a'' (listed_machine zero_config)}"
proof -
  obtain r w' hist where d: "deploy 31 (recorded (one_machine_env JNull)) rev sample_client (sample_deploy ['' iad''] None) (0, [])
      = Some (r, w', hist)" using one_machine_deploys by blast
  have "decode_config JNull zero_config = Inr zero_config" by (simp add: decode_config_def)
  note found = one_machine_found [OF this]
  define lm where "lm = listed_machine zero_config"
  have one: "find (\<lambda>m. Machine_Region m = region) (rev [lm]) = (if region = ''iad'' then Some lm else None)" for region
    by (simp add: lm_def listed_machine_def zero_machine_def)
  have cfg: "check_deploy (sample_deploy ['' iad''] None) = None" "AppName (sample_deploy ['' iad''] None) = ''a''"
    "Regions (sample_deploy ['' iad''] None) = ['' iad'']"
    by (simp_all add: check_deploy_def sample_deploy_def)
  note log = deploy_destroys_exactly [OF sample_client_sel(2) cfg(1) visits_rev d]
  have "{q \<in> set hist. Req_Method q = ''DELETE''}
      = {delete_request sample_client ''a'' (listed_machine zero_config)}"
    unfolding log found lm_def [symmetric] one cfg(2,3) by (auto simp: one_machine_ok split: if_splits)
  with d show ?thesis by blast
qed

text \<open>
  C13: deploying again what is already there changes nothing: if the app and its address are there, and
  every wanted region is listed with a machine of exactly the wanted configuration that is not
  stopped, and no other region has one, then every request of the deployment is a read.
\<close>

theorem deploy_converged_reads_only:
  assumes "get_app env c (AppName cfg) w = (Inr ap, w1)" "list_ips env c (AppName cfg) w1 = (Inr (ip # ips), w2)"
    and "list_machines env c (AppName cfg) w2 = (Inr ms, w3)"
    and "\<not> dryRun c" "check_deploy cfg = None" "visits ord"
    and "\<forall>r\<in>set (Regions cfg). \<exists>m. gm_get (machines_by_region ms) (trim_space r) = Some m
        \<and> deep_equal (Machine_Config m) (desired_config (with_defaults cfg)) \<and> \<not> equal_fold (Machine_State m) ''stopped''"
    and "\<forall>m\<in>set ms. Machine_Region m = [] \<or> Machine_Region m \<in> set (Regions cfg)"
    and "deploy fuel (recorded env) ord c cfg (w, []) = Some (r, w', hist)"
  shows "\<forall>q\<in>set hist. Req_Method q = ''GET''"
proof -
  have get: "reading (fly_request_of c ''GET'' path body)" for path body
    by (simp add: reading_def fly_request_of_def)
  have app: "ensure_app env c (AppName cfg) s w = (Inr ap, w1)" for s
    by (simp add: ensure_app_def assms(1))
  have ips: "ensure_ips env c (AppName cfg) s w1 = (Inr (ip # ips), w2)" for s
    by (simp add: ensure_ips_def assms(2))
  have found: "found_machines env c cfg w = ms"
    by (simp add: found_machines_def app ips assms(3))
  have "tracks reading
      (ensure_machine (recorded env) c (AppName cfg) (trim_space rg) (with_defaults cfg) (gm_get (machines_by_region ms) (trim_space rg)))
      (ensure_machine env c (AppName cfg) (trim_space rg) (with_defaults cfg) (gm_get (machines_by_region ms) (trim_space rg)))"
    if "rg \<in> set (Regions cfg)" for rg
    using assms(7) that by (intro tracks_ensure_machine) auto
  note each = this [folded found]
  obtain q1 where "get_app (recorded env) c (AppName cfg) (w, []) = (Inr ap, w1, q1)" "list_all reading q1"
    using tracks_run [OF tracks_get_app [where P = reading, OF get] assms(1), of "[]"] by auto
  then have a: "adds reading (ensure_app (recorded env) c (AppName cfg) s (w, [])) (ensure_app env c (AppName cfg) s w)" for s
    by (simp add: adds_def app) (simp add: ensure_app_def)
  have i: "adds reading (ensure_ips (recorded env) c (AppName cfg) s (v, h)) (ensure_ips env c (AppName cfg) s v)"
    if "ensure_app env c (AppName cfg) (OrgSlug cfg) w = (Inr x, v)" "list_all reading h" for s x v h
  proof -
    obtain q2 where "list_ips (recorded env) c (AppName cfg) (w1, h) = (Inr (ip # ips), w2, h @ q2)" "list_all reading q2"
      using tracks_run [OF tracks_list_ips [where P = reading, OF get] assms(2), of h] by auto
    moreover have "v = w1" using that(1) by (simp add: app)
    ultimately show ?thesis using that(2) by (simp add: adds_def ips) (simp add: ensure_ips_def)
  qed
  have none: "ord [] = []" using visits_set [OF assms(6), of "[]"] by simp
  have "\<exists>pre post. hist = pre @ filter (accepted_request env) (map (\<lambda>(r, m). delete_request c (AppName cfg) m)
          (filter (\<lambda>(r, m). r \<notin> set (Regions cfg)) (ord (machines_by_region (found_machines env c cfg w))))) @ post
      \<and> list_all reading pre \<and> list_all reading post"
    by (rule deploy_log [OF assms(4,5) none a _ get _ assms(9)]) (erule i, assumption, erule each)
  then obtain pre post where
    h: "hist = pre @ filter (accepted_request env) (map (\<lambda>(r, m). delete_request c (AppName cfg) m)
          (filter (\<lambda>(r, m). r \<notin> set (Regions cfg)) (ord (machines_by_region ms)))) @ post"
    "list_all reading pre" "list_all reading post"
    unfolding found by blast
  have "r \<in> set (Regions cfg)" if "(r, m) \<in> set (machines_by_region ms)" for r m
    using that by_region_member [of ms r m] assms(8)
    by (auto simp flip: gm_get_mem [OF by_region_ok] simp: by_region_find split: if_splits)
  then have "filter (\<lambda>(r, m). r \<notin> set (Regions cfg)) (ord (machines_by_region ms)) = []"
    using visits_set [OF assms(6), of "machines_by_region ms"] by (auto simp: filter_empty_conv)
  with h show ?thesis by (auto simp: list_all_iff reading_def)
qed

theorem deploy_converged_reads_only_witness:
  "\<exists>r w' hist. deploy 31 (recorded (one_machine_env (config_json (desired_config (with_defaults (sample_deploy [''iad''] None))))))
        rev sample_client (sample_deploy [''iad''] None) (0, []) = Some (r, w', hist)
    \<and> (\<forall>q\<in>set hist. Req_Method q = ''GET'')"
proof -
  let ?cfg = "sample_deploy [''iad''] None"
  let ?want = "desired_config (with_defaults ?cfg)"
  obtain r w' hist where d: "deploy 31 (recorded (one_machine_env (config_json ?want))) rev sample_client ?cfg (0, [])
      = Some (r, w', hist)" using one_machine_deploys by blast
  have ok: "config_ok ?want" "normal_config ?want = ?want"
    using desired_wire [of "with_defaults ?cfg"]
    by (simp_all add: sample_deploy_def with_defaults_def map_ok_def guest_ok_def DefaultGuest_def in_i64_iff normal_def
        nil_or_empty_def desired_config_def)
  have "decode_config (config_json ?want) zero_config = Inr ?want" using ok by (simp add: decode_config_json)
  then have answers: "get_app (one_machine_env (config_json ?want)) sample_client (AppName ?cfg) 0 = (Inr zero_app, 0)"
    "list_ips (one_machine_env (config_json ?want)) sample_client (AppName ?cfg) 0 = (Inr [zero_ip], 0)"
    "list_machines (one_machine_env (config_json ?want)) sample_client (AppName ?cfg) 0 = (Inr [listed_machine ?want], 0)"
    using one_machine_answers [of "config_json ?want"] by (simp_all add: sample_deploy_def)
  have m: "gm_get (machines_by_region [listed_machine ?want]) ''iad'' = Some (listed_machine ?want)"
    "Machine_Region (listed_machine ?want) = ''iad''" "Machine_Config (listed_machine ?want) = ?want"
    "Machine_State (listed_machine ?want) = ''started''"
    by (simp_all add: by_region_find listed_machine_def)
  have rs: "Regions ?cfg = [''iad'']" "check_deploy ?cfg = None" "AppName ?cfg = ''a''"
    by (simp_all add: sample_deploy_def check_deploy_def)
  have trim: "trim_space ''iad'' = ''iad''" "\<not> equal_fold ''started'' ''stopped''" by code_simp+
  have "\<forall>q\<in>set hist. Req_Method q = ''GET''"
    by (rule deploy_converged_reads_only [OF answers sample_client_sel(2) rs(2) visits_rev _ _ d])
      (simp_all add: rs(1) m trim deep_equal_refl [OF ok(1)])
  with d show ?thesis by blast
qed

text \<open>
  The configuration that comes back from the API equals the wanted one exactly when the environment
  is not an empty map.
\<close>

lemma own_config_recognised:
  assumes "map_ok (DeployEnv cfg)" "guest_ok (DeployGuest cfg)" "in_i64 (HealthPort cfg)"
    and "decode_config (config_json (desired_config cfg)) zero_config = Inr got"
  shows "deep_equal got (desired_config cfg) \<longleftrightarrow> DeployEnv cfg \<noteq> Some []"
proof -
  from assms(4) desired_wire [OF assms(1-3)] have got: "got = (desired_config cfg)\<lparr>Env := normal (DeployEnv cfg)\<rparr>"
    by (simp add: decode_config_json)
  have "map_equal (normal (DeployEnv cfg)) (DeployEnv cfg) \<longleftrightarrow> DeployEnv cfg \<noteq> Some []"
    using assms(1) map_equal_refl [OF assms(1)]
    by (auto simp: normal_def nil_or_empty_def map_equal_def split: option.splits)
  moreover have "Env (desired_config cfg) = DeployEnv cfg" "Metadata (desired_config cfg) = None"
    by (simp_all add: desired_config_def)
  ultimately show ?thesis by (simp add: got deep_equal_def map_equal_def)
qed

text \<open>
  A dry run makes no request and waits for nothing: the world is as it was, and the result names the
  app and one machine for each region, in order, with the name and the configuration a real run
  would ask for.
\<close>

lemma dry_deploy:
  assumes "dryRun c" "check_deploy cfg = None" "visits ord"
  shows "\<exists>r. deploy fuel env ord c cfg w = Some (Inr r, w) \<and> Result_DryRun r \<and> App_Name (Result_App r) = AppName cfg
    \<and> map (\<lambda>m. (Machine_Name m, Machine_Region m, Machine_Config m)) (Result_Machines r)
      = map (\<lambda>rg. let q = desired_request (with_defaults cfg) (trim_space rg) in (Req_Name q, Req_Region q, Req_Config q))
          (Regions cfg)"
proof -
  let ?cfg = "with_defaults cfg"
  have none: "ord [] = []" using visits_set [OF assms(3), of "[]"] by simp
  have "\<exists>ms. ensure_loop env c ?cfg [] rs w = (Inr ms, w)
      \<and> map (\<lambda>m. (Machine_Name m, Machine_Region m, Machine_Config m)) ms
        = map (\<lambda>rg. let q = desired_request ?cfg (trim_space rg) in (Req_Name q, Req_Region q, Req_Config q)) rs" for rs
    by (induction rs) (auto simp: ensure_machine_def create_machine_def assms(1) Let_def)
  then obtain ms where ms: "ensure_loop env c ?cfg [] (Regions cfg) w = (Inr ms, w)"
    "map (\<lambda>m. (Machine_Name m, Machine_Region m, Machine_Config m)) ms
      = map (\<lambda>rg. let q = desired_request ?cfg (trim_space rg) in (Req_Name q, Req_Region q, Req_Config q)) (Regions cfg)"
    by blast
  then show ?thesis
    by (simp add: deploy_def assms deploy_steps_def ensure_app_def get_app_def ensure_ips_def list_ips_def allocate_ip_def
        list_machines_def machines_by_region_def none Let_def)
qed

text \<open>
  C40: destroying an app lists its machines and asks for the destruction of each, in the listed order,
  and reports success however many of those requests failed, or were not made because the URL of a
  machine is refused.
\<close>

theorem destroy_requests:
  assumes "\<not> dryRun c" "list_machines env c a w = (Inr ms, w')"
  shows "\<exists>w''. destroy (recorded env) c a (w, [])
    = (None, w'', fly_request_of c ''GET'' (machines_path a) None
         # filter (accepted_request env) (map (delete_request c a) ms))"
proof -
  have "accepted_request env (fly_request_of c ''GET'' (machines_path a) None)"
    using assms by (auto simp: list_machines_def do_decode_def do_request_def accepted_request_def fly_request_of_def
        split: option.splits)
  then show ?thesis
    using recorded_list_machines [OF assms(1), of env a w "[]"] recorded_destroy_all [OF assms(1), of env] assms(2)
    by (simp add: destroy_def)
qed

theorem destroy_requests_witness:
  "\<exists>w''. destroy (recorded (one_machine_env JNull)) sample_client ''a'' (0, [])
    = (None, w'', [fly_request_of sample_client ''GET'' (machines_path ''a'') None,
                   delete_request sample_client ''a'' (listed_machine zero_config)])"
proof -
  have "decode_config JNull zero_config = Inr zero_config" by (simp add: decode_config_def)
  from destroy_requests [OF sample_client_sel(2) one_machine_answers(3) [OF this]] show ?thesis by (simp add: one_machine_ok)
qed

end
