(* ===== verification/Cli_Deploy.thy ===== *)
theory Cli_Deploy
  imports Config Container_Image Fly_Deployer
begin

text \<open>
  The commands of \<open>cmd/turnfly/main.go\<close> that deploy: \<open>autodeploy\<close>, \<open>deploy\<close>, \<open>destroy\<close> and
  \<open>image push\<close>, with the parsers of their flags.  A command reads the environment variables, the
  values of its flags and what the user types, and works on one world through the Fly API, the
  Docker Engine, the clock and the random source; it ends with an error or with none, and with
  what it printed.
\<close>

section \<open>Flags\<close>

datatype cli_error =
    FlyTokenRequired
  | AppRequired
  | OrgRequired
  | CliImageRequired
  | NoRegions
  | BadEnvFlag string
  | SecretFailed string
  | AdminTokenFailed string
  | ImageAppFailed fly_error
  | PublisherFailed publish_error
  | PublishFailed publish_error
  | DeployFailed deploy_error
  | DestroyFailed fly_error

definition parse_region_list :: "string \<Rightarrow> cli_error + string list" where
  "parse_region_list flag =
     (let clean = filter (\<lambda>r. r \<noteq> []) (map trim_space (split_all CHR '','' flag))
      in if clean = [] then Inl NoRegions else Inr clean)"

fun parse_env_loop :: "string list \<Rightarrow> (string, string) gomap \<Rightarrow> cli_error + (string, string) gomap" where
  "parse_env_loop [] env = Inr env"
| "parse_env_loop (e # es) env =
     (let parts = split_n2 CHR ''='' e
      in if length parts \<noteq> 2 \<or> parts ! 0 = [] then Inl (BadEnvFlag e)
         else parse_env_loop es (gm_put (parts ! 0) (parts ! 1) env))"

definition parse_env_flags :: "string list \<Rightarrow> cli_error + (string, string) gomap" where
  "parse_env_flags envVars = parse_env_loop envVars []"

definition generate_secret :: "'w rand_source \<Rightarrow> nat \<Rightarrow> 'w \<Rightarrow> (string + string) \<times> 'w" where
  "generate_secret rnd n w =
     (case rnd n w of
        (Inl e, w) \<Rightarrow> (Inl e, w)
      | (Inr data, w) \<Rightarrow> (Inr (base64_raw_url data), w))"

text \<open>\<open>time.Now().UTC().Format("20060102-150405")\<close>.\<close>

definition pad_zero :: "nat \<Rightarrow> int \<Rightarrow> string" where
  "pad_zero n i = (let s = show_int i in replicate (n - length s) CHR ''0'' @ s)"

definition format_stamp :: "gotime \<Rightarrow> string" where
  "format_stamp t =
     (let secs = unix_sec t; sod = secs mod 86400
      in case civil_date (secs div 86400) of (y, m, d) \<Rightarrow>
           pad_zero 4 y @ pad_zero 2 m @ pad_zero 2 d @ ''-''
             @ pad_zero 2 (sod div 3600) @ pad_zero 2 (sod div 60 mod 60) @ pad_zero 2 (sod mod 60))"

section \<open>What a command works on\<close>

text \<open>The last field is the quoting of \<open>fmt\<close>'s \<open>%q\<close>.\<close>

record 'w system =
  getenv :: env
  fly :: "'w fly_env"
  docker :: "'w docker_env"
  rand :: "'w rand_source"
  machine_ord :: machine_order
  quoted :: "string \<Rightarrow> string"

definition cli_config :: "'w system \<Rightarrow> string \<Rightarrow> string \<Rightarrow> config" where
  "cli_config sys appName orgSlug =
     (let cfg = load_from_env (getenv sys) DefaultConfig;
          cfg = (if appName \<noteq> [] then cfg\<lparr>FlyAppName := appName\<rparr> else cfg)
      in if orgSlug \<noteq> [] then cfg\<lparr>FlyOrg := orgSlug\<rparr> else cfg)"

definition check_cli :: "config \<Rightarrow> cli_error option" where
  "check_cli cfg =
     (if FlyAPIToken cfg = [] then Some FlyTokenRequired
      else if FlyAppName cfg = [] then Some AppRequired
      else if FlyOrg cfg = [] then Some OrgRequired
      else None)"

definition registry_image :: "string \<Rightarrow> string \<Rightarrow> string" where
  "registry_image appName tag = ''registry.fly.io/'' @ appName @ '':'' @ tag"

text \<open>The deployment both commands ask for; the health port and timeout keep their zero values.\<close>

definition cli_deploy_config :: "config \<Rightarrow> string list \<Rightarrow> string \<Rightarrow> (string, string) gomap \<Rightarrow> deploy_config" where
  "cli_deploy_config cfg rs img env =
     \<lparr>AppName = FlyAppName cfg, OrgSlug = FlyOrg cfg, Regions = rs, DeployImage = img, DeployEnv = Some env,
      MachineName = ''turnfly'', DeployGuest = DefaultGuest, HealthPort = 0, HealthTimeout = 0\<rparr>"

definition print_line :: "string \<Rightarrow> string" where
  "print_line s = s @ [newline]"

definition print_ips :: "deploy_result \<Rightarrow> string" where
  "print_ips r = concat (map (\<lambda>ip. print_line (''IP: '' @ Address ip @ '' ('' @ IP_Type ip @ '')'')) (Result_IPs r))"

section \<open>autodeploy\<close>

record autodeploy_flags =
  auto_app :: string
  auto_org :: string
  auto_regions :: string
  auto_image :: string
  auto_tag :: string
  auto_context :: string
  auto_dockerfile :: string
  auto_docker_host :: string
  auto_dry_run :: bool
  auto_skip_image :: bool
  auto_realm :: string
  auto_secret :: string
  auto_admin :: string
  auto_env :: "string list"

text \<open>The values of the flags that are not given.\<close>

definition autodeploy_defaults :: autodeploy_flags where
  "autodeploy_defaults =
     \<lparr>auto_app = [], auto_org = [], auto_regions = ''iad'', auto_image = [], auto_tag = [], auto_context = ''.'',
      auto_dockerfile = ''Dockerfile'', auto_docker_host = [], auto_dry_run = False, auto_skip_image = False,
      auto_realm = [], auto_secret = [], auto_admin = [], auto_env = []\<rparr>"

text \<open>The image: as given, or from the app and the tag, which defaults to the time.\<close>

definition auto_image_ref :: "'w system \<Rightarrow> config \<Rightarrow> autodeploy_flags \<Rightarrow> 'w \<Rightarrow> string \<times> 'w" where
  "auto_image_ref sys cfg f w =
     (if auto_image f \<noteq> [] then (auto_image f, w)
      else let (tag, w) = (if auto_tag f = [] then (case clock (fly sys) w of (now, w) \<Rightarrow> (format_stamp now, w))
                           else (auto_tag f, w))
           in (registry_image (FlyAppName cfg) tag, w))"

text \<open>A secret: the flag, else the configured one, else a fresh one.\<close>

definition choose_secret :: "'w system \<Rightarrow> string \<Rightarrow> string \<Rightarrow> 'w \<Rightarrow> (string + string) \<times> 'w" where
  "choose_secret sys flag configured w =
     (let s = (if flag = [] then configured else flag)
      in if s = [] then generate_secret (rand sys) 32 w else (Inr s, w))"

definition auto_realm_of :: "config \<Rightarrow> autodeploy_flags \<Rightarrow> string" where
  "auto_realm_of cfg f =
     (let realm = (if auto_realm f = [] then TURNRealm cfg else auto_realm f)
      in if realm = [] then FlyAppName cfg @ ''.fly.dev'' else realm)"

definition deployed_env :: "string \<Rightarrow> string \<Rightarrow> string \<Rightarrow> string \<Rightarrow> (string, string) gomap \<Rightarrow> (string, string) gomap" where
  "deployed_env realm secret admin appName env =
     gm_put ''FLY_APP_NAME'' appName (gm_put ''ADMIN_API_TOKEN'' admin
       (gm_put ''TURN_SHARED_SECRET'' secret (gm_put ''TURN_REALM'' realm env)))"

text \<open>Everything up to the first request.\<close>

definition autodeploy_plan ::
  "'w system \<Rightarrow> autodeploy_flags \<Rightarrow> 'w \<Rightarrow> (cli_error + config \<times> deploy_config) \<times> 'w" where
  "autodeploy_plan sys f w =
     (let cfg = cli_config sys (auto_app f) (auto_org f)
      in case check_cli cfg of
           Some e \<Rightarrow> (Inl e, w)
         | None \<Rightarrow>
             (case parse_region_list (auto_regions f) of
                Inl e \<Rightarrow> (Inl e, w)
              | Inr rs \<Rightarrow>
                  let (img, w) = auto_image_ref sys cfg f w
                  in case parse_env_flags (auto_env f) of
                       Inl e \<Rightarrow> (Inl e, w)
                     | Inr env \<Rightarrow>
                         (case choose_secret sys (auto_secret f) (TURNSharedSecret cfg) w of
                            (Inl e, w) \<Rightarrow> (Inl (SecretFailed e), w)
                          | (Inr secret, w) \<Rightarrow>
                              (case choose_secret sys (auto_admin f) (AdminAPIToken cfg) w of
                                 (Inl e, w) \<Rightarrow> (Inl (AdminTokenFailed e), w)
                               | (Inr admin, w) \<Rightarrow>
                                   (Inr (cfg, cli_deploy_config cfg rs img
                                      (deployed_env (auto_realm_of cfg f) secret admin (FlyAppName cfg) env)), w)))))"

definition ensure_image_app :: "'w fly_env \<Rightarrow> client \<Rightarrow> string \<Rightarrow> string \<Rightarrow> 'w \<Rightarrow> cli_error option \<times> 'w" where
  "ensure_image_app env c appName orgSlug w =
     (case get_app env c appName w of
        (Inr a, w) \<Rightarrow> (None, w)
      | (Inl e, w) \<Rightarrow>
          (case create_app env c appName orgSlug w of
             (Inl e, w) \<Rightarrow> (Some (ImageAppFailed e), w)
           | (Inr a, w) \<Rightarrow> (None, w)))"

definition publish ::
  "'w system \<Rightarrow> string \<Rightarrow> publish_config \<Rightarrow> 'w \<Rightarrow> cli_error option \<times> string \<times> 'w" where
  "publish sys dockerHost pc w =
     (case new_docker_publisher (getenv sys) dockerHost of
        Inl e \<Rightarrow> (Some (PublisherFailed e), [], w)
      | Inr p \<Rightarrow>
          (case build_and_push (docker sys) p pc (Some [], w) of
             (e, out, w) \<Rightarrow> (map_option PublishFailed e, the out, w)))"

definition autodeploy_report :: "string \<Rightarrow> deploy_result \<Rightarrow> string" where
  "autodeploy_report img r =
     [newline] @ print_line (''Autodeploy complete. App: '' @ App_Name (Result_App r))
       @ print_line (''Image: '' @ img)
       @ print_line (''Regions: '' @ join_with '', '' (Result_Regions r))
       @ print_line (''Machines: '' @ show_int (int (length (Result_Machines r))))
       @ print_ips r"

definition autodeploy ::
  "nat \<Rightarrow> 'w system \<Rightarrow> autodeploy_flags \<Rightarrow> 'w \<Rightarrow> (cli_error option \<times> string \<times> 'w) option" where
  "autodeploy fuel sys f w =
     (case autodeploy_plan sys f w of
        (Inl e, w) \<Rightarrow> Some (Some e, [], w)
      | (Inr (cfg, dc), w) \<Rightarrow>
          let c = new_client (FlyAPIToken cfg) (auto_dry_run f)
          in case (if \<not> auto_dry_run f then ensure_image_app (fly sys) c (FlyAppName cfg) (FlyOrg cfg) w else (None, w)) of
               (Some e, w) \<Rightarrow> Some (Some e, [], w)
             | (None, w) \<Rightarrow>
                 (case (if \<not> auto_dry_run f \<and> \<not> auto_skip_image f
                        then publish sys (auto_docker_host f)
                               \<lparr>ContextDir = auto_context f, Dockerfile = auto_dockerfile f,
                                PublishImage = DeployImage dc, PublishToken = FlyAPIToken cfg\<rparr> w
                        else (None, [], w)) of
                    (Some e, out, w) \<Rightarrow> Some (Some e, out, w)
                  | (None, out, w) \<Rightarrow>
                      (case deploy fuel (fly sys) (machine_ord sys) c dc w of
                         None \<Rightarrow> None
                       | Some (Inl e, w) \<Rightarrow> Some (Some (DeployFailed e), out, w)
                       | Some (Inr r, w) \<Rightarrow> Some (None, out @ autodeploy_report (DeployImage dc) r, w))))"

section \<open>deploy, destroy and image push\<close>

record deploy_flags =
  dep_app :: string
  dep_org :: string
  dep_regions :: string
  dep_image :: string
  dep_dry_run :: bool
  dep_env :: "string list"

definition deploy_defaults :: deploy_flags where
  "deploy_defaults =
     \<lparr>dep_app = [], dep_org = [], dep_regions = [], dep_image = [], dep_dry_run = False, dep_env = []\<rparr>"

definition deploy_plan :: "'w system \<Rightarrow> deploy_flags \<Rightarrow> cli_error + config \<times> deploy_config" where
  "deploy_plan sys f =
     (let cfg = cli_config sys (dep_app f) (dep_org f)
      in case check_cli cfg of
           Some e \<Rightarrow> Inl e
         | None \<Rightarrow>
             if dep_image f = [] then Inl CliImageRequired
             else bind_res (parse_region_list (dep_regions f)) (\<lambda>rs.
               bind_res (parse_env_flags (dep_env f)) (\<lambda>env.
                 Inr (cfg, cli_deploy_config cfg rs (dep_image f) env))))"

definition deploy_report :: "deploy_result \<Rightarrow> string" where
  "deploy_report r =
     [newline] @ print_line (''Deploy complete. App: '' @ App_Name (Result_App r))
       @ print_line (''Regions: '' @ join_with '', '' (Result_Regions r))
       @ print_line (''Machines: '' @ show_int (int (length (Result_Machines r))))
       @ concat (map (\<lambda>m. print_line (''  '' @ Machine_Name m @ '' ('' @ Machine_Region m @ '') ''
            @ [CHR 0xE2, CHR 0x80, CHR 0x94] @ '' '' @ Machine_State m)) (Result_Machines r))
       @ print_ips r"

definition deploy_command ::
  "nat \<Rightarrow> 'w system \<Rightarrow> deploy_flags \<Rightarrow> 'w \<Rightarrow> (cli_error option \<times> string \<times> 'w) option" where
  "deploy_command fuel sys f w =
     (case deploy_plan sys f of
        Inl e \<Rightarrow> Some (Some e, [], w)
      | Inr (cfg, dc) \<Rightarrow>
          (case deploy fuel (fly sys) (machine_ord sys) (new_client (FlyAPIToken cfg) (dep_dry_run f)) dc w of
             None \<Rightarrow> None
           | Some (Inl e, w) \<Rightarrow> Some (Some (DeployFailed e), [], w)
           | Some (Inr r, w) \<Rightarrow> Some (None, deploy_report r, w)))"

text \<open>The answer is the word \<open>fmt.Scanln\<close> reads, empty when it reads none.\<close>

definition destroy_command ::
  "'w system \<Rightarrow> string \<Rightarrow> bool \<Rightarrow> bool \<Rightarrow> string \<Rightarrow> 'w \<Rightarrow> cli_error option \<times> string \<times> 'w" where
  "destroy_command sys appName yesFlag dry answer w =
     (let cfg = cli_config sys appName []
      in if FlyAPIToken cfg = [] then (Some FlyTokenRequired, [], w)
         else if FlyAppName cfg = [] then (Some AppRequired, [], w)
         else let prompt = (if yesFlag then [] else ''Destroy all machines for app '' @ quoted sys (FlyAppName cfg) @ ''? [y/N]: '')
              in if \<not> yesFlag \<and> \<not> equal_fold answer ''y'' \<and> \<not> equal_fold answer ''yes''
                 then (None, prompt @ print_line ''Aborted.'', w)
                 else (case destroy (fly sys) (new_client (FlyAPIToken cfg) dry) (FlyAppName cfg) w of
                         (Some e, w) \<Rightarrow> (Some (DestroyFailed e), prompt, w)
                       | (None, w) \<Rightarrow> (None, prompt @ print_line ''Destroy complete.'', w)))"

record image_push_flags =
  push_app :: string
  push_image :: string
  push_tag :: string
  push_context :: string
  push_dockerfile :: string
  push_docker_host :: string

definition image_push_defaults :: image_push_flags where
  "image_push_defaults =
     \<lparr>push_app = [], push_image = [], push_tag = ''latest'', push_context = ''.'', push_dockerfile = ''Dockerfile'',
      push_docker_host = []\<rparr>"

definition image_push_ref :: "config \<Rightarrow> image_push_flags \<Rightarrow> cli_error + string" where
  "image_push_ref cfg f =
     (if FlyAPIToken cfg = [] then Inl FlyTokenRequired
      else if push_image f \<noteq> [] then Inr (push_image f)
      else if FlyAppName cfg = [] then Inl AppRequired
      else Inr (registry_image (FlyAppName cfg) (if push_tag f = [] then ''latest'' else push_tag f)))"

definition image_push_command ::
  "'w system \<Rightarrow> image_push_flags \<Rightarrow> 'w \<Rightarrow> cli_error option \<times> string \<times> 'w" where
  "image_push_command sys f w =
     (let cfg = cli_config sys (push_app f) []
      in case image_push_ref cfg f of
           Inl e \<Rightarrow> (Some e, [], w)
         | Inr img \<Rightarrow>
             (case publish sys (push_docker_host f)
                     \<lparr>ContextDir = push_context f, Dockerfile = push_dockerfile f, PublishImage = img,
                      PublishToken = FlyAPIToken cfg\<rparr> w of
                (Some e, out, w) \<Rightarrow> (Some e, out, w)
              | (None, out, w) \<Rightarrow> (None, out @ print_line (''Image pushed: '' @ img), w)))"

section \<open>Flags, exactly\<close>

text \<open>
  Without a flag \<open>autodeploy\<close> asks for one machine in \<open>iad\<close>, of an image in the registry tagged with the
  time, and \<open>deploy\<close> never gets to a request: it wants an image, and then regions.
\<close>

lemma bare_autodeploy:
  assumes "autodeploy_plan sys autodeploy_defaults w = (Inr (cfg, dc), w')"
  shows "Regions dc = [''iad''] \<and> DeployImage dc = registry_image (FlyAppName cfg) (format_stamp (fst (clock (fly sys) w)))"
proof -
  have "parse_region_list ''iad'' = Inr [''iad'']" by code_simp
  with assms show ?thesis
    by (auto simp: autodeploy_plan_def autodeploy_defaults_def auto_image_ref_def cli_deploy_config_def parse_env_flags_def
        Let_def split: option.splits prod.splits sum.splits)
qed

lemma bare_deploy:
  "deploy_plan sys deploy_defaults = Inl (case check_cli (cli_config sys [] []) of Some e \<Rightarrow> e | None \<Rightarrow> CliImageRequired)"
  "dep_image f \<noteq> [] \<Longrightarrow> dep_regions f = [] \<Longrightarrow> check_cli (cli_config sys (dep_app f) (dep_org f)) = None \<Longrightarrow>
     deploy_plan sys f = Inl NoRegions"
proof -
  show "deploy_plan sys deploy_defaults = Inl (case check_cli (cli_config sys [] []) of Some e \<Rightarrow> e | None \<Rightarrow> CliImageRequired)"
    by (simp add: deploy_plan_def deploy_defaults_def Let_def split: option.split)
  have "parse_region_list [] = Inl NoRegions" by code_simp
  then show "dep_image f \<noteq> [] \<Longrightarrow> dep_regions f = [] \<Longrightarrow> check_cli (cli_config sys (dep_app f) (dep_org f)) = None \<Longrightarrow>
     deploy_plan sys f = Inl NoRegions"
    by (simp add: deploy_plan_def Let_def)
qed

lemma trim_space_idem: "trim_space (trim_space s) = trim_space s"
proof -
  define t where "t = trim_front go_spaces s"
  have "\<exists>p. rev t = p @ rev (trim_space s)"
    using trim_front_suffix [of "rev t" "map rev go_spaces"] by (simp add: trim_space_def t_def)
  then have pre: "\<exists>q. t = trim_space s @ q" by (metis rev_append rev_rev_ident)
  have "\<forall>w\<in>set go_spaces. w \<noteq> [] \<longrightarrow> \<not> has_prefix (trim_space s) w"
  proof (intro ballI impI notI)
    fix w assume w: "w \<in> set go_spaces" "w \<noteq> []" "has_prefix (trim_space s) w"
    with pre have "has_prefix t w" by (auto simp: has_prefix_iff)
    then show False using trim_front_stopped [OF w(1,2), of s] by (simp add: t_def)
  qed
  then have "trim_front go_spaces (trim_space s) = trim_space s" by (rule trim_front_stop)
  then show ?thesis by (simp add: trim_space_def trim_front_idem)
qed

text \<open>
  A region list that is accepted is not empty and holds the regions of the flag in order: every
  one trimmed, none empty, none with a comma. So the regions the command line deploys to are the
  ones the deployment compares machines with.
\<close>

lemma parse_region_list_clean:
  assumes "parse_region_list flag = Inr rs"
  shows "rs \<noteq> [] \<and> (\<forall>r\<in>set rs. r \<noteq> [] \<and> trim_space r = r \<and> CHR '','' \<notin> set r)
    \<and> rs = filter (\<lambda>r. r \<noteq> []) (map trim_space (split_all CHR '','' flag))"
proof -
  have rs: "rs = filter (\<lambda>r. r \<noteq> []) (map trim_space (split_all CHR '','' flag))" "rs \<noteq> []"
    using assms by (auto simp: parse_region_list_def Let_def split: if_splits)
  have sub: "set (trim_space p) \<subseteq> set p" for p
  proof -
    obtain a b where "p = a @ trim_front go_spaces p"
      "rev (trim_front go_spaces p) = b @ trim_front (map rev go_spaces) (rev (trim_front go_spaces p))"
      using trim_front_suffix by blast
    then show ?thesis unfolding trim_space_def by (metis Un_iff set_append set_rev subsetI)
  qed
  show ?thesis
    using rs sub split_all_no_sep [of _ "CHR '',''" flag] by (fastforce simp: trim_space_idem)
qed

lemma parse_region_list_clean_witness:
  "parse_region_list '' iad, ,lhr '' = Inr [''iad'', ''lhr''] \<and> CHR '','' \<notin> set ''lhr''"
proof -
  have p: "parse_region_list '' iad, ,lhr '' = Inr [''iad'', ''lhr'']" by code_simp
  from parse_region_list_clean [OF p] p show ?thesis by simp
qed

lemma parse_env_loop_keeps:
  "parse_env_loop es m = Inr m' \<Longrightarrow> gm_ok m \<Longrightarrow> gm_ok m'"
  by (induction es arbitrary: m) (auto simp: Let_def wf_intros split: if_splits)

lemma parse_env_loop_other:
  assumes "parse_env_loop es m = Inr m'" and "list_all (\<lambda>e. \<not> has_prefix e (k @ ''='')) es"
  shows "gm_get m' k = gm_get m k"
  using assms
proof (induction es arbitrary: m)
  case (Cons e es)
  from Cons.prems(1) have "length (split_n2 CHR ''='' e) = 2" by (auto simp: Let_def split: if_splits)
  then obtain a b where "split_n2 CHR ''='' e = [a, b]"
    by (auto simp: length_Suc_conv numeral_2_eq_2)
  moreover from this have "e = a @ CHR ''='' # b" by (simp add: split_n2_two)
  ultimately show ?case using Cons by (auto simp: Let_def has_prefix_iff split: if_splits)
qed simp

lemma parse_env_flags_ok: "parse_env_flags es = Inr m \<Longrightarrow> gm_ok m"
  by (simp add: parse_env_flags_def parse_env_loop_keeps)

lemma parse_env_flags_other:
  "parse_env_flags es = Inr m \<Longrightarrow> list_all (\<lambda>e. \<not> has_prefix e (k @ ''='')) es \<Longrightarrow> gm_get m k = None"
  using parse_env_loop_other [of es "[]" m k] by (simp add: parse_env_flags_def)

lemma parse_env_flags_empty: "parse_env_flags es = Inr m \<Longrightarrow> m = [] \<longleftrightarrow> es = []"
proof -
  have put: "gm_put k v m \<noteq> []" for k v and m :: "(string, string) gomap"
    by (cases m) auto
  have "parse_env_loop es m = Inr m' \<Longrightarrow> m \<noteq> [] \<Longrightarrow> m' \<noteq> []" for es m m'
    by (induction es arbitrary: m) (auto simp: Let_def put split: if_splits)
  with put show "parse_env_flags es = Inr m \<Longrightarrow> m = [] \<longleftrightarrow> es = []"
    by (cases es) (auto simp: parse_env_flags_def Let_def split: if_splits)
qed

section \<open>What the commands plan\<close>

lemma plan_cases:
  assumes "autodeploy_plan sys f w = (Inr (cfg, dc), w')"
  obtains rs img env secret admin w1 w2 where
    "cfg = cli_config sys (auto_app f) (auto_org f)" "check_cli cfg = None"
    "parse_region_list (auto_regions f) = Inr rs" "auto_image_ref sys cfg f w = (img, w1)"
    "parse_env_flags (auto_env f) = Inr env"
    "choose_secret sys (auto_secret f) (TURNSharedSecret cfg) w1 = (Inr secret, w2)"
    "choose_secret sys (auto_admin f) (AdminAPIToken cfg) w2 = (Inr admin, w')"
    "dc = cli_deploy_config cfg rs img (deployed_env (auto_realm_of cfg f) secret admin (FlyAppName cfg) env)"
  using assms
  by (auto simp: autodeploy_plan_def Let_def split: option.splits sum.splits prod.splits)

lemma generate_secret_length:
  "rand_fills rnd \<Longrightarrow> generate_secret rnd n w = (Inr s, w') \<Longrightarrow> length s = (4 * n + 2) div 3"
  by (auto simp: generate_secret_def length_base64_raw_url dest: rand_fillsD split: prod.splits sum.splits)

lemma choose_secret_nonempty:
  "rand_fills (rand sys) \<Longrightarrow> choose_secret sys flag configured w = (Inr s, w') \<Longrightarrow> s \<noteq> []"
  by (auto simp: choose_secret_def Let_def dest: generate_secret_length split: if_splits)

lemma realm_nonempty: "auto_realm_of cfg f \<noteq> []"
  by (simp add: auto_realm_of_def Let_def)

text \<open>The variables of a machine as the process on it sees them.\<close>

definition env_lookup :: "(string, string) gomap \<Rightarrow> env" where
  "env_lookup m name = (case gm_get m name of Some v \<Rightarrow> v | None \<Rightarrow> [])"

section \<open>Properties\<close>

text \<open>
  What \<open>autodeploy\<close> sends to a machine is enough for \<open>serve-turn\<close> to start there: with the random
  source in order, and unless an \<open>--env\<close> flag sets a port or the log level, the configuration
  loaded from the machine's variables passes validation, whatever was configured or generated here.
\<close>

lemma autodeploy_server_starts:
  assumes "autodeploy_plan sys f w = (Inr (cfg, dc), w')" and "rand_fills (rand sys)"
    and "\<forall>k\<in>{''TURN_PORT'', ''HTTP_PORT'', ''LOG_LEVEL''}. list_all (\<lambda>e. \<not> has_prefix e (k @ ''='')) (auto_env f)"
  shows "config_validate (load_from_env (env_lookup (the (DeployEnv dc))) DefaultConfig) = []"
proof -
  from assms(1) obtain rs img env secret admin w1 w2 where p:
    "parse_env_flags (auto_env f) = Inr env"
    "choose_secret sys (auto_secret f) (TURNSharedSecret cfg) w1 = (Inr secret, w2)"
    "choose_secret sys (auto_admin f) (AdminAPIToken cfg) w2 = (Inr admin, w')"
    "dc = cli_deploy_config cfg rs img (deployed_env (auto_realm_of cfg f) secret admin (FlyAppName cfg) env)"
    by (rule plan_cases)
  have unset: "gm_get env k = None" if "k \<in> {''TURN_PORT'', ''HTTP_PORT'', ''LOG_LEVEL''}" for k
    using that assms(3) by (intro parse_env_flags_other [OF p(1)]) blast
  define e where "e = env_lookup (the (DeployEnv dc))"
  have "e ''TURN_REALM'' \<noteq> []" "e ''TURN_SHARED_SECRET'' \<noteq> []" "e ''ADMIN_API_TOKEN'' \<noteq> []"
    "e ''TURN_PORT'' = []" "e ''HTTP_PORT'' = []" "e ''LOG_LEVEL'' = []"
    using unset realm_nonempty choose_secret_nonempty [OF assms(2) p(2)] choose_secret_nonempty [OF assms(2) p(3)]
    by (simp_all add: e_def p(4) cli_deploy_config_def deployed_env_def env_lookup_def)
  then show ?thesis
    unfolding e_def [symmetric]
    by (simp add: config_validate_def loaded_fields) (simp add: DefaultConfig_def)
qed

lemma clean_regions_nonempty: "parse_region_list flag = Inr rs \<Longrightarrow> rs \<noteq> []"
  by (auto simp: parse_region_list_def Let_def split: if_splits)

lemma plan_checks:
  "autodeploy_plan sys f w = (Inr (cfg, dc), w') \<Longrightarrow> check_deploy dc = None"
  "deploy_plan sys g = Inr (cfg, dc) \<Longrightarrow> check_deploy dc = None"
proof -
  assume "autodeploy_plan sys f w = (Inr (cfg, dc), w')"
  then show "check_deploy dc = None"
    by (rule plan_cases)
      (auto simp: check_deploy_def cli_deploy_config_def check_cli_def auto_image_ref_def registry_image_def
        Let_def dest: clean_regions_nonempty split: if_splits prod.splits)
next
  assume "deploy_plan sys g = Inr (cfg, dc)"
  then show "check_deploy dc = None"
    by (auto simp: deploy_plan_def check_deploy_def cli_deploy_config_def check_cli_def bind_res_Inr_iff
        Let_def dest: clean_regions_nonempty split: if_splits option.splits)
qed

lemma new_client_dry [simp]: "dryRun (new_client t dry) = dry"
  by (simp add: new_client_def)

text \<open>
  C32: dry runs of the three commands make no request of anyone and, when their flags are in order,
  succeed: \<open>autodeploy\<close> leaves the world as its plan, with the clock reading and the random secrets,
  leaves it, and \<open>deploy\<close> and, given a token and an app, \<open>destroy\<close> leave it as it is.
\<close>

theorem dry_runs_request_nothing:
  assumes "visits (machine_ord sys)"
    and "autodeploy_plan sys f w = (Inr (cfg, dc), w')" "auto_dry_run f"
    and "deploy_plan sys g = Inr (cfg', dc')" "dep_dry_run g"
    and "FlyAPIToken (cli_config sys app []) \<noteq> []" "FlyAppName (cli_config sys app []) \<noteq> []"
  shows "(\<exists>out. autodeploy fuel sys f w = Some (None, out, w'))
    \<and> (\<exists>out. deploy_command fuel sys g w = Some (None, out, w))
    \<and> (\<exists>out. destroy_command sys app yes True answer w = (None, out, w))"
proof -
  have dry: "\<exists>r. deploy fuel (fly sys) (machine_ord sys) (new_client t True) d v = Some (Inr r, v)"
    if "check_deploy d = None" for t d v
    using dry_deploy [of "new_client t True" d "machine_ord sys" fuel "fly sys" v] that assms(1) by auto
  obtain r where "deploy fuel (fly sys) (machine_ord sys) (new_client (FlyAPIToken cfg) True) dc w' = Some (Inr r, w')"
    using dry plan_checks(1) [OF assms(2)] by blast
  then have "\<exists>out. autodeploy fuel sys f w = Some (None, out, w')"
    using assms(2,3) by (simp add: autodeploy_def Let_def)
  moreover obtain r' where "deploy fuel (fly sys) (machine_ord sys) (new_client (FlyAPIToken cfg') True) dc' w = Some (Inr r', w)"
    using dry plan_checks(2) [OF assms(4)] by blast
  then have "\<exists>out. deploy_command fuel sys g w = Some (None, out, w)"
    using assms(4,5) by (simp add: deploy_command_def)
  moreover have "\<exists>out. destroy_command sys app yes True answer w = (None, out, w)"
    using assms(6,7) by (simp add: destroy_command_def Let_def destroy_def list_machines_def)
  ultimately show ?thesis by blast
qed


text \<open>What the commands plan fits the wire format.\<close>

lemma planned_wire:
  assumes "dc = cli_deploy_config cfg rs img env" and "gm_ok env"
  shows "map_ok (DeployEnv (with_defaults dc))" "guest_ok (DeployGuest (with_defaults dc))"
    "in_i64 (HealthPort (with_defaults dc))" "DeployEnv (with_defaults dc) = Some env"
  using assms(2)
  by (simp_all add: assms(1) with_defaults_def cli_deploy_config_def map_ok_def guest_ok_def DefaultGuest_def in_i64_iff)

lemma plan_deploys:
  assumes "dc = cli_deploy_config cfg rs img env" and "gm_ok env"
    and "decode_config (config_json (desired_config (with_defaults dc))) zero_config = Inr got"
  shows "deep_equal got (desired_config (with_defaults dc)) \<longleftrightarrow> env \<noteq> []"
  using own_config_recognised [OF planned_wire(1-3) [OF assms(1,2)] assms(3)] planned_wire(4) [OF assms(1,2)]
  by simp

lemma deployed_env_ok: "gm_ok env \<Longrightarrow> gm_ok (deployed_env realm secret admin appName env)"
  by (simp add: deployed_env_def wf_intros)

lemma deployed_env_nonempty: "deployed_env realm secret admin appName env \<noteq> []"
proof
  assume "deployed_env realm secret admin appName env = []"
  moreover have "gm_get (deployed_env realm secret admin appName env) ''FLY_APP_NAME'' = Some appName"
    by (simp add: deployed_env_def)
  ultimately show False by simp
qed

text \<open>What a visit of a region does to a machine that runs there already.\<close>

lemma ensure_running:
  assumes "\<not> equal_fold (Machine_State old) ''stopped''"
  shows "deep_equal (Machine_Config old) (desired_config cfg) \<Longrightarrow> ensure_machine env c a rg cfg (Some old) w = (Inr old, w)"
    and "\<not> deep_equal (Machine_Config old) (desired_config cfg) \<Longrightarrow> \<not> dryRun c \<Longrightarrow>
      q = fly_request_of c ''POST'' (machine_path a (Machine_ID old)) (Some (machine_request_json (desired_request cfg rg))) \<Longrightarrow>
      accepted_request env q \<Longrightarrow>
      \<exists>r w' qs. ensure_machine (recorded env) c a rg cfg (Some old) (w, h) = (r, w', h @ q # qs)"
proof -
  show "deep_equal (Machine_Config old) (desired_config cfg) \<Longrightarrow> ensure_machine env c a rg cfg (Some old) w = (Inr old, w)"
    using assms by (simp add: ensure_machine_def)
  assume d: "\<not> deep_equal (Machine_Config old) (desired_config cfg)" "\<not> dryRun c"
    and q: "q = fly_request_of c ''POST'' (machine_path a (Machine_ID old)) (Some (machine_request_json (desired_request cfg rg)))"
      "accepted_request env q"
  obtain r v where u: "update_machine (recorded env) c a (Machine_ID old) (desired_request cfg rg) (w, h) = (r, v, h @ [q])"
    using recorded_update_machine [OF d(2), of env a "Machine_ID old" "desired_request cfg rg" w h] q
    by (auto split: prod.splits)
  obtain r' w' where sm: "start_machine env c a (Machine_ID old) v = (r', w')" by fastforce
  obtain qs where st: "start_machine (recorded env) c a (Machine_ID old) (v, h @ [q]) = (r', w', (h @ [q]) @ qs)"
    using tracks_run [OF tracks_start_machine [where P = "\<lambda>q. True", OF TrueI] sm] by blast
  show "\<exists>r w' qs. ensure_machine (recorded env) c a rg cfg (Some old) (w, h) = (r, w', h @ q # qs)"
  proof (cases r)
    case (Inl e)
    with d u show ?thesis by (simp add: ensure_machine_def)
  next
    case (Inr m)
    with d u st show ?thesis
      by (cases "equal_fold (Machine_State m) ''stopped''"; cases r') (simp_all add: ensure_machine_def)
  qed
qed

text \<open>
  C19: whether a deployment recognises its own work, the idempotence the help text of \<open>deploy\<close> promises.
  Take a machine that is not stopped and has the configuration a deployment sent, as it is read back.
  Deploying the same again with \<open>autodeploy\<close>, or with \<open>deploy\<close> and some \<open>--env\<close> flag, does
  nothing to it; but \<open>deploy\<close> without any \<open>--env\<close> flag updates it every time, first thing, because the
  empty map it sends comes back as none; unless \<open>http.NewRequest\<close> refuses the URL of the update.
\<close>

theorem redeploy_recognition:
  assumes "deploy_plan sys f = Inr (cfg, dc)"
    and "decode_config (config_json (desired_config (with_defaults dc))) zero_config = Inr (Machine_Config old)"
    and "autodeploy_plan sys g w = (Inr (cfg', dc'), w')"
    and "decode_config (config_json (desired_config (with_defaults dc'))) zero_config = Inr (Machine_Config old')"
    and "\<not> equal_fold (Machine_State old) ''stopped''" "\<not> equal_fold (Machine_State old') ''stopped''" "\<not> dryRun c"
    and "q = fly_request_of c ''POST'' (machine_path a (Machine_ID old)) (Some (machine_request_json (desired_request (with_defaults dc) rg)))"
    and "accepted_request env q"
  shows "ensure_machine env c a rg (with_defaults dc') (Some old') v = (Inr old', v)
    \<and> (if dep_env f \<noteq> [] then ensure_machine env c a rg (with_defaults dc) (Some old) v = (Inr old, v)
       else \<exists>r v' qs. ensure_machine (recorded env) c a rg (with_defaults dc) (Some old) (v, h) = (r, v', h @ q # qs))"
proof -
  from assms(1) obtain rs env' where d: "dc = cli_deploy_config cfg rs (dep_image f) env'"
    "parse_env_flags (dep_env f) = Inr env'"
    by (auto simp: deploy_plan_def Let_def bind_res_Inr_iff split: option.splits if_splits)
  from assms(3) obtain rs' img' env2 secret admin where a: "parse_env_flags (auto_env g) = Inr env2"
    "dc' = cli_deploy_config cfg' rs' img' (deployed_env (auto_realm_of cfg' g) secret admin (FlyAppName cfg') env2)"
    by (rule plan_cases)
  have "deep_equal (Machine_Config old) (desired_config (with_defaults dc)) \<longleftrightarrow> dep_env f \<noteq> []"
    using plan_deploys [OF d(1) parse_env_flags_ok [OF d(2)] assms(2)] parse_env_flags_empty [OF d(2)] by blast
  moreover have "deep_equal (Machine_Config old') (desired_config (with_defaults dc'))"
    using plan_deploys [OF a(2) deployed_env_ok [OF parse_env_flags_ok [OF a(1)]] assms(4)] deployed_env_nonempty by blast
  ultimately show ?thesis
    using ensure_running [OF assms(5)] ensure_running(1) [OF assms(6)] assms(7-9) by auto
qed

section \<open>The order of effects\<close>

datatype event = FlyCall fly_request | DockerCall docker_request

definition logged :: "'w system \<Rightarrow> ('w \<times> event list) system" where
  "logged sys =
     \<lparr>getenv = getenv sys,
      fly = \<lparr>parse_url = parse_url (fly sys),
        http_do = (\<lambda>q (w, h). case http_do (fly sys) q w of (r, w) \<Rightarrow> (r, w, h @ [FlyCall q])),
        clock = (\<lambda>(w, h). case clock (fly sys) w of (t, w) \<Rightarrow> (t, w, h)),
        pause = (\<lambda>d (w, h). case pause (fly sys) d w of (e, w) \<Rightarrow> (e, w, h))\<rparr>,
      docker = recorded_docker DockerCall (docker sys),
      rand = (\<lambda>n (w, h). case rand sys n w of (r, w) \<Rightarrow> (r, w, h)),
      machine_ord = machine_ord sys, quoted = quoted sys\<rparr>"

lemma logged_sel [simp]:
  "getenv (logged sys) = getenv sys" "docker (logged sys) = recorded_docker DockerCall (docker sys)"
  "machine_ord (logged sys) = machine_ord sys"
  by (simp_all add: logged_def)

text \<open>Whatever is done through the Fly API only adds Fly requests to the log.\<close>

definition fly_extends :: "'w \<times> event list \<Rightarrow> 'w \<times> event list \<Rightarrow> bool" where
  "fly_extends u v \<longleftrightarrow> (\<exists>qs. snd v = snd u @ map FlyCall qs)"

lemma fly_extends_add: "fly_extends (w, h) (w', h @ [FlyCall q])"
  unfolding fly_extends_def by (rule exI [of _ "[q]"]) simp

interpretation fly_events: fly_stepwise fly_extends "fly (logged sys)" for sys :: "'w system"
proof unfold_locales
  fix u v w :: "'w \<times> event list"
  show "fly_extends w w" by (simp add: fly_extends_def)
  show "fly_extends u w" if "fly_extends u v" "fly_extends v w"
    using that unfolding fly_extends_def by (metis append.assoc map_append)
qed (auto simp: logged_def fly_extends_add split: prod.splits, auto simp: fly_extends_def)

lemma plan_logs_nothing:
  "autodeploy_plan (logged sys) f (w, h) = (r, w', h') \<Longrightarrow> h' = h"
  by (auto simp: autodeploy_plan_def auto_image_ref_def choose_secret_def generate_secret_def logged_def Let_def
      split: option.splits sum.splits prod.splits if_splits)

definition app_requests :: "client \<Rightarrow> string \<Rightarrow> string \<Rightarrow> fly_request set" where
  "app_requests c appName orgSlug =
     {fly_request_of c ''GET'' (app_path appName) None,
      fly_request_of c ''POST'' ''/v1/apps'' (Some (create_app_json appName orgSlug))}"

lemma image_app_logs:
  assumes "ensure_image_app (fly (logged sys)) c a s (w, h) = (e, w', h')" "\<not> dryRun c"
  shows "\<exists>qs. h' = h @ map FlyCall qs \<and> set qs \<subseteq> app_requests c a s"
proof -
  have req: "\<exists>qs. h' = h @ map FlyCall qs \<and> set qs \<subseteq> {fly_request_of c meth path body}"
    if "do_decode (fly (logged sys)) c op meth path body dec zero (w, h) = (r, w', h')"
    for op meth path body dec zero w h r w' h'
    using that
    by (auto simp: do_decode_def do_request_def logged_def map_eq_Cons_conv
        split: option.splits prod.splits sum.splits if_splits intro: exI [of _ "[]"] exI [of _ "[_]"])
  obtain r1 w1 h1 where g: "get_app (fly (logged sys)) c a (w, h) = (r1, w1, h1)"
    by (metis prod.collapse)
  then have "do_decode (fly (logged sys)) c (GetApp a) ''GET'' (app_path a) None decode_app zero_app (w, h) = (r1, w1, h1)"
    using assms(2) by (simp add: get_app_def)
  from req [OF this] obtain q1 where q1: "h1 = h @ map FlyCall q1" "set q1 \<subseteq> app_requests c a s"
    unfolding app_requests_def by blast
  show ?thesis
  proof (cases r1)
    case (Inr x)
    with g q1 assms(1) show ?thesis by (auto simp: ensure_image_app_def)
  next
    case (Inl er)
    obtain r2 w2 h2 where k: "create_app (fly (logged sys)) c a s (w1, h1) = (r2, w2, h2)"
      by (metis prod.collapse)
    then have "do_decode (fly (logged sys)) c (CreateApp a) ''POST'' ''/v1/apps'' (Some (create_app_json a s))
        decode_app zero_app (w1, h1) = (r2, w2, h2)"
      using assms(2) by (simp add: create_app_def)
    from req [OF this] obtain q2 where q2: "h2 = h1 @ map FlyCall q2" "set q2 \<subseteq> app_requests c a s"
      unfolding app_requests_def by blast
    from g k Inl assms(1) have "h' = h2" by (auto simp: ensure_image_app_def split: sum.splits)
    with q1 q2 show ?thesis by (intro exI [of _ "q1 @ q2"]) auto
  qed
qed

lemma publish_logs:
  assumes "publish (logged sys) host pc (w, h) = (e, out, w', h')"
  shows "\<exists>docks. h' = h @ map DockerCall docks
    \<and> (e = None \<longrightarrow> (\<exists>p tar v. docks = [build_request p (publish_defaults pc) tar, push_request p (publish_defaults pc)]
         \<and> engine_accepts (docker sys) p (build_request p (publish_defaults pc) tar) w v
         \<and> engine_accepts (docker sys) p (push_request p (publish_defaults pc)) v w'))"
proof (cases "new_docker_publisher (getenv sys) host")
  case (Inl er)
  with assms show ?thesis by (auto simp: publish_def)
next
  case (Inr p)
  obtain e1 o1 w1 h1 where b:
    "build_and_push (recorded_docker DockerCall (docker sys)) p pc (Some [], w, h) = (e1, o1, w1, h1)"
    by (metis prod.collapse)
  with assms Inr have r: "e = map_option PublishFailed e1" "h' = h1" "w' = w1" by (auto simp: publish_def)
  define tar where "tar = projr (tar_build_context (docker sys) (ContextDir (publish_defaults pc)))"
  let ?docks = "[build_request p (publish_defaults pc) tar, push_request p (publish_defaults pc)]"
  note l = publish_log [OF b, folded tar_def]
  have "h' = h @ map DockerCall (take (requests_made e1) ?docks)" using l r by blast
  moreover have "take (requests_made e1) ?docks = ?docks
      \<and> (\<exists>v. engine_accepts (docker sys) p (build_request p (publish_defaults pc) tar) w v
         \<and> engine_accepts (docker sys) p (push_request p (publish_defaults pc)) v w')" if "e = None"
  proof -
    from that r have "requests_made e1 = 2" "e1 = None" by (simp_all add: requests_made_def)
    with l r show ?thesis by auto
  qed
  ultimately show ?thesis by blast
qed


section \<open>Commands return\<close>

lemma logged_progresses: "progresses T (fly sys) \<Longrightarrow> progresses (\<lambda>(w, h). T w) (fly (logged sys))"
  by (auto simp: progresses_def logged_def split: prod.splits)

lemma plan_timeout:
  "autodeploy_plan sys f w = (Inr (cfg, dc), w') \<Longrightarrow> HealthTimeout (with_defaults dc) = 5 * minute"
  "deploy_plan sys g = Inr (cfg, dc) \<Longrightarrow> HealthTimeout (with_defaults dc) = 5 * minute"
proof -
  assume "autodeploy_plan sys f w = (Inr (cfg, dc), w')"
  then show "HealthTimeout (with_defaults dc) = 5 * minute"
    by (rule plan_cases) (simp add: cli_deploy_config_def with_defaults_def)
next
  assume "deploy_plan sys g = Inr (cfg, dc)"
  then show "HealthTimeout (with_defaults dc) = 5 * minute"
    by (auto simp: deploy_plan_def cli_deploy_config_def with_defaults_def bind_res_Inr_iff Let_def
        split: if_splits option.splits)
qed

lemma planned_deploy_returns:
  assumes "progresses T env" "HealthTimeout (with_defaults dc) = 5 * minute"
  shows "\<exists>r w'. deploy 31 env ord c dc w = Some (r, w')"
proof -
  have "HealthTimeout (with_defaults dc) \<le> int 30 * (10 * second)" by (simp add: assms(2) dur_units)
  from deploy_terminates [OF assms(1) this, of ord c w] show ?thesis by auto
qed

lemma autodeploy_terminates:
  assumes "progresses T (fly sys)"
  shows "\<exists>r. autodeploy 31 sys f w = Some r"
proof -
  have "\<exists>r. (case deploy 31 (fly sys) (machine_ord sys) c dc v of
         None \<Rightarrow> None
       | Some (Inl e, w) \<Rightarrow> Some (Some (DeployFailed e), out, w)
       | Some (Inr r, w) \<Rightarrow> Some (None, out @ autodeploy_report (DeployImage dc) r, w)) = Some r"
    if plan: "autodeploy_plan sys f w = (Inr (cfg, dc), w1)" for cfg dc w1 v c out
  proof -
    obtain r v' where "deploy 31 (fly sys) (machine_ord sys) c dc v = Some (r, v')"
      using planned_deploy_returns [OF assms plan_timeout(1) [OF plan]] by blast
    then show ?thesis by (cases r) simp_all
  qed
  then show ?thesis
    by (auto simp: autodeploy_def Let_def split: sum.split prod.split option.split)
qed

text \<open>
  C17: the commands that deploy return: when the clock moves on, thirty-one polls of each machine are
  enough for the five minutes of the default health timeout, whatever the services answer.
\<close>

theorem deploy_commands_return:
  assumes "progresses T (fly sys)"
  shows "(\<exists>r. autodeploy 31 sys f w = Some r) \<and> (\<exists>r. deploy_command 31 sys g w = Some r)"
proof
  show "\<exists>r. autodeploy 31 sys f w = Some r" by (rule autodeploy_terminates [OF assms])
  show "\<exists>r. deploy_command 31 sys g w = Some r"
  proof (cases "deploy_plan sys g")
    case (Inl e)
    then show ?thesis by (simp add: deploy_command_def)
  next
    case (Inr x)
    obtain cfg dc where x: "x = (cfg, dc)" by (cases x)
    obtain r v where "deploy 31 (fly sys) (machine_ord sys) (new_client (FlyAPIToken cfg) (dep_dry_run g)) dc w = Some (r, v)"
      using planned_deploy_returns [OF assms plan_timeout(2)] Inr x by blast
    with Inr x show ?thesis by (cases r) (simp_all add: deploy_command_def)
  qed
qed

text \<open>What a planned deployment sends can be read back.\<close>

lemma planned_decodes:
  assumes "dc = cli_deploy_config cfg rs img env" "gm_ok env"
  shows "\<exists>got. decode_config (config_json (desired_config (with_defaults dc))) zero_config = Inr got"
  using decode_config_json [OF desired_wire(1) [OF planned_wire(1-3) [OF assms]]] by blast

lemma plan_decodes:
  "deploy_plan sys f = Inr (cfg, dc)
   \<Longrightarrow> \<exists>got. decode_config (config_json (desired_config (with_defaults dc))) zero_config = Inr got"
  by (auto simp: deploy_plan_def Let_def bind_res_Inr_iff split: option.splits if_splits
      intro!: planned_decodes [OF refl] dest: parse_env_flags_ok)

lemma auto_plan_decodes:
  assumes "autodeploy_plan sys f w = (Inr (cfg, dc), w')"
  shows "\<exists>got. decode_config (config_json (desired_config (with_defaults dc))) zero_config = Inr got"
  using assms by (rule plan_cases) (blast intro: planned_decodes deployed_env_ok dest: parse_env_flags_ok)

section \<open>A sample system\<close>

definition sample_system :: "gotime system" where
  "sample_system =
     \<lparr>getenv = (\<lambda>n. if n = ''FLY_API_TOKEN'' then ''t'' else if n = ''FLY_APP_NAME'' then ''a''
        else if n = ''FLY_ORG'' then ''o'' else []),
      fly = silent_env, docker = quiet_docker 200, rand = (\<lambda>n w. (Inr (replicate n 0), w)),
      machine_ord = rev, quoted = (\<lambda>s. s)\<rparr>"

definition sample_auto :: "bool \<Rightarrow> autodeploy_flags" where
  "sample_auto dry =
     \<lparr>auto_app = [], auto_org = [], auto_regions = ''iad'', auto_image = [], auto_tag = ''v1'', auto_context = ''.'',
      auto_dockerfile = [], auto_docker_host = ''unix:///s'', auto_dry_run = dry, auto_skip_image = False,
      auto_realm = [], auto_secret = [], auto_admin = ''adm'', auto_env = [''K=v'']\<rparr>"

definition sample_dep :: deploy_flags where
  "sample_dep =
     \<lparr>dep_app = [], dep_org = [], dep_regions = ''iad'', dep_image = ''i'', dep_dry_run = True, dep_env = []\<rparr>"

lemma sample_regions: "parse_region_list ''iad'' = Inr [''iad'']"
  by code_simp

lemma sample_config:
  assumes "getenv sys = getenv sample_system"
  shows "cli_config sys [] [] = DefaultConfig\<lparr>FlyAppName := ''a'', FlyOrg := ''o'', FlyAPIToken := ''t''\<rparr>"
  by (simp add: cli_config_def assms load_from_env_def load_int_def load_string_def sample_system_def)

lemma sample_auto_plan:
  assumes "getenv sys = getenv sample_system" "\<And>n v. rand sys n v = (Inr (replicate n 0), v)"
  shows "\<exists>cfg dc. autodeploy_plan sys (sample_auto dry) w = (Inr (cfg, dc), w)
    \<and> FlyAPIToken cfg = ''t'' \<and> DeployImage dc = ''registry.fly.io/a:v1''"
proof -
  have "registry_image ''a'' ''v1'' = ''registry.fly.io/a:v1''" by code_simp
  then show ?thesis
    using sample_regions sample_config [OF assms(1)] assms(2)
    by (simp add: autodeploy_plan_def sample_auto_def check_cli_def auto_image_ref_def parse_env_flags_def Let_def
        choose_secret_def generate_secret_def DefaultConfig_def split_n2_def cli_deploy_config_def)
qed

lemma sample_dep_plan: "\<exists>cfg dc. deploy_plan sample_system sample_dep = Inr (cfg, dc)"
  using sample_regions sample_config [OF refl]
  by (simp add: deploy_plan_def sample_dep_def check_cli_def parse_env_flags_def DefaultConfig_def Let_def)

lemma sample_rand [simp]: "rand sample_system n v = (Inr (replicate n 0), v)" "rand_fills (rand sample_system)"
  by (simp_all add: sample_system_def rand_fills_def)

lemma sample_fly [simp]: "fly sample_system = silent_env" "machine_ord sample_system = rev"
  by (simp_all add: sample_system_def)

lemma logged_sample:
  "getenv (logged sample_system) = getenv sample_system"
  "rand (logged sample_system) n v = (Inr (replicate n 0), v)"
  by (cases v) (simp_all add: logged_def sample_system_def quiet_docker_def)

lemma autodeploy_server_starts_witness:
  "\<exists>cfg dc. autodeploy_plan sample_system (sample_auto False) 0 = (Inr (cfg, dc), 0)
     \<and> config_validate (load_from_env (env_lookup (the (DeployEnv dc))) DefaultConfig) = []"
proof -
  obtain cfg dc where p: "autodeploy_plan sample_system (sample_auto False) 0 = (Inr (cfg, dc), 0)"
    using sample_auto_plan [OF refl sample_rand(1)] by blast
  have "\<forall>k\<in>{''TURN_PORT'', ''HTTP_PORT'', ''LOG_LEVEL''}.
      list_all (\<lambda>e. \<not> has_prefix e (k @ ''='')) (auto_env (sample_auto False))"
    by (simp add: sample_auto_def has_prefix_def)
  from autodeploy_server_starts [OF p sample_rand(2) this] p show ?thesis by blast
qed

theorem dry_runs_request_nothing_witness:
  "(\<exists>out. autodeploy 0 sample_system (sample_auto True) 7 = Some (None, out, 7))
    \<and> (\<exists>out. deploy_command 0 sample_system sample_dep 7 = Some (None, out, 7))
    \<and> (\<exists>out. destroy_command sample_system [] True True [] 7 = (None, out, 7))"
proof -
  have ord: "visits (machine_ord sample_system)" by simp
  obtain cfg dc cfg' dc' where p: "autodeploy_plan sample_system (sample_auto True) 7 = (Inr (cfg, dc), 7)"
    "deploy_plan sample_system sample_dep = Inr (cfg', dc')"
    using sample_auto_plan [OF refl sample_rand(1)] sample_dep_plan by blast
  show ?thesis
    by (rule dry_runs_request_nothing [OF ord p(1) _ p(2)])
      (simp_all add: sample_auto_def sample_dep_def sample_config)
qed

theorem redeploy_recognition_witness:
  "\<exists>cfg dc old r v qs cfg' dc' old'. deploy_plan sample_system sample_dep = Inr (cfg, dc)
     \<and> decode_config (config_json (desired_config (with_defaults dc))) zero_config = Inr (Machine_Config old)
     \<and> ensure_machine (recorded silent_env) (new_client ''t'' False) ''a'' ''iad'' (with_defaults dc) (Some old) (0, [])
       = (r, v, fly_request_of (new_client ''t'' False) ''POST'' (machine_path ''a'' (Machine_ID old))
             (Some (machine_request_json (desired_request (with_defaults dc) ''iad''))) # qs)
     \<and> autodeploy_plan sample_system (sample_auto True) 7 = (Inr (cfg', dc'), 7)
     \<and> decode_config (config_json (desired_config (with_defaults dc'))) zero_config = Inr (Machine_Config old')
     \<and> ensure_machine silent_env (new_client ''t'' False) ''a'' ''iad'' (with_defaults dc') (Some old') 0 = (Inr old', 0)"
proof -
  obtain cfg dc cfg' dc' where p: "deploy_plan sample_system sample_dep = Inr (cfg, dc)"
    "autodeploy_plan sample_system (sample_auto True) 7 = (Inr (cfg', dc'), 7)"
    using sample_auto_plan [OF refl sample_rand(1)] sample_dep_plan by blast
  obtain got got' where g: "decode_config (config_json (desired_config (with_defaults dc))) zero_config = Inr got"
    "decode_config (config_json (desired_config (with_defaults dc'))) zero_config = Inr got'"
    using plan_decodes [OF p(1)] auto_plan_decodes [OF p(2)] by blast
  define old where "old = listed_machine got"
  define old' where "old' = listed_machine got'"
  have m: "Machine_Config old = got" "Machine_Config old' = got'" "Machine_State old = ''started''" "Machine_State old' = ''started''"
    by (simp_all add: old_def old'_def listed_machine_def)
  with g have d: "decode_config (config_json (desired_config (with_defaults dc))) zero_config = Inr (Machine_Config old)"
    "decode_config (config_json (desired_config (with_defaults dc'))) zero_config = Inr (Machine_Config old')" by simp_all
  have "\<not> equal_fold ''started'' ''stopped''" by code_simp
  then have st: "\<not> equal_fold (Machine_State old) ''stopped''" "\<not> equal_fold (Machine_State old') ''stopped''"
    by (simp_all only: m not_False_eq_True)
  have c: "\<not> dryRun (new_client ''t'' False)" and e: "dep_env sample_dep = []" by (simp_all add: sample_dep_def)
  have ok: "accepted_request silent_env q" for q by (simp add: accepted_request_def silent_env_def)
  from redeploy_recognition [OF p(1) d(1) p(2) d(2) st c refl ok, where v = 0 and h = "[]" and a = "''a''" and rg = "''iad''"] e
  show ?thesis using p d by auto
qed

theorem deploy_commands_return_witness:
  "\<exists>r. autodeploy 31 sample_system (sample_auto False) 0 = Some r"
  using deploy_commands_return [of "\<lambda>w. w" sample_system "sample_auto False" 0 sample_dep] silent_progresses
  by simp

text \<open>A service that accepts whatever it is asked and says nothing: the deployment fails to list the machines.\<close>

definition cloud_env :: "gotime fly_env" where
  "cloud_env = silent_env\<lparr>http_do := (\<lambda>q w. (Inr \<lparr>StatusCode = 200, RawBody = [], ParsedBody = Some (JObj [])\<rparr>, w))\<rparr>"

definition cloud_system :: "gotime system" where
  "cloud_system = sample_system\<lparr>fly := cloud_env\<rparr>"

lemma cloud_sel:
  "getenv (logged cloud_system) = getenv sample_system" "rand (logged cloud_system) n v = (Inr (replicate n 0), v)"
  "docker cloud_system = quiet_docker 200" "machine_ord cloud_system = rev" "getenv cloud_system = getenv sample_system"
  by (cases v; simp add: cloud_system_def logged_def sample_system_def)+

lemma cloud_do:
  "do_request (fly (logged cloud_system)) c meth path body (w, h) =
     (Inr \<lparr>StatusCode = 200, RawBody = [], ParsedBody = Some (JObj [])\<rparr>, w, h @ [FlyCall (fly_request_of c meth path body)])"
  by (simp add: do_request_def logged_def cloud_system_def cloud_env_def silent_env_def)

text \<open>What the deployment asks of it, none of it twice.\<close>

lemma cloud_deploys:
  assumes "check_deploy dc = None" "\<not> dryRun c"
  shows "\<exists>q qs. deploy fuel (fly (logged cloud_system)) ord c dc (w, h)
    = Some (Inl (ListExisting (During (ListMachines (AppName dc)) DecodeResponse)), w, h @ map FlyCall (q # qs))"
  using assms
  by (auto simp: Cons_eq_map_conv deploy_def deploy_steps_def ensure_app_def ensure_ips_def get_app_def list_ips_def allocate_ip_def
      list_machines_def do_decode_def cloud_do decode_body_def decode_app_def decode_ip_list_def decode_ip_def slice_of_def Let_def)

lemma cloud_publishes:
  assumes "PublishToken pc \<noteq> []" "has_prefix (PublishImage pc) (flyRegistry @ ''/'')"
  shows "\<exists>out. publish (logged cloud_system) ''unix:///s'' pc (w, h)
    = (None, out, w, h @ [DockerCall (build_request \<lparr>Docker_Base = ''http://docker'', Docker_Socket = ''/s''\<rparr> (publish_defaults pc)
           [(''Dockerfile'', Some ''FROM scratch''), (''cmd'', None)]),
         DockerCall (push_request \<lparr>Docker_Base = ''http://docker'', Docker_Socket = ''/s''\<rparr> (publish_defaults pc))])"
proof -
  have ok: "check_publish (publish_defaults pc) = None" using assms check_publish_ok by blast
  have p: "new_docker_publisher (getenv sample_system) ''unix:///s'' = Inr \<lparr>Docker_Base = ''http://docker'', Docker_Socket = ''/s''\<rparr>"
    by code_simp
  have c: "copy_docker_stream (\<lambda>s. None) \<lparr>Docker_Status = 200, Docker_Text = ''no'', Docker_End = None\<rparr> o1 = (None, map_option (\<lambda>x. x @ ''no'' @ [newline]) o1)"
    for o1
    by (simp add: copy_docker_stream_def scan_lines_def newline_def max_token_def line_effect_def decode_body_def drop_cr_def)
  show ?thesis
    by (simp add: publish_def cloud_sel p build_and_push_def ok tar_build_context_def docker_build_def docker_push_def
        recorded_docker_def quiet_docker_def sample_context c Let_def)
qed


end
