(* ===== verification/Auth.thy ===== *)
theory Auth
  imports Go_Crypto Go_Time
begin

text \<open>
  Ephemeral TURN credentials (\<open>internal/auth\<close>): the username is the expiry in Unix seconds and
  the user id, joined by a colon; the password is the base64 of the HMAC-SHA1 of the username
  under the shared secret.  Each function that reads the clock takes the reading.  A result
  \<open>(userID, true)\<close> is \<open>Some userID\<close> and \<open>("", false)\<close> is \<open>None\<close>.
\<close>

section \<open>Generation and validation\<close>

definition compute_password :: "string \<Rightarrow> string \<Rightarrow> string" where
  "compute_password secret username = base64_std (hmac_sha1 (bytes_of secret) (bytes_of username))"

definition credential_username :: "int \<Rightarrow> string \<Rightarrow> string" where
  "credential_username expiry userID = show_int expiry @ CHR '':'' # userID"

definition generate_credentials ::
  "string \<Rightarrow> string \<Rightarrow> duration \<Rightarrow> gotime \<Rightarrow> string \<times> string" where
  "generate_credentials sharedSecret userID validity now =
     (let expiry = unix_sec (time_add now validity);
          username = credential_username expiry userID
      in (username, compute_password sharedSecret username))"

definition validate_username :: "gotime \<Rightarrow> string \<Rightarrow> string option" where
  "validate_username now username =
     (let parts = split_n2 CHR '':'' username
      in if length parts \<noteq> 2 \<or> parts ! 1 = [] then None
         else (case parse_int (parts ! 0) of
             None \<Rightarrow> None
           | Some expiryUnix \<Rightarrow>
               if expiryUnix < unix_sec now then None else Some (parts ! 1)))"

definition validate_credentials :: "gotime \<Rightarrow> string \<Rightarrow> string \<Rightarrow> string \<Rightarrow> string option" where
  "validate_credentials now username password sharedSecret =
     (case validate_username now username of
        None \<Rightarrow> None
      | Some userID \<Rightarrow>
          if password \<noteq> compute_password sharedSecret username then None else Some userID)"

definition format_turn_server_url :: "string \<Rightarrow> int \<Rightarrow> string \<Rightarrow> string \<Rightarrow> bool \<Rightarrow> string" where
  "format_turn_server_url host port username password useTLS =
     (let scheme = (if useTLS then ''turns'' else ''turn'')
      in scheme @ '':'' @ username @ '':'' @ password @ ''@'' @ host @ '':'' @ show_int port)"

section \<open>The username codec\<close>

lemma split_credential_username:
  "split_n2 CHR '':'' (credential_username e u) = [show_int e, u]"
  by (simp add: credential_username_def show_int_no_colon)

lemma validate_username_iff:
  "validate_username now username = Some u \<longleftrightarrow>
   (\<exists>p e. username = p @ CHR '':'' # u \<and> CHR '':'' \<notin> set p \<and> u \<noteq> [] \<and> parse_int p = Some e
      \<and> unix_sec now \<le> e)"
proof
  assume v: "validate_username now username = Some u"
  then have "length (split_n2 CHR '':'' username) = 2"
    by (auto simp: validate_username_def Let_def split: if_splits)
  then obtain p q where pq: "split_n2 CHR '':'' username = [p, q]"
    by (auto simp: length_Suc_conv numeral_2_eq_2)
  with v show "\<exists>p e. username = p @ CHR '':'' # u \<and> CHR '':'' \<notin> set p \<and> u \<noteq> [] \<and> parse_int p = Some e
      \<and> unix_sec now \<le> e"
    by (auto simp: validate_username_def Let_def split_n2_two split: if_splits option.splits)
next
  assume "\<exists>p e. username = p @ CHR '':'' # u \<and> CHR '':'' \<notin> set p \<and> u \<noteq> [] \<and> parse_int p = Some e
      \<and> unix_sec now \<le> e"
  then show "validate_username now username = Some u"
    by (auto simp: validate_username_def Let_def)
qed

lemma validate_username_credential:
  "in_i64 e \<Longrightarrow> validate_username now (credential_username e u) =
     (if u \<noteq> [] \<and> unix_sec now \<le> e then Some u else None)"
  by (simp add: validate_username_def split_credential_username parse_show_int Let_def)

text \<open>Reading the parts of a username back, without the clock.\<close>

definition username_parts :: "string \<Rightarrow> (int \<times> string) option" where
  "username_parts username =
     (case split_n2 CHR '':'' username of
        [p, u] \<Rightarrow> map_option (\<lambda>e. (e, u)) (parse_int p)
      | _ \<Rightarrow> None)"

interpretation username: codec "\<lambda>(e, u). in_i64 e" "\<lambda>(e, u). credential_username e u" username_parts
  by unfold_locales (auto simp: username_parts_def split_credential_username parse_show_int)

lemma length_compute_password: "length (compute_password secret username) = 28"
  by (simp add: compute_password_def length_base64_std)

lemma credentials_round_trip_eq:
  assumes "generate_credentials secret userID validity issued = (username, password)"
    and "in_i64 (unix_sec (time_add issued validity))"
  shows "validate_credentials now username password secret =
    (if userID \<noteq> [] \<and> unix_sec now \<le> unix_sec (time_add issued validity) then Some userID else None)"
  using assms
  by (auto simp: generate_credentials_def Let_def validate_credentials_def validate_username_credential)

section \<open>Properties\<close>

text \<open>
  C23: a generated credential validates, under the same secret, until its expiry second has passed
  and not after, and gives the user id back; one for the empty user id never validates.
\<close>

theorem credentials_round_trip:
  assumes "generate_credentials secret userID validity issued = (username, password)"
    and "in_i64 (unix_sec (time_add issued validity))"
  shows "validate_credentials now username password secret =
    (if userID \<noteq> [] \<and> unix_sec now \<le> unix_sec (time_add issued validity) then Some userID else None)"
  using assms by (rule credentials_round_trip_eq)

theorem credentials_round_trip_witness:
  "\<exists>u p. generate_credentials ''secret'' ''alice'' (60 * second) (1000 * second) = (u, p)
     \<and> validate_credentials (1060 * second) u p ''secret'' = Some ''alice''
     \<and> validate_credentials (1061 * second) u p ''secret'' = None"
proof -
  obtain u p where g: "generate_credentials ''secret'' ''alice'' (60 * second) (1000 * second) = (u, p)"
    by fastforce
  have t: "unix_sec (time_add (1000 * second) (60 * second)) = 1060"
    "unix_sec (1060 * second) = 1060" "unix_sec (1061 * second) = 1061"
    by (simp_all add: unix_sec_def time_add_def second_def)
  then have "in_i64 (unix_sec (time_add (1000 * second) (60 * second)))" by (simp add: in_i64_iff)
  from credentials_round_trip [OF g this, of "1060 * second"]
    credentials_round_trip [OF g this, of "1061 * second"] g t show ?thesis by auto
qed

text \<open>
  C24: exactly what validation accepts: a decimal expiry that has not passed, a colon, a non-empty
  user id, which is the result, and the password that the secret gives for that very username.
\<close>

theorem validate_credentials_iff:
  "validate_credentials now username password secret = Some u \<longleftrightarrow>
     password = compute_password secret username
     \<and> (\<exists>p e. username = p @ CHR '':'' # u \<and> CHR '':'' \<notin> set p \<and> u \<noteq> []
          \<and> parse_int p = Some e \<and> unix_sec now \<le> e)"
  using validate_username_iff [of now username u]
  by (auto simp: validate_credentials_def split: option.splits)

text \<open>
  A username identifies its credential: different expiries or different user ids, colons
  included, give different usernames.
\<close>

lemma credential_username_injective:
  assumes "in_i64 e" "in_i64 e'" "credential_username e u = credential_username e' u'"
  shows "e = e' \<and> u = u'"
  using username.enc_inj [of "(e, u)" "(e', u')"] assms by simp

lemma credential_username_injective_witness:
  "credential_username 12 ''3:x'' \<noteq> credential_username 123 ''x''"
  using credential_username_injective [of 12 123 "''3:x''" "''x''"] by (auto simp: in_i64_iff)

end
