(* ===== verification/Regions.thy ===== *)
theory Regions
  imports Http Auth
begin

text \<open>
  The store of deployed TURN regions and the client configurations made from it
  (\<open>internal/regions\<close>).  A \<open>Region\<close> is stored by value under its code.  The two exported
  generators range over the map, so they take the visiting order.
\<close>

section \<open>The store\<close>

record region =
  Region_Code :: string
  Region_Name :: string
  Host :: string
  Port :: int
  TLSPort :: int

record ice_server =
  URLs :: "string list"
  Username :: string
  Credential :: string

type_synonym ice_config = "ice_server list"

type_synonym store = "(string, region) gomap"

type_synonym region_order = "(string \<times> region) list \<Rightarrow> (string \<times> region) list"

definition new_store :: store where
  "new_store = []"

definition store_set :: "region \<Rightarrow> store \<Rightarrow> store" where
  "store_set r s = gm_put (Region_Code r) r s"

definition store_remove :: "string \<Rightarrow> store \<Rightarrow> store" where
  "store_remove code s = gm_del code s"

definition store_get :: "store \<Rightarrow> string \<Rightarrow> region option" where
  "store_get s code = gm_get s code"

definition store_list :: "region_order \<Rightarrow> store \<Rightarrow> region list" where
  "store_list ord s = map snd (ord s)"

definition store_count :: "store \<Rightarrow> int" where
  "store_count s = int (gm_len s)"

section \<open>Client configurations\<close>

definition region_scheme :: "bool \<Rightarrow> string" where
  "region_scheme useTLS = (if useTLS then ''turns'' else ''turn'')"

definition region_port :: "bool \<Rightarrow> region \<Rightarrow> int" where
  "region_port useTLS r = (if useTLS then TLSPort r else Port r)"

definition region_url :: "bool \<Rightarrow> string \<Rightarrow> region \<Rightarrow> string" where
  "region_url useTLS transport r =
     region_scheme useTLS @ '':'' @ Host r @ '':'' @ show_int (region_port useTLS r) @ ''?transport='' @ transport"

definition generate_ice_config :: "region_order \<Rightarrow> store \<Rightarrow> string \<Rightarrow> string \<Rightarrow> bool \<Rightarrow> ice_config" where
  "generate_ice_config ord s username password useTLS =
     map (\<lambda>(code, r).
       \<lparr>URLs = [region_url useTLS ''udp'' r] @ [region_url useTLS ''tcp'' r],
        Username = username, Credential = password\<rparr>) (ord s)"

definition generate_multi_region_uris :: "region_order \<Rightarrow> store \<Rightarrow> string \<Rightarrow> string \<Rightarrow> bool \<Rightarrow> string list" where
  "generate_multi_region_uris ord s username password useTLS =
     map (\<lambda>(code, r).
       region_scheme useTLS @ '':'' @ username @ '':'' @ password @ ''@'' @ Host r @ '':'' @ show_int (region_port useTLS r))
       (ord s)"

text \<open>The JSON of an \<open>ICEConfig\<close>.\<close>

definition ice_config_json :: "ice_config \<Rightarrow> json" where
  "ice_config_json c =
     JObj [(''iceServers'', JArr (map (\<lambda>s.
       JObj [(''urls'', JArr (map JStr (URLs s))), (''username'', JStr (Username s)),
             (''credential'', JStr (Credential s))]) c))]"

text \<open>Region names are UTF-8.\<close>

definition WellKnownRegions :: "(string, string) gomap" where
  "WellKnownRegions =
     [(''ams'', ''Amsterdam, Netherlands''), (''arn'', ''Stockholm, Sweden''), (''atl'', ''Atlanta, Georgia''),
      (''bog'', ''Bogot'' @ [CHR 0xC3, CHR 0xA1] @ '', Colombia''), (''bos'', ''Boston, Massachusetts''),
      (''cdg'', ''Paris, France''), (''den'', ''Denver, Colorado''), (''dfw'', ''Dallas, Texas''),
      (''ewr'', ''Newark, New Jersey''), (''fra'', ''Frankfurt, Germany''), (''gdl'', ''Guadalajara, Mexico''),
      (''gru'', ''S'' @ [CHR 0xC3, CHR 0xA3] @ ''o Paulo, Brazil''), (''hkg'', ''Hong Kong''),
      (''iad'', ''Ashburn, Virginia''), (''jnb'', ''Johannesburg, South Africa''), (''lax'', ''Los Angeles, California''),
      (''lhr'', ''London, UK''), (''maa'', ''Chennai, India''), (''mad'', ''Madrid, Spain''), (''mia'', ''Miami, Florida''),
      (''nrt'', ''Tokyo, Japan''), (''ord'', ''Chicago, Illinois''), (''otp'', ''Bucharest, Romania''),
      (''phx'', ''Phoenix, Arizona''), (''qro'', ''Quer'' @ [CHR 0xC3, CHR 0xA9] @ ''taro, Mexico''),
      (''scl'', ''Santiago, Chile''), (''sea'', ''Seattle, Washington''), (''sin'', ''Singapore''),
      (''sjc'', ''Sunnyvale, California''), (''syd'', ''Sydney, Australia''), (''waw'', ''Warsaw, Poland''),
      (''yul'', ''Montreal, Canada''), (''yyz'', ''Toronto, Canada'')]"

lemma well_known_ok: "gm_ok WellKnownRegions"
  unfolding WellKnownRegions_def gm_ok_def by code_simp

section \<open>Runs\<close>

datatype store_op = SetRegion region | RemoveRegion string

fun store_step :: "store_op \<Rightarrow> store \<Rightarrow> store" where
  "store_step (SetRegion r) s = store_set r s"
| "store_step (RemoveRegion c) s = store_remove c s"

text \<open>Regions are stored under their own code.\<close>

definition store_ok :: "store \<Rightarrow> bool" where
  "store_ok s \<longleftrightarrow> gm_ok s \<and> (\<forall>(c, r)\<in>set s. Region_Code r = c)"

lemma store_ok_step [wf_intros]: "store_ok s \<Longrightarrow> store_ok (store_step x s)"
proof (cases x)
  case (SetRegion r)
  have "set (gm_put (Region_Code r) r s) \<subseteq> insert (Region_Code r, r) (set s)" by (induction s) auto
  then show "store_ok s \<Longrightarrow> ?thesis"
    using SetRegion by (auto simp: store_ok_def store_set_def gm_ok_put)
next
  case (RemoveRegion c)
  then show "store_ok s \<Longrightarrow> ?thesis"
    by (auto simp: store_ok_def store_remove_def gm_ok_del) (auto simp: gm_del_def)
qed

interpretation region_machine: invariant_machine store_step store_ok
  by unfold_locales (rule store_ok_step)

text \<open>The last word on a code: the history read backwards.\<close>

fun last_set :: "store_op list \<Rightarrow> string \<Rightarrow> region option" where
  "last_set [] c = None"
| "last_set (SetRegion r # xs) c = (if Region_Code r = c then Some r else last_set xs c)"
| "last_set (RemoveRegion d # xs) c = (if d = c then None else last_set xs c)"

lemma store_history: "store_get (fold store_step ops new_store) c = last_set (rev ops) c"
proof (induction ops rule: rev_induct)
  case Nil
  then show ?case by (simp add: store_get_def new_store_def)
next
  case (snoc x ops)
  then show ?case by (cases x) (simp_all add: store_get_def store_set_def store_remove_def)
qed

lemma store_ok_new [wf_intros]: "store_ok new_store"
  by (simp add: store_ok_def new_store_def)

text \<open>The configuration of a well-formed store: one server for each code that is stored.\<close>

lemma ice_config_of_store:
  assumes "visits ord" "store_ok s"
  shows "mset (generate_ice_config ord s u p tls)
      = image_mset (\<lambda>c. let r = the (store_get s c) in
          \<lparr>URLs = [region_url tls ''udp'' r, region_url tls ''tcp'' r], Username = u, Credential = p\<rparr>)
        (mset_set {c. store_get s c \<noteq> None})"
proof -
  let ?f = "\<lambda>r. \<lparr>URLs = [region_url tls ''udp'' r, region_url tls ''tcp'' r], Username = u, Credential = p\<rparr>"
  have "mset (generate_ice_config ord s u p tls) = image_mset (\<lambda>e. ?f (snd e)) (mset s)"
    using visits_mset [OF assms(1), of s] by (simp add: generate_ice_config_def case_prod_unfold)
  also have "\<dots> = image_mset (\<lambda>e. ?f (the (store_get s (fst e)))) (mset s)"
  proof (intro image_mset_cong)
    fix e assume "e \<in># mset s"
    then have "store_get s (fst e) = Some (snd e)" using assms(2) by (simp add: store_ok_def store_get_def gm_get_mem)
    then show "?f (snd e) = ?f (the (store_get s (fst e)))" by simp
  qed
  also have "\<dots> = image_mset (\<lambda>c. ?f (the (store_get s c))) (mset (map fst s))"
    by (simp add: image_mset.compositionality comp_def)
  also have "mset (map fst s) = mset_set {c. store_get s c \<noteq> None}"
  proof -
    have "{c. store_get s c \<noteq> None} = set (map fst s)"
      using gm_get_None [of s] by (auto simp: store_get_def)
    then show ?thesis using assms(2) by (simp only: store_ok_def gm_ok_def mset_set_set)
  qed
  finally show ?thesis by (simp add: Let_def)
qed

section \<open>Properties\<close>

text \<open>
  C34: after any history of updates the generated ICE configuration has, for each region that was
  set and not removed since, exactly one server: the region's UDP address, then its TCP
  address, with the port and scheme of the transport asked for, and the given credentials;
  whatever order the map is visited in.
\<close>

theorem ice_config_covers_regions:
  assumes "visits ord" "s = fold store_step ops new_store"
  shows "mset (generate_ice_config ord s u p tls)
      = image_mset (\<lambda>c. let r = the (last_set (rev ops) c) in
          \<lparr>URLs = map (\<lambda>proto. (if tls then ''turns'' else ''turn'') @ '':'' @ Host r @ '':''
               @ show_int (if tls then TLSPort r else Port r) @ ''?transport='' @ proto) [''udp'', ''tcp''],
             Username = u, Credential = p\<rparr>)
        (mset_set {c. last_set (rev ops) c \<noteq> None})
    \<and> int (length (generate_ice_config ord s u p tls)) = store_count s"
proof -
  have ok: "store_ok s" using assms(2) region_machine.run_keeps [OF store_ok_new] by simp
  have "store_get s = last_set (rev ops)" using store_history [of ops] assms(2) by (intro ext) simp
  then show ?thesis
    using ice_config_of_store [OF assms(1) ok, of u p tls]
    by (simp add: region_url_def region_scheme_def region_port_def generate_ice_config_def visits_length [OF assms(1)] store_count_def gm_len_def)
qed

definition sample_region :: "string \<Rightarrow> string \<Rightarrow> region" where
  "sample_region code host = \<lparr>Region_Code = code, Region_Name = code, Host = host, Port = 3478, TLSPort = 5349\<rparr>"

theorem ice_config_covers_regions_witness:
  "mset (generate_ice_config rev (fold store_step
       [SetRegion (sample_region ''iad'' ''old''), SetRegion (sample_region ''lhr'' ''b''),
        SetRegion (sample_region ''iad'' ''a''), RemoveRegion ''lhr''] new_store) ''u'' ''p'' True)
     = {#\<lparr>URLs = [''turns:a:'' @ show_int 5349 @ ''?transport=udp'', ''turns:a:'' @ show_int 5349 @ ''?transport=tcp''], Username = ''u'', Credential = ''p''\<rparr>#}"
proof -
  let ?ops = "[SetRegion (sample_region ''iad'' ''old''), SetRegion (sample_region ''lhr'' ''b''),
        SetRegion (sample_region ''iad'' ''a''), RemoveRegion ''lhr'']"
  have "{c. last_set (rev ?ops) c \<noteq> None} = {''iad''}"
    by (auto simp: sample_region_def split: if_splits)
  then show ?thesis
    using ice_config_covers_regions [OF visits_rev refl, of ?ops "''u''" "''p''" True]
    by (simp add: Let_def sample_region_def region_url_def region_scheme_def region_port_def)
qed

text \<open>
  The URIs of a credentials response are, region by region, the URLs that
  \<open>auth.FormatTURNServerURL\<close> gives for the region's host and port: the two spellings agree.
\<close>

lemma multi_region_uris_format:
  "generate_multi_region_uris ord s u p tls
     = map (\<lambda>r. format_turn_server_url (Host r) (if tls then TLSPort r else Port r) u p tls) (store_list ord s)"
  by (simp add: generate_multi_region_uris_def store_list_def format_turn_server_url_def region_scheme_def
      region_port_def case_prod_unfold)

end
