(* ===== verification/Health.thy ===== *)
theory Health
  imports Http
begin

text \<open>
  Health checks and the \<open>/healthz\<close> and \<open>/readyz\<close> handlers (\<open>internal/health\<close>).  A \<open>Checker\<close>
  is code the rest of the program registers: a function of the world that returns a status and a
  message, or panics (\<open>None\<close>).  A \<open>Status\<close> is a string, with three named values; the order of
  severity they stand for is the type \<open>severity\<close>, a linear order of the library.
\<close>

section \<open>Severity\<close>

type_synonym status = string

definition StatusHealthy :: status where "StatusHealthy = ''healthy''"
definition StatusDegraded :: status where "StatusDegraded = ''degraded''"
definition StatusUnhealthy :: status where "StatusUnhealthy = ''unhealthy''"

lemmas statuses = StatusHealthy_def StatusDegraded_def StatusUnhealthy_def

datatype severity = Healthy | Degraded | Unhealthy

primrec severity_rank :: "severity \<Rightarrow> nat" where
  "severity_rank Healthy = 0"
| "severity_rank Degraded = 1"
| "severity_rank Unhealthy = 2"

lemma severity_rank_inj: "severity_rank a = severity_rank b \<Longrightarrow> a = b"
  by (cases a; cases b) simp_all

instantiation severity :: linorder
begin

definition less_eq_severity :: "severity \<Rightarrow> severity \<Rightarrow> bool" where
  "less_eq_severity a b \<longleftrightarrow> severity_rank a \<le> severity_rank b"

definition less_severity :: "severity \<Rightarrow> severity \<Rightarrow> bool" where
  "less_severity a b \<longleftrightarrow> severity_rank a < severity_rank b"

instance
  by standard (auto simp: less_eq_severity_def less_severity_def intro: severity_rank_inj)

end

text \<open>Any other status string is no complaint.\<close>

definition severity_of :: "status \<Rightarrow> severity" where
  "severity_of s = (if s = StatusUnhealthy then Unhealthy else if s = StatusDegraded then Degraded else Healthy)"

primrec status_of :: "severity \<Rightarrow> status" where
  "status_of Healthy = StatusHealthy"
| "status_of Degraded = StatusDegraded"
| "status_of Unhealthy = StatusUnhealthy"

lemma severity_of_status [simp]: "severity_of (status_of v) = v"
  by (cases v) (simp_all add: severity_of_def statuses)

lemma severity_least [simp]: "Healthy \<le> v"
  by (simp add: less_eq_severity_def)

lemma severity_greatest [simp]: "Unhealthy \<le> v \<longleftrightarrow> v = Unhealthy"
  by (cases v) (simp_all add: less_eq_severity_def)

section \<open>The service\<close>

type_synonym 'w checker = "'w \<Rightarrow> (status \<times> string) option \<times> 'w"

record 'w health_service =
  checks :: "(string, 'w checker) gomap"
  last_status :: status

definition new_service :: "'w health_service" where
  "new_service = \<lparr>checks = [], last_status = []\<rparr>"

definition register :: "string \<Rightarrow> 'w checker \<Rightarrow> 'w health_service \<Rightarrow> 'w health_service" where
  "register name check s = s\<lparr>checks := gm_put name check (checks s)\<rparr>"

definition get_status :: "'w health_service \<Rightarrow> status" where
  "get_status s = (if last_status s = [] then StatusHealthy else last_status s)"

definition worse :: "status \<Rightarrow> status \<Rightarrow> status" where
  "worse overall status =
     (if status = StatusUnhealthy then StatusUnhealthy
      else if status = StatusDegraded \<and> overall = StatusHealthy then StatusDegraded else overall)"

fun check_loop ::
  "(string \<times> 'w checker) list \<Rightarrow> (string, string) gomap \<Rightarrow> status \<Rightarrow> 'w
   \<Rightarrow> ((string, string) gomap \<times> status) option \<times> 'w"
where
  "check_loop [] results overall w = (Some (results, overall), w)"
| "check_loop ((name, check) # cs) results overall w =
     (case check w of
        (None, w) \<Rightarrow> (None, w)
      | (Some (status, msg), w) \<Rightarrow> check_loop cs (gm_put name msg results) (worse overall status) w)"

type_synonym 'w check_order = "(string \<times> 'w checker) list \<Rightarrow> (string \<times> 'w checker) list"

definition run_checks ::
  "'w check_order \<Rightarrow> 'w health_service \<times> 'w \<Rightarrow> (string, string) gomap option \<times> 'w health_service \<times> 'w" where
  "run_checks ord = (\<lambda>(s, w).
     case check_loop (ord (checks s)) [] StatusHealthy w of
       (None, w) \<Rightarrow> (None, s, w)
     | (Some (results, overall), w) \<Rightarrow> (Some results, s\<lparr>last_status := overall\<rparr>, w))"

definition status_code :: "status \<Rightarrow> int" where
  "status_code status = (if status = StatusUnhealthy then 503 else 200)"

definition healthz :: "'w check_order \<Rightarrow> ('w health_service \<times> 'w) handler" where
  "healthz ord r sw =
     (if Method r \<noteq> ''GET'' then (Some (status_only 405), sw)
      else case run_checks ord sw of
        (None, sw) \<Rightarrow> (None, sw)
      | (Some results, s, w) \<Rightarrow>
          (Some (json_response (status_code (get_status s))
             (JObj [(''details'', json_string_map results), (''status'', JStr (get_status s))])), s, w))"

definition readyz :: "('w health_service \<times> 'w) handler" where
  "readyz r = (\<lambda>(s, w).
     if Method r \<noteq> ''GET'' then (Some (status_only 405), s, w)
     else (Some (json_response (status_code (get_status s)) (JObj [(''status'', JStr (get_status s))])), s, w))"

section \<open>Aggregation\<close>

lemma worse_max: "worse (status_of a) t = status_of (max a (severity_of t))"
  by (cases a) (auto simp: worse_def severity_of_def statuses max_def less_eq_severity_def)

text \<open>Checkers that answer in the present world and leave it as it is.\<close>

definition answers :: "'w \<Rightarrow> ('w \<Rightarrow> (status \<times> string) option \<times> 'w) \<Rightarrow> status \<Rightarrow> string \<Rightarrow> bool" where
  "answers w check status msg \<longleftrightarrow> check w = (Some (status, msg), w)"

lemma check_loop_pure:
  assumes "\<forall>(n, c)\<in>set cs. answers w c (st n) (msg n)"
  shows "check_loop cs results (status_of a) w
    = (Some (fold (\<lambda>(n, c). gm_put n (msg n)) cs results, status_of (foldl max a (map (\<lambda>(n, c). severity_of (st n)) cs))), w)"
  using assms
  by (induction cs arbitrary: results a) (auto simp: answers_def worse_max split: prod.splits)

lemma foldl_max_Max: "foldl max a xs = Max (insert a (set xs))" for a :: severity
proof (induction xs arbitrary: a)
  case (Cons x xs)
  have "Max (insert (max a x) (set xs)) = Max (insert a (insert x (set xs)))"
    by (cases "xs = []") (simp_all add: max.assoc)
  with Cons show ?case by simp
qed simp

lemma Max_unhealthy:
  assumes "finite A"
  shows "Max (insert Healthy A) = Unhealthy \<longleftrightarrow> Unhealthy \<in> A"
proof
  assume "Max (insert Healthy A) = Unhealthy"
  then show "Unhealthy \<in> A" using Max_in [of "insert Healthy A"] assms by auto
next
  assume "Unhealthy \<in> A"
  then show "Max (insert Healthy A) = Unhealthy"
    using Max_ge [of "insert Healthy A" Unhealthy] assms by simp
qed

lemma get_status_of [simp]: "get_status (s\<lparr>last_status := status_of v\<rparr>) = status_of v"
  by (cases v) (simp_all add: get_status_def statuses)

lemma status_code_of [simp]: "status_code (status_of v) = (if v = Unhealthy then 503 else 200)"
  by (cases v) (simp_all add: status_code_def statuses)

lemma get_fold_put:
  "gm_get (fold (\<lambda>(n, c). gm_put n (msg n)) cs m) k = (if k \<in> fst ` set cs then Some (msg k) else gm_get m k)"
  by (induction cs arbitrary: m) auto

section \<open>Properties\<close>

lemma healthz_answer:
  assumes "visits ord" "Method r = ''GET''"
    and "\<forall>(n, c)\<in>set (checks s). answers w c (st n) (msg n)"
  shows "\<exists>results s'. healthz ord r (s, w) = (Some (json_response
        (if \<exists>(n, c)\<in>set (checks s). severity_of (st n) = Unhealthy then 503 else 200)
        (JObj [(''details'', json_string_map results), (''status'', JStr (get_status s'))])), s', w)
    \<and> get_status s' = status_of (Max (insert Healthy ((\<lambda>(n, c). severity_of (st n)) ` set (checks s))))
    \<and> (\<forall>n. gm_get results n = (if n \<in> fst ` set (checks s) then Some (msg n) else None))"
proof -
  let ?sev = "\<lambda>(n, c). severity_of (st n)"
  have cs: "set (ord (checks s)) = set (checks s)" using assms(1) by (rule visits_set)
  define results where "results = fold (\<lambda>(n, c). gm_put n (msg n)) (ord (checks s)) []"
  define v where "v = Max (insert Healthy (?sev ` set (checks s)))"
  have v: "foldl max Healthy (map ?sev (ord (checks s))) = v"
    by (simp add: foldl_max_Max v_def cs)
  have "check_loop (ord (checks s)) [] (status_of Healthy) w = (Some (results, status_of v), w)"
    using check_loop_pure [of "ord (checks s)" w st msg "[]" Healthy] assms(3) cs v
    by (simp add: results_def)
  then have run: "run_checks ord (s, w) = (Some results, s\<lparr>last_status := status_of v\<rparr>, w)"
    by (simp add: run_checks_def)
  have code: "v = Unhealthy \<longleftrightarrow> (\<exists>(n, c)\<in>set (checks s). severity_of (st n) = Unhealthy)"
    by (auto simp: v_def Max_unhealthy image_def intro: rev_bexI)
  have "gm_get results n = (if n \<in> fst ` set (checks s) then Some (msg n) else None)" for n
    using get_fold_put [of msg "ord (checks s)" "[]" n] by (simp add: results_def cs)
  then show ?thesis
    using assms(2) run code
    by (intro exI [of _ results] exI [of _ "s\<lparr>last_status := status_of v\<rparr>"])
      (simp add: healthz_def v_def [symmetric])
qed

text \<open>
  C33: \<open>GET /healthz\<close> runs every check: it answers 503 exactly when some component is unhealthy,
  the aggregate status is the worst of the components' and is what \<open>GetStatus\<close> says from then
  on, and the details hold each component's message; whatever order the map is visited in.
\<close>

theorem healthz_aggregates:
  assumes "visits ord" "Method r = ''GET''"
    and "\<forall>(n, c)\<in>set (checks s). answers w c (st n) (msg n)"
  shows "\<exists>results s'. healthz ord r (s, w) = (Some (json_response
        (if \<exists>(n, c)\<in>set (checks s). severity_of (st n) = Unhealthy then 503 else 200)
        (JObj [(''details'', json_string_map results), (''status'', JStr (get_status s'))])), s', w)
    \<and> severity_of (get_status s') = Max (insert Healthy ((\<lambda>(n, c). severity_of (st n)) ` set (checks s)))
    \<and> (\<forall>n. gm_get results n = (if n \<in> fst ` set (checks s) then Some (msg n) else None))"
proof -
  from healthz_answer [OF assms] obtain results s' where
    a: "healthz ord r (s, w) = (Some (json_response
        (if \<exists>(n, c)\<in>set (checks s). severity_of (st n) = Unhealthy then 503 else 200)
        (JObj [(''details'', json_string_map results), (''status'', JStr (get_status s'))])), s', w)"
    and b: "get_status s' = status_of (Max (insert Healthy ((\<lambda>(n, c). severity_of (st n)) ` set (checks s))))"
    and c: "\<forall>n. gm_get results n = (if n \<in> fst ` set (checks s) then Some (msg n) else None)"
    by blast
  have "severity_of (get_status s') = Max (insert Healthy ((\<lambda>(n, c). severity_of (st n)) ` set (checks s)))"
    unfolding b by (rule severity_of_status)
  with a c show ?thesis by blast
qed

definition fixed_check :: "status \<Rightarrow> string \<Rightarrow> 'w checker" where
  "fixed_check st msg w = (Some (st, msg), w)"

definition get_request :: "string \<Rightarrow> http_request" where
  "get_request path = \<lparr>Method = ''GET'', Path = path, RequestHeader = [], RemoteAddr = [], Body = None\<rparr>"

definition sample_service :: "unit health_service" where
  "sample_service = register ''store'' (fixed_check StatusUnhealthy ''down'')
     (register ''startup'' (fixed_check StatusHealthy ''up'') new_service)"

theorem healthz_aggregates_witness:
  "\<exists>results s'. healthz rev (get_request ''/healthz'') (sample_service, ()) = (Some (json_response 503
      (JObj [(''details'', json_string_map results), (''status'', JStr (get_status s'))])), s', ())
     \<and> severity_of (get_status s') = Unhealthy"
proof -
  let ?st = "\<lambda>n. if n = ''store'' then StatusUnhealthy else StatusHealthy"
  let ?msg = "\<lambda>n. if n = ''store'' then ''down'' else ''up''"
  have c: "checks sample_service = [(''startup'', fixed_check StatusHealthy ''up''), (''store'', fixed_check StatusUnhealthy ''down'')]"
    by (simp add: sample_service_def register_def new_service_def)
  have "\<forall>(n, c)\<in>set (checks sample_service). answers () c (?st n) (?msg n)"
    by (simp add: c answers_def fixed_check_def)
  from healthz_aggregates [OF visits_rev _ this, of "get_request ''/healthz''"]
  obtain results s' where h: "healthz rev (get_request ''/healthz'') (sample_service, ()) = (Some (json_response
        (if \<exists>(n, c)\<in>set (checks sample_service). severity_of (?st n) = Unhealthy then 503 else 200)
        (JObj [(''details'', json_string_map results), (''status'', JStr (get_status s'))])), s', ())"
    "severity_of (get_status s') = Max (insert Healthy ((\<lambda>(n, c). severity_of (?st n)) ` set (checks sample_service)))"
    by (auto simp: get_request_def)
  have sev: "severity_of StatusUnhealthy = Unhealthy" "severity_of StatusHealthy = Healthy"
    by (simp_all add: severity_of_def statuses)
  show ?thesis
    using h by (intro exI [of _ results] exI [of _ s']) (simp add: c sev max_def)
qed

text \<open>
  \<open>GET /readyz\<close> never runs a check.  It repeats the status of the last run, and until the first
  \<open>/healthz\<close> request it answers 200 and \<open>healthy\<close>, whatever checks are registered.
\<close>

lemma readyz_before_first_check:
  "readyz (get_request path) (fold (\<lambda>(n, c). register n c) regs new_service, w)
     = (Some (json_response 200 (JObj [(''status'', JStr ''healthy'')])),
        fold (\<lambda>(n, c). register n c) regs new_service, w)"
proof -
  have "last_status (fold (\<lambda>(n, c). register n c) regs s) = last_status s" for s
    by (induction regs arbitrary: s) (auto simp: register_def)
  then show ?thesis
    by (simp add: readyz_def get_request_def get_status_def new_service_def status_code_def statuses)
qed

end
