(* ===== verification/Control_Api.thy ===== *)
theory Control_Api
  imports Regions Health Go_Float
begin

text \<open>
  The HTTP control API (\<open>internal/controlapi\<close>): credentials, region list, ICE reports, the
  admin guard, routing and the panic-recovering middleware.  The state is what the handlers reach:
  the secrets and lifetime fixed at construction, the health service, the region store if there
  is one, the counters of \<open>region_candidate_wins_total\<close>, and the world the checkers see.  The
  Prometheus handler of \<open>/metrics\<close> is a parameter.
\<close>

section \<open>State, requests and responses\<close>

record 'w api =
  api_secret :: string
  adminToken :: string
  credValidity :: duration
  healthService :: "'w health_service"
  regionStore :: "store option"
  region_wins :: "(string, nat) gomap"
  outside :: 'w

definition new_api :: "string \<Rightarrow> string \<Rightarrow> duration \<Rightarrow> 'w health_service \<Rightarrow> store option \<Rightarrow> 'w \<Rightarrow> 'w api" where
  "new_api secret token validity hs rs w =
     \<lparr>api_secret = secret, adminToken = token, credValidity = validity, healthService = hs,
      regionStore = rs, region_wins = [], outside = w\<rparr>"

record credentials_request =
  UserID :: string
  Validity :: int

definition decode_credentials_request :: "json \<Rightarrow> credentials_request \<Rightarrow> unit + credentials_request" where
  "decode_credentials_request = decode_struct [''user_id'', ''validity_seconds'']
     (\<lambda>k v x. if k = ''user_id'' then bind_res (decode_string v (UserID x)) (\<lambda>s. Inr (x\<lparr>UserID := s\<rparr>))
               else bind_res (decode_int v (Validity x)) (\<lambda>n. Inr (x\<lparr>Validity := n\<rparr>)))"

record credentials_response =
  Resp_Username :: string
  Resp_Password :: string
  TTL :: int
  URIs :: "string list"

definition credentials_json :: "credentials_response \<Rightarrow> json" where
  "credentials_json r =
     JObj ([(''username'', JStr (Resp_Username r)), (''password'', JStr (Resp_Password r)),
            (''ttl_seconds'', json_int (TTL r))]
           @ omit_empty (URIs r = []) ''uris'' (JArr (map JStr (URIs r))))"

definition write_json_error :: "int \<Rightarrow> string \<Rightarrow> http_response" where
  "write_json_error status message = json_response status (JObj [(''error'', JStr message)])"

section \<open>Handlers\<close>

definition store_active :: "store option \<Rightarrow> bool" where
  "store_active rs = (case rs of None \<Rightarrow> False | Some s \<Rightarrow> 0 < store_count s)"

definition credentials_for ::
  "gotime \<Rightarrow> region_order \<Rightarrow> 'w api \<Rightarrow> credentials_request \<Rightarrow> credentials_response" where
  "credentials_for now ord s req =
     (let validity = (if 0 < Validity req then dur_mul (Validity req) second else credValidity s);
          (username, password) = generate_credentials (api_secret s) (UserID req) validity now
      in \<lparr>Resp_Username = username, Resp_Password = password, TTL = f64_trunc (seconds validity),
          URIs = (case regionStore s of
                    None \<Rightarrow> []
                  | Some rs \<Rightarrow> if store_active (Some rs) then generate_multi_region_uris ord rs username password False else [])\<rparr>)"

lemma credentials_for_generated:
  "generate_credentials (api_secret s) (UserID req) (if 0 < Validity req then dur_mul (Validity req) second else credValidity s) now
     = (Resp_Username (credentials_for now ord s req), Resp_Password (credentials_for now ord s req))"
  by (simp add: credentials_for_def Let_def split: prod.split)

definition handle_credentials :: "gotime \<Rightarrow> region_order \<Rightarrow> 'w api handler" where
  "handle_credentials now ord r s =
     (if Method r \<noteq> ''POST'' then (Some (write_json_error 405 ''method not allowed''), s)
      else case decode_body decode_credentials_request \<lparr>UserID = [], Validity = 0\<rparr> (Body r) of
        None \<Rightarrow> (Some (write_json_error 400 ''invalid request body''), s)
      | Some req \<Rightarrow>
          if UserID req = [] then (Some (write_json_error 400 ''user_id is required''), s)
          else (Some (json_response 200 (credentials_json (credentials_for now ord s req))), s))"

definition handle_deploy :: "'w api handler" where
  "handle_deploy r s =
     (if Method r \<noteq> ''POST'' then (Some (write_json_error 405 ''method not allowed''), s)
      else (Some (write_json_error 501 ''server-side deploy not yet wired (use CLI: turnfly deploy)''), s))"

type_synonym name_order = "(string \<times> string) list \<Rightarrow> (string \<times> string) list"

definition regions_json :: "region_order \<Rightarrow> name_order \<Rightarrow> store option \<Rightarrow> json" where
  "regions_json ord names rs =
     JObj [(''regions'', JArr (case rs of
       Some s \<Rightarrow> if store_active rs
         then map (\<lambda>r. JObj [(''code'', JStr (Region_Code r)), (''host'', JStr (Host r)),
                (''name'', JStr (case gm_get WellKnownRegions (Region_Code r) of
                                   None \<Rightarrow> Region_Code r
                                 | Some name \<Rightarrow> if name = [] then Region_Code r else name))]) (store_list ord s)
         else map (\<lambda>(code, name). JObj [(''code'', JStr code), (''name'', JStr name)]) (names WellKnownRegions)
     | None \<Rightarrow> map (\<lambda>(code, name). JObj [(''code'', JStr code), (''name'', JStr name)]) (names WellKnownRegions)))]"

definition handle_regions :: "region_order \<Rightarrow> name_order \<Rightarrow> 'w api handler" where
  "handle_regions ord names r s =
     (if Method r \<noteq> ''GET'' then (Some (write_json_error 405 ''method not allowed''), s)
      else (Some (json_response 200 (regions_json ord names (regionStore s))), s))"

record ice_report_request =
  SelectedRegion :: string
  LocalCandidate :: string
  RemoteCandidate :: string
  PairType :: string
  RTTMs :: int

definition decode_ice_report :: "json \<Rightarrow> ice_report_request \<Rightarrow> unit + ice_report_request" where
  "decode_ice_report = decode_struct [''selected_region'', ''local_candidate'', ''remote_candidate'', ''pair_type'', ''rtt_ms'']
     (\<lambda>k v x.
       if k = ''selected_region'' then bind_res (decode_string v (SelectedRegion x)) (\<lambda>s. Inr (x\<lparr>SelectedRegion := s\<rparr>))
       else if k = ''local_candidate'' then bind_res (decode_string v (LocalCandidate x)) (\<lambda>s. Inr (x\<lparr>LocalCandidate := s\<rparr>))
       else if k = ''remote_candidate'' then bind_res (decode_string v (RemoteCandidate x)) (\<lambda>s. Inr (x\<lparr>RemoteCandidate := s\<rparr>))
       else if k = ''pair_type'' then bind_res (decode_string v (PairType x)) (\<lambda>s. Inr (x\<lparr>PairType := s\<rparr>))
       else bind_res (decode_int v (RTTMs x)) (\<lambda>n. Inr (x\<lparr>RTTMs := n\<rparr>)))"

definition count_win :: "string \<Rightarrow> (string, nat) gomap \<Rightarrow> (string, nat) gomap" where
  "count_win region m = gm_put region (case gm_get m region of None \<Rightarrow> 1 | Some n \<Rightarrow> n + 1) m"

definition handle_ice_report :: "'w api handler" where
  "handle_ice_report r s =
     (if Method r \<noteq> ''POST'' then (Some (write_json_error 405 ''method not allowed''), s)
      else case decode_body decode_ice_report
          \<lparr>SelectedRegion = [], LocalCandidate = [], RemoteCandidate = [], PairType = [], RTTMs = 0\<rparr> (Body r) of
        None \<Rightarrow> (Some (write_json_error 400 ''invalid request body''), s)
      | Some req \<Rightarrow>
          if SelectedRegion req = [] then (Some (write_json_error 400 ''selected_region is required''), s)
          else (Some (json_response 200 (JObj [(''status'', JStr ''recorded'')])),
                s\<lparr>region_wins := count_win (SelectedRegion req) (region_wins s)\<rparr>))"

text \<open>The constant-time comparison of tokens is an equality.\<close>

definition bearer_prefix :: string where "bearer_prefix = ''Bearer ''"

definition require_admin :: "'w api handler \<Rightarrow> 'w api handler" where
  "require_admin nxt r s =
     (let auth = header_get r ''Authorization''
      in if auth = [] then (Some (write_json_error 401 ''missing Authorization header''), s)
         else if length auth \<le> length bearer_prefix \<or> take (length bearer_prefix) auth \<noteq> bearer_prefix
         then (Some (write_json_error 401 ''invalid Authorization header format''), s)
         else if drop (length bearer_prefix) auth \<noteq> adminToken s
         then (Some (write_json_error 403 ''invalid admin token''), s)
         else nxt r s)"

section \<open>Routing\<close>

text \<open>The handlers of the health service, on the service inside the API's state.\<close>

definition on_health :: "('w health_service \<times> 'w) handler \<Rightarrow> 'w api handler" where
  "on_health h r s =
     (case h r (healthService s, outside s) of
        (resp, hs, w) \<Rightarrow> (resp, s\<lparr>healthService := hs, outside := w\<rparr>))"

definition not_found :: http_response where
  "not_found =
     \<lparr>Code = 404, ResponseHeader = [(''Content-Type'', ''text/plain; charset=utf-8''), (''X-Content-Type-Options'', ''nosniff'')],
      Payload = TextBody (''404 page not found'' @ [CHR 0x0A])\<rparr>"

definition bad_target :: http_response where
  "bad_target = \<lparr>Code = 400, ResponseHeader = [(''Connection'', ''close'')], Payload = EmptyBody\<rparr>"

text \<open>
  What one request depends on besides the state: a clock reading, the visiting orders, and the answer
  \<open>net/http\<close> redirects to a clean path with, whose status depends on the version of Go (301, and 307
  in later ones).
\<close>

record 'w request_env =
  now_api :: gotime
  regions_ord :: region_order
  names_ord :: name_order
  checks_ord :: "'w check_order"
  redirect_to :: "string \<Rightarrow> http_response"

definition route :: "'w api handler \<Rightarrow> 'w request_env \<Rightarrow> 'w api handler" where
  "route metrics e r =
     (case mux_target r of
        BadTarget \<Rightarrow> Pair (Some bad_target)
      | RedirectTo p \<Rightarrow> Pair (Some (redirect_to e p))
      | Dispatch path \<Rightarrow>
          if path = [''v1'', ''credentials''] then handle_credentials (now_api e) (regions_ord e) r
          else if path = [''healthz''] then on_health (healthz (checks_ord e)) r
          else if path = [''readyz''] then on_health readyz r
          else if path = [''metrics''] then metrics r
          else if path = [''v1'', ''deploy''] then require_admin handle_deploy r
          else if path = [''v1'', ''regions''] then handle_regions (regions_ord e) (names_ord e) r
          else if path = [''v1'', ''ice-report''] then handle_ice_report r
          else Pair (Some not_found))"

definition with_middleware :: "'w api handler \<Rightarrow> http_request \<Rightarrow> 'w api \<Rightarrow> http_response \<times> 'w api" where
  "with_middleware nxt r s =
     (case nxt r s of
        (Some resp, s) \<Rightarrow> (resp, s)
      | (None, s) \<Rightarrow> (write_json_error 500 ''internal server error'', s))"

definition api_serve :: "'w api handler \<Rightarrow> 'w request_env \<Rightarrow> http_request \<Rightarrow> 'w api \<Rightarrow> http_response \<times> 'w api" where
  "api_serve metrics e = with_middleware (route metrics e)"

section \<open>Runs of requests\<close>

definition reported :: "string \<Rightarrow> http_request \<Rightarrow> bool" where
  "reported region r \<longleftrightarrow> mux_target r = Dispatch [''v1'', ''ice-report''] \<and> Method r = ''POST'' \<and> region \<noteq> []
     \<and> (case decode_body decode_ice_report
          \<lparr>SelectedRegion = [], LocalCandidate = [], RemoteCandidate = [], PairType = [], RTTMs = 0\<rparr> (Body r) of
          None \<Rightarrow> False | Some req \<Rightarrow> SelectedRegion req = region)"

definition wins :: "'w api \<Rightarrow> string \<Rightarrow> nat" where
  "wins s region = (case gm_get (region_wins s) region of None \<Rightarrow> 0 | Some n \<Rightarrow> n)"

definition api_run :: "'w api handler \<Rightarrow> ('w request_env \<times> http_request) list \<Rightarrow> 'w api \<Rightarrow> 'w api" where
  "api_run metrics = fold (\<lambda>(e, r) s. snd (api_serve metrics e r s))"

lemma middleware_state [simp]: "snd (with_middleware nxt r s) = snd (nxt r s)"
  by (simp add: with_middleware_def split: prod.split option.split)

lemma wins_cong: "region_wins s = region_wins t \<Longrightarrow> wins s region = wins t region"
  by (simp add: wins_def)

lemma on_health_wins [simp]: "region_wins (snd (on_health h r s)) = region_wins s"
  by (simp add: on_health_def split: prod.split)

lemma admin_deploy_state [simp]: "snd (require_admin handle_deploy r s) = s"
  by (simp add: require_admin_def handle_deploy_def Let_def)

lemma read_only_handlers [simp]:
  "snd (handle_credentials now ord r s) = s" "snd (handle_regions ord names r s) = s"
  by (simp_all add: handle_credentials_def handle_regions_def split: option.split)

lemma route_wins:
  assumes "\<And>r s. region_wins (snd (metrics r s)) = region_wins s" "mux_target r \<noteq> Dispatch [''v1'', ''ice-report'']"
  shows "region_wins (snd (route metrics e r s)) = region_wins s"
proof (cases "mux_target r")
  case (Dispatch path)
  with assms(2) have "path \<noteq> [''v1'', ''ice-report'']" by simp
  with Dispatch show ?thesis
    by (simp only: route_def mux_verdict.case if_False) (simp only: if_distribR if_distrib [of snd] if_distrib [of region_wins]
        read_only_handlers on_health_wins admin_deploy_state assms(1) snd_conv if_cancel)
qed (simp_all add: route_def)

lemma route_ice: "mux_target r = Dispatch [''v1'', ''ice-report''] \<Longrightarrow> route metrics e r = handle_ice_report r"
  by (simp add: route_def)

lemma route_credentials:
  "mux_target r = Dispatch [''v1'', ''credentials''] \<Longrightarrow> route metrics e r = handle_credentials (now_api e) (regions_ord e) r"
  by (simp add: route_def)

lemma route_healthz: "mux_target r = Dispatch [''healthz''] \<Longrightarrow> route metrics e r = on_health (healthz (checks_ord e)) r"
  by (simp add: route_def)

lemma wins_count_win [simp]:
  "wins (s\<lparr>region_wins := count_win g (region_wins s)\<rparr>) region = wins s region + (if g = region then 1 else 0)"
  by (simp add: wins_def count_win_def split: option.split)

lemma handle_ice_wins:
  assumes "mux_target r = Dispatch [''v1'', ''ice-report'']"
  shows "wins (snd (handle_ice_report r s)) region = wins s region + (if reported region r then 1 else 0)"
proof (cases "decode_body decode_ice_report
    \<lparr>SelectedRegion = [], LocalCandidate = [], RemoteCandidate = [], PairType = [], RTTMs = 0\<rparr> (Body r)")
  case None
  then show ?thesis by (simp add: handle_ice_report_def reported_def)
next
  case (Some req)
  then show ?thesis by (auto simp: handle_ice_report_def reported_def assms)
qed

lemma serve_wins:
  assumes "\<And>r s. region_wins (snd (metrics r s)) = region_wins s"
  shows "wins (snd (api_serve metrics e r s)) region = wins s region + (if reported region r then 1 else 0)"
proof (cases "mux_target r = Dispatch [''v1'', ''ice-report'']")
  case True
  then show ?thesis by (simp only: api_serve_def middleware_state route_ice handle_ice_wins)
next
  case False
  then have "\<not> reported region r" by (simp only: reported_def simp_thms)
  with route_wins [OF assms False] show ?thesis
    by (simp only: api_serve_def middleware_state wins_def if_False add_0_right)
qed

lemma bearer_token:
  "a = p @ t \<and> t \<noteq> [] \<longleftrightarrow>
   a \<noteq> [] \<and> \<not> (length a \<le> length p \<or> take (length p) a \<noteq> p) \<and> drop (length p) a = t"
proof
  assume "a \<noteq> [] \<and> \<not> (length a \<le> length p \<or> take (length p) a \<noteq> p) \<and> drop (length p) a = t"
  then show "a = p @ t \<and> t \<noteq> []" using append_take_drop_id [of "length p" a] by fastforce
qed auto

text \<open>The status codes a handler can answer with, unless it panics.\<close>

definition answers_with :: "int set \<Rightarrow> http_response option \<Rightarrow> bool" where
  "answers_with C resp \<longleftrightarrow> (case resp of None \<Rightarrow> True | Some x \<Rightarrow> Code x \<in> C)"

lemma handler_codes:
  "answers_with {200, 400, 405} (fst (handle_credentials now ord r s))"
  "answers_with {200, 405, 503} (fst (on_health (healthz cord) r s))"
  "answers_with {200, 405, 503} (fst (on_health readyz r s))"
  "answers_with {401, 403, 405, 501} (fst (require_admin handle_deploy r s))"
  "answers_with {200, 405} (fst (handle_regions ord names r s))"
  "answers_with {200, 400, 405} (fst (handle_ice_report r s))"
  "answers_with {404} (Some not_found)" "answers_with {400} (Some bad_target)"
  by (simp_all add: answers_with_def handle_credentials_def on_health_def healthz_def readyz_def status_code_def
      require_admin_def handle_deploy_def handle_regions_def handle_ice_report_def not_found_def bad_target_def write_json_error_def
      Let_def split: prod.split option.split)

lemma answers_with_mono: "answers_with C resp \<Longrightarrow> C \<subseteq> D \<Longrightarrow> answers_with D resp"
  by (auto simp: answers_with_def split: option.splits)

section \<open>Properties\<close>

text \<open>
  C9: a well-formed request for credentials gets a username and password that validate for its user
  id, under the server's secret, for exactly as many seconds as the response says and no longer: the
  lifetime asked for, or the server's default of whole seconds. This is for lifetimes that a
  \<open>time.Duration\<close> can hold, up to 9223372036 seconds (292 years), and a clock between 1970 and 2200.
\<close>

theorem credentials_endpoint:
  assumes "mux_target r = Dispatch [''v1'', ''credentials'']" "Method r = ''POST''"
    and "decode_body decode_credentials_request \<lparr>UserID = [], Validity = 0\<rparr> (Body r) = Some req"
    and "UserID req \<noteq> []" "Validity req \<le> 9223372036" "credValidity s = d * second" "0 \<le> d" "d \<le> 9223372036"
    and "modern (now_api e)"
  shows "\<exists>c. api_serve metrics e r s = (json_response 200 (credentials_json c), s)
    \<and> TTL c = (if 0 < Validity req then Validity req else d)
    \<and> validate_credentials t (Resp_Username c) (Resp_Password c) (api_secret s)
        = (if unix_sec t \<le> unix_sec (now_api e) + TTL c then Some (UserID req) else None)"
proof -
  let ?now = "now_api e"
  define v where "v = (if 0 < Validity req then Validity req else d)"
  have v: "0 \<le> v" "v \<le> 9223372036" using assms(5,7,8) by (auto simp: v_def)
  have "in_i64 (v * second)" using v by (simp add: in_i64_iff second_def)
  then have val: "(if 0 < Validity req then dur_mul (Validity req) second else credValidity s) = v * second"
    by (auto simp: v_def dur_mul_def wrap64_id assms(6))
  let ?c = "credentials_for ?now (regions_ord e) s req"
  obtain u p where g: "generate_credentials (api_secret s) (UserID req) (v * second) ?now = (u, p)" by fastforce
  have ttl: "TTL ?c = v" "Resp_Username ?c = u" "Resp_Password ?c = p"
    using seconds_whole [of v] v g by (simp_all add: credentials_for_def val)
  have ex: "unix_sec (time_add ?now (v * second)) = unix_sec ?now + v" by (rule unix_sec_add)
  moreover have "0 \<le> unix_sec ?now" "unix_sec ?now \<le> 7258118400"
    using assms(9) by (auto simp: modern_def unix_sec_def)
  ultimately have "in_i64 (unix_sec (time_add ?now (v * second)))"
    using v by (simp add: in_i64_iff)
  from credentials_round_trip_eq [OF g this] have
    "validate_credentials t u p (api_secret s) = (if unix_sec t \<le> unix_sec ?now + v then Some (UserID req) else None)"
    using assms(4) by (simp add: ex)
  then show ?thesis
    using assms(2-4) ttl by (intro exI [of _ ?c]) (simp add: api_serve_def with_middleware_def route_credentials [OF assms(1)] handle_credentials_def v_def)
qed

definition sample_api :: "unit api" where
  "sample_api = new_api ''secret'' ''token'' (24 * hour) new_service None ()"

definition post_request :: "string \<Rightarrow> json \<Rightarrow> http_request" where
  "post_request path body =
     \<lparr>Method = ''POST'', Path = path, RequestHeader = [], RemoteAddr = ''10.0.0.1:5000'', Body = Some body\<rparr>"

lemma decode_sample:
  "parse_int l = Some n \<Longrightarrow>
   decode_body decode_credentials_request \<lparr>UserID = [], Validity = 0\<rparr>
     (Body (post_request p (JObj [(''user_id'', JStr u), (''validity_seconds'', JNum l)])))
     = Some \<lparr>UserID = u, Validity = n\<rparr>"
  by (simp add: decode_body_def decode_credentials_request_def post_request_def)

text \<open>A request environment at a time, and what the server makes of a request for alice's credentials.\<close>

definition env_at :: "gotime \<Rightarrow> 'w request_env" where
  "env_at t = \<lparr>now_api = t, regions_ord = rev, names_ord = rev, checks_ord = rev, redirect_to = (\<lambda>p. status_only 307)\<rparr>"

lemma env_at_sel [simp]: "now_api (env_at t) = t" "checks_ord (env_at t) = rev" "redirect_to (env_at t) = (\<lambda>p. status_only 307)"
  by (simp_all add: env_at_def)

lemma post_request_sel [simp]: "Method (post_request p b) = ''POST''" "Path (post_request p b) = p"
  by (simp_all add: post_request_def)

theorem credentials_endpoint_witness:
  "\<exists>c. api_serve (\<lambda>r s. (None, s)) (env_at (1000 * second)) (post_request ''/v1/credentials''
        (JObj [(''user_id'', JStr ''alice''), (''validity_seconds'', JNum ''600'')])) sample_api
      = (json_response 200 (credentials_json c), sample_api)
    \<and> TTL c = 600 \<and> validate_credentials (1600 * second) (Resp_Username c) (Resp_Password c) ''secret'' = Some ''alice''"
proof -
  let ?r = "post_request ''/v1/credentials'' (JObj [(''user_id'', JStr ''alice''), (''validity_seconds'', JNum ''600'')])"
  have n: "parse_int ''600'' = Some 600" by code_simp
  have t: "unix_sec (1600 * second) = 1600" "unix_sec (1000 * second) = 1000" "api_secret sample_api = ''secret''"
    by (simp_all add: unix_sec_def second_def sample_api_def new_api_def)
  have p: "mux_target ?r = Dispatch [''v1'', ''credentials'']" "Method ?r = ''POST''" by (simp_all add: mux_routes)
  have d: "credValidity sample_api = 86400 * second" by (simp add: sample_api_def new_api_def dur_units)
  have now: "modern (now_api (env_at (1000 * second)))" by (simp add: modern_def second_def)
  obtain c where c: "api_serve (\<lambda>r s. (None, s)) (env_at (1000 * second)) ?r sample_api
      = (json_response 200 (credentials_json c), sample_api)" "TTL c = 600"
    "validate_credentials (1600 * second) (Resp_Username c) (Resp_Password c) (api_secret sample_api)
      = (if unix_sec (1600 * second) \<le> unix_sec (1000 * second) + TTL c then Some ''alice'' else None)"
    using credentials_endpoint [OF p decode_sample [OF n] _ _ d _ _ now, where t = "1600 * second" and metrics = "\<lambda>r s. (None, s)"] by auto
  then show ?thesis by (intro exI [of _ c]) (simp add: t)
qed

text \<open>
  C31: the lifetime is multiplied in \<open>time.Duration\<close> without a range check: a request for more than
  9223372036 seconds (292 years) is answered 200 with credentials of another lifetime, the number of
  nanoseconds wrapped around to 64 bits, always shorter than what was asked for; for up to
  18446744072 seconds it is negative, and the credentials have already expired.
\<close>

theorem credentials_lifetime_overflow:
  assumes "mux_target r = Dispatch [''v1'', ''credentials'']" "Method r = ''POST''"
    and "decode_body decode_credentials_request \<lparr>UserID = [], Validity = 0\<rparr> (Body r) = Some req"
    and "UserID req \<noteq> []" "9223372036 < Validity req" "modern (now_api e)"
  shows "let v = wrap64 (Validity req * 1000000000) in
    v < Validity req * 1000000000 \<and> (\<exists>c. api_serve metrics e r s = (json_response 200 (credentials_json c), s)
    \<and> validate_credentials t (Resp_Username c) (Resp_Password c) (api_secret s)
      = (if unix_sec t \<le> unix_sec (now_api e + v) then Some (UserID req) else None)
    \<and> (Validity req < 18446744073 \<and> now_api e \<le> t \<longrightarrow>
        validate_credentials t (Resp_Username c) (Resp_Password c) (api_secret s) = None))"
proof -
  let ?now = "now_api e"
  define v where "v = wrap64 (Validity req * 1000000000)"
  have i64: "in_i64 v" by (simp add: v_def)
  have less: "v < Validity req * 1000000000" using i64 assms(5) by (simp add: in_i64_iff)
  let ?c = "credentials_for ?now (regions_ord e) s req"
  have v': "dur_mul (Validity req) second = v" by (simp add: v_def dur_mul_def second_def)
  obtain u p where g: "generate_credentials (api_secret s) (UserID req) v ?now = (u, p)" by fastforce
  have c: "Resp_Username ?c = u" "Resp_Password ?c = p"
    using assms(5) g by (simp_all add: credentials_for_def v')
  have n: "0 \<le> ?now" "?now < 7258118400 * 1000000000" using assms(6) by (simp_all add: modern_def)
  have "- 9223372037 \<le> unix_sec (?now + v)" "unix_sec (?now + v) \<le> 20000000000"
    using zdiv_mono1 [of "- 9223372036854775808" "?now + v" 1000000000] zdiv_mono1 [of "?now + v" 20000000000000000000 1000000000]
      n i64 by (simp_all add: unix_sec_def in_i64_iff)
  then have "in_i64 (unix_sec (time_add ?now v))" by (simp add: time_add_def in_i64_iff)
  from credentials_round_trip_eq [OF g this, of t] assms(4) have
    val: "validate_credentials t u p (api_secret s) = (if unix_sec t \<le> unix_sec (?now + v) then Some (UserID req) else None)"
    by (simp add: time_add_def)
  have "\<not> unix_sec t \<le> unix_sec (?now + v)" if "Validity req < 18446744073" "?now \<le> t"
  proof -
    have "v = Validity req * 1000000000 - 2 ^ 64"
      unfolding v_def using assms(5) that(1) by (intro wrap64_over) simp_all
    then have "?now + v \<le> ?now - 1000000000" using that(1) by simp
    then have "unix_sec (?now + v) \<le> (?now - 1000000000) div 1000000000"
      unfolding unix_sec_def by (intro zdiv_mono1) auto
    moreover have "unix_sec ?now \<le> unix_sec t" using that(2) by (rule unix_sec_mono)
    ultimately show ?thesis by (simp add: unix_sec_def)
  qed
  with val c less show ?thesis
    using assms(2-4) unfolding v_def [symmetric] Let_def
    by (intro conjI exI [of _ ?c]) (auto simp: api_serve_def with_middleware_def route_credentials [OF assms(1)] handle_credentials_def)
qed

theorem credentials_lifetime_overflow_witness:
  "\<exists>c. api_serve (\<lambda>r s. (None, s)) (env_at 0) (post_request ''/v1/credentials''
        (JObj [(''user_id'', JStr ''alice''), (''validity_seconds'', JNum (show_int 10000000000))])) sample_api
      = (json_response 200 (credentials_json c), sample_api)
    \<and> validate_credentials 0 (Resp_Username c) (Resp_Password c) ''secret'' = None"
proof -
  let ?r = "post_request ''/v1/credentials'' (JObj [(''user_id'', JStr ''alice''), (''validity_seconds'', JNum (show_int 10000000000))])"
  have n: "parse_int (show_int 10000000000) = Some 10000000000"
    by (rule parse_show_int) (simp add: in_i64_iff)
  have t: "api_secret sample_api = ''secret''" by (simp add: sample_api_def new_api_def)
  have p: "mux_target ?r = Dispatch [''v1'', ''credentials'']" "Method ?r = ''POST''" by (simp_all add: mux_routes)
  have now: "modern (now_api (env_at 0))" by (simp add: modern_def)
  obtain c where "api_serve (\<lambda>r s. (None, s)) (env_at 0) ?r sample_api
      = (json_response 200 (credentials_json c), sample_api)"
    "validate_credentials 0 (Resp_Username c) (Resp_Password c) (api_secret sample_api) = None"
    using credentials_lifetime_overflow [OF p decode_sample [OF n] _ _ now, where t = 0 and metrics = "\<lambda>r s. (None, s)" and s = sample_api]
    by (auto simp: Let_def)
  then show ?thesis by (intro exI [of _ c]) (simp add: t)
qed

text \<open>
  C25: the admin guard lets a request through to its handler exactly when its \<open>Authorization\<close> header is
  the bearer scheme followed by the configured token; an empty token is never accepted.  Every
  other request is answered 401 or 403 and changes nothing.
\<close>

theorem admin_guard:
  "if header_get r ''Authorization'' = ''Bearer '' @ adminToken s \<and> adminToken s \<noteq> []
   then require_admin nxt r s = nxt r s
   else \<exists>resp. require_admin nxt r s = (Some resp, s) \<and> Code resp \<in> {401, 403}"
proof -
  let ?a = "header_get r ''Authorization''" and ?p = bearer_prefix and ?t = "adminToken s"
  note iff = bearer_token [of ?a ?p ?t]
  show ?thesis
  proof (cases "?a = ?p @ ?t \<and> ?t \<noteq> []")
    case True
    with iff have "?a \<noteq> []" "\<not> (length ?a \<le> length ?p \<or> take (length ?p) ?a \<noteq> ?p)" "drop (length ?p) ?a = ?t"
      by blast+
    then have "require_admin nxt r s = nxt r s"
      by (simp only: require_admin_def Let_def if_False simp_thms)
    then show ?thesis unfolding bearer_prefix_def [symmetric] if_P [OF True] .
  next
    case False
    with iff have "?a = [] \<or> length ?a \<le> length ?p \<or> take (length ?p) ?a \<noteq> ?p \<or> drop (length ?p) ?a \<noteq> ?t"
      by blast
    then have "\<exists>resp. require_admin nxt r s = (Some resp, s) \<and> Code resp \<in> {401, 403}"
      unfolding require_admin_def Let_def write_json_error_def by fastforce
    then show ?thesis unfolding bearer_prefix_def [symmetric] if_not_P [OF False] .
  qed
qed

text \<open>
  C36: a request whose path is not clean is redirected to the clean path, unless it is a CONNECT or for
  \<open>*\<close>, and changes nothing; apart from \<open>/metrics\<close>, every other is answered, a panicking health check
  included, with one of nine status codes. 429 is not one of them, so the documented rate limiting of
  this API does not happen.
\<close>

theorem api_status_codes:
  assumes "mux_target r \<noteq> Dispatch [''metrics'']"
  shows "if Path r \<noteq> ''*'' \<and> Method r \<noteq> ''CONNECT'' \<and> clean_path (Path r) \<noteq> Path r
    then api_serve metrics e r s = (redirect_to e (clean_path (Path r)), s)
    else Code (fst (api_serve metrics e r s)) \<in> {200, 400, 401, 403, 404, 405, 500, 501, 503}"
proof -
  let ?all = "{200, 400, 401, 403, 404, 405, 500, 501, 503} :: int set"
  note codes = handler_codes [THEN answers_with_mono, of ?all]
  have finish: "Code (fst (api_serve metrics e r s)) \<in> ?all" if "answers_with ?all (fst (route metrics e r s))"
    using that by (auto simp: api_serve_def with_middleware_def write_json_error_def answers_with_def
        split: prod.splits option.splits)
  show ?thesis
  proof (cases "mux_target r")
    case BadTarget
    then have "Path r = ''*''" by (simp add: mux_target_def split: if_splits)
    moreover have "answers_with ?all (fst (route metrics e r s))" using codes by (simp add: route_def BadTarget)
    ultimately show ?thesis using finish by simp
  next
    case (RedirectTo p)
    then have "Path r \<noteq> ''*'' \<and> Method r \<noteq> ''CONNECT'' \<and> clean_path (Path r) \<noteq> Path r" "p = clean_path (Path r)"
      by (simp_all add: mux_target_def split: if_splits)
    then show ?thesis by (simp add: api_serve_def with_middleware_def route_def RedirectTo)
  next
    case (Dispatch path)
    then have "\<not> (Path r \<noteq> ''*'' \<and> Method r \<noteq> ''CONNECT'' \<and> clean_path (Path r) \<noteq> Path r)"
      by (auto simp: mux_target_def split: if_splits)
    moreover have "path \<noteq> [''metrics'']" using assms Dispatch by simp
    then have "answers_with ?all (fst (route metrics e r s))"
      unfolding route_def Dispatch mux_verdict.case
      by (simp only: if_False if_distribR if_distrib [of fst] if_distrib [of "answers_with ?all"] fst_conv) (simp add: codes)
    ultimately show ?thesis using finish by (simp only: if_False)
  qed
qed

theorem api_status_codes_witness:
  "api_serve (\<lambda>r s. (Some (status_only 200), s)) (env_at 0) (get_request ''//healthz'') sample_api = (status_only 307, sample_api)"
proof -
  have c: "clean_path ''//healthz'' = ''/healthz''" by code_simp
  then have "mux_target (get_request ''//healthz'') \<noteq> Dispatch [''metrics'']"
    by (simp add: mux_target_def get_request_def)
  from api_status_codes [OF this, of "\<lambda>r s. (Some (status_only 200), s)" "env_at 0" sample_api] show ?thesis
    by (simp add: get_request_def c)
qed

text \<open>
  The win counter of a region counts the accepted reports that name it and nothing else, over any
  run of requests; the name is whatever string the client sent, no deployed region.
\<close>

lemma ice_wins_count:
  assumes "\<And>r s. region_wins (snd (metrics r s)) = region_wins s"
  shows "wins (api_run metrics reqs s) region
    = wins s region + length (filter (\<lambda>(e, r). reported region r) reqs)"
proof (induction reqs arbitrary: s)
  case (Cons x reqs)
  then show ?case
    using serve_wins [OF assms, where e = "fst x" and r = "snd x" and s = s and region = region]
    by (simp add: api_run_def case_prod_unfold)
qed (simp add: api_run_def)

lemma ice_wins_count_witness:
  "wins (api_run (\<lambda>r s. (Some (status_only 200), s))
     [(e, post_request ''/v1/ice-report'' (JObj [(''selected_region'', JStr ''nowhere'')])),
      (e, get_request ''/v1/ice-report'')] sample_api) ''nowhere'' = 1"
  by (subst ice_wins_count)
    (simp_all add: reported_def mux_routes get_request_def post_request_def decode_body_def decode_ice_report_def sample_api_def
      new_api_def wins_def)

end
