(* ===== verification/Turn_Server.thy ===== *)
theory Turn_Server
  imports Auth
begin

text \<open>
  The TURN server (\<open>internal/turnserver\<close>): the authentication callback it gives to the Pion
  library, its start and its shutdown.  Pion and the network are not part of the repository:
  \<open>GenerateAuthKey\<close> is a parameter, and so are the calls that open and close sockets, a record
  of functions on a world \<open>'w\<close>.
\<close>

section \<open>Authentication\<close>

record turn_config =
  TurnListenAddr :: string
  Realm :: string
  SharedSecret :: string

text \<open>
  The callback counts a failure in \<open>turn_auth_failures_total\<close>; the counter is passed through.
\<close>

definition auth_handler ::
  "(string \<Rightarrow> string \<Rightarrow> string \<Rightarrow> byte list) \<Rightarrow> turn_config \<Rightarrow> gotime \<Rightarrow> string \<Rightarrow> nat
   \<Rightarrow> byte list option \<times> nat"
where
  "auth_handler genAuthKey cfg now username failures =
     (case validate_username now username of
        None \<Rightarrow> (None, failures + 1)
      | Some userID \<Rightarrow> (Some (genAuthKey username (Realm cfg) (SharedSecret cfg)), failures))"

text \<open>
  The long-term credential mechanism: client and server derive the key from username, realm and
  the password the client was given, and a request authenticates when the keys agree.
\<close>

definition authenticates ::
  "(string \<Rightarrow> string \<Rightarrow> string \<Rightarrow> byte list) \<Rightarrow> turn_config \<Rightarrow> gotime \<Rightarrow> string \<Rightarrow> string \<Rightarrow> bool"
where
  "authenticates genAuthKey cfg now username password \<longleftrightarrow>
     fst (auth_handler genAuthKey cfg now username 0) = Some (genAuthKey username (Realm cfg) password)"

section \<open>Lifecycle\<close>

record ('a, 'p, 't, 'w) turn_net =
  resolve_udp :: "string \<Rightarrow> 'w \<Rightarrow> (string + 'a) \<times> 'w"
  listen_udp :: "'a \<Rightarrow> 'w \<Rightarrow> (string + 'p) \<times> 'w"
  new_turn_server :: "string \<Rightarrow> 'p \<Rightarrow> 'w \<Rightarrow> (string + 't) \<times> 'w"
  wait_done :: "'w \<Rightarrow> 'w"
  close_turn :: "'t \<Rightarrow> 'w \<Rightarrow> string option \<times> 'w"
  close_udp :: "'p \<Rightarrow> 'w \<Rightarrow> string option \<times> 'w"

record ('p, 't) turn_server =
  server_cfg :: turn_config
  udpListener :: "'p option"
  turnServer :: "'t option"

datatype turn_error =
    ResolveUDP string string
  | ListenUDP string string
  | CreateTurnServer string
  | CloseTurnServer string
  | CloseUDPListener string

definition new_server :: "turn_config \<Rightarrow> ('p, 't) turn_server" where
  "new_server cfg = \<lparr>server_cfg = cfg, udpListener = None, turnServer = None\<rparr>"

definition shutdown :: "('a, 'p, 't, 'w) turn_net \<Rightarrow> ('p, 't) turn_server \<Rightarrow> 'w \<Rightarrow> turn_error option \<times> 'w"
where
  "shutdown net s w =
     (let (e, w) = (case turnServer s of None \<Rightarrow> (None, w) | Some t \<Rightarrow> close_turn net t w)
      in case e of
           Some e \<Rightarrow> (Some (CloseTurnServer e), w)
         | None \<Rightarrow>
             let (e, w) = (case udpListener s of None \<Rightarrow> (None, w) | Some p \<Rightarrow> close_udp net p w)
             in (map_option CloseUDPListener e, w))"

text \<open>\<open>Start\<close> up to the point where it blocks: the error it fails with, if any, and the server.\<close>

definition start_up ::
  "('a, 'p, 't, 'w) turn_net \<Rightarrow> ('p, 't) turn_server \<Rightarrow> 'w
   \<Rightarrow> turn_error option \<times> ('p, 't) turn_server \<times> 'w"
where
  "start_up net s w =
     (case resolve_udp net (TurnListenAddr (server_cfg s)) w of
        (Inl e, w) \<Rightarrow> (Some (ResolveUDP (TurnListenAddr (server_cfg s)) e), s, w)
      | (Inr addr, w) \<Rightarrow>
          (case listen_udp net addr w of
             (Inl e, w) \<Rightarrow> (Some (ListenUDP (TurnListenAddr (server_cfg s)) e), s, w)
           | (Inr p, w) \<Rightarrow>
               let s = s\<lparr>udpListener := Some p\<rparr>
               in case new_turn_server net (Realm (server_cfg s)) p w of
                    (Inl e, w) \<Rightarrow> (Some (CreateTurnServer e), s, snd (close_udp net p w))
                  | (Inr t, w) \<Rightarrow> (None, s\<lparr>turnServer := Some t\<rparr>, w)))"

text \<open>\<open>Start\<close> blocks until its context is done, and then shuts down.\<close>

definition start ::
  "('a, 'p, 't, 'w) turn_net \<Rightarrow> ('p, 't) turn_server \<Rightarrow> 'w
   \<Rightarrow> turn_error option \<times> ('p, 't) turn_server \<times> 'w"
where
  "start net s w =
     (case start_up net s w of
        (Some e, s, w) \<Rightarrow> (Some e, s, w)
      | (None, s, w) \<Rightarrow>
          let w = wait_done net w;
              (e, w) = shutdown net s w
          in (e, s, w))"

definition server_addr :: "('p \<Rightarrow> 'addr) \<Rightarrow> ('p, 't) turn_server \<Rightarrow> 'addr option" where
  "server_addr localAddr s = map_option localAddr (udpListener s)"

lemma start_up_serves:
  assumes "start_up net (new_server cfg) w = (None, s, w')"
  shows "\<exists>p t w1. udpListener s = Some p \<and> turnServer s = Some t \<and> server_cfg s = cfg
    \<and> new_turn_server net (Realm cfg) p w1 = (Inr t, w')"
  using assms by (auto simp: start_up_def new_server_def Let_def split: prod.splits sum.splits)

section \<open>Properties\<close>

text \<open>
  The callback rejects, and counts, exactly the usernames that are malformed or expired; for
  every other it returns a key.
\<close>

lemma auth_handler_verdict:
  "auth_handler gen cfg now username n =
     (if \<exists>u p e. username = p @ CHR '':'' # u \<and> CHR '':'' \<notin> set p \<and> u \<noteq> []
        \<and> parse_int p = Some e \<and> unix_sec now \<le> e
      then (Some (gen username (Realm cfg) (SharedSecret cfg)), n) else (None, n + 1))"
proof (cases "validate_username now username")
  case None
  then have "\<not> (\<exists>u p e. username = p @ CHR '':'' # u \<and> CHR '':'' \<notin> set p \<and> u \<noteq> []
        \<and> parse_int p = Some e \<and> unix_sec now \<le> e)"
    using validate_username_iff [of now username] by (metis option.discI)
  with None show ?thesis by (simp add: auth_handler_def)
next
  case (Some u)
  then have "\<exists>u p e. username = p @ CHR '':'' # u \<and> CHR '':'' \<notin> set p \<and> u \<noteq> []
        \<and> parse_int p = Some e \<and> unix_sec now \<le> e"
    using validate_username_iff [of now username u] by blast
  with Some show ?thesis by (simp add: auth_handler_def)
qed

text \<open>
  The callback derives the key from the shared secret where the password belongs, so under a key
  derivation that separates passwords the only password that authenticates is the secret itself.
\<close>

lemma issued_password_fails:
  assumes "\<And>p p'. gen username (Realm cfg) p = gen username (Realm cfg) p' \<Longrightarrow> p = p'"
    and "generate_credentials (SharedSecret cfg) userID validity issued = (username, password)"
    and "length (SharedSecret cfg) \<noteq> 28"
  shows "\<not> authenticates gen cfg now username password
    \<and> (authenticates gen cfg now username p \<longrightarrow> p = SharedSecret cfg)"
proof -
  from assms(2) have "length password = 28"
    by (auto simp: generate_credentials_def Let_def length_compute_password)
  then have "password \<noteq> SharedSecret cfg" using assms(3) by auto
  then show ?thesis
    using assms(1) by (auto simp: authenticates_def auth_handler_def split: option.splits)
qed

text \<open>
  A failed start leaves no listener open: the socket of a server that could not be created is
  closed again, and a start that gets as far as serving ends by shutting both down.
\<close>

lemma start_outcome:
  assumes "start net (new_server cfg) w = (e, s, w')"
  shows "(udpListener s = None \<longrightarrow> (\<exists>a m. e = Some (ResolveUDP a m)) \<or> (\<exists>a m. e = Some (ListenUDP a m)))
    \<and> (\<forall>p. udpListener s = Some p \<and> turnServer s = None \<longrightarrow>
         (\<exists>m w1. e = Some (CreateTurnServer m) \<and> w' = snd (close_udp net p w1)))
    \<and> (\<forall>t. turnServer s = Some t \<longrightarrow> (\<exists>w1. (e, w') = shutdown net s w1))"
proof (cases "turnServer s")
  case None
  then show ?thesis
    using assms
    by (auto simp: start_def start_up_def new_server_def Let_def split: prod.splits sum.splits) blast
next
  case (Some t)
  then obtain p wa where "udpListener s = Some p" "shutdown net s wa = (e, w')"
    using assms
    by (auto simp: start_def start_up_def new_server_def Let_def split: prod.splits sum.splits)
  then have "(e, w') = shutdown net s wa" "udpListener s \<noteq> None" by simp_all
  with Some show ?thesis by auto
qed

text \<open>A network that records the sockets it has open, and on which no TURN server can be made.\<close>

definition failing_net :: "(string, nat, nat, nat list) turn_net" where
  "failing_net =
     \<lparr>resolve_udp = (\<lambda>a w. (Inr a, w)), listen_udp = (\<lambda>a w. (Inr 3478, 3478 # w)),
      new_turn_server = (\<lambda>r p w. (Inl ''no relay address'', w)), wait_done = (\<lambda>w. w),
      close_turn = (\<lambda>t w. (None, w)), close_udp = (\<lambda>p w. (None, removeAll p w))\<rparr>"

lemma start_outcome_witness:
  "\<exists>s w'. start failing_net (new_server \<lparr>TurnListenAddr = ''0.0.0.0:3478'', Realm = ''r'', SharedSecret = ''s''\<rparr>) []
      = (Some (CreateTurnServer ''no relay address''), s, w') \<and> udpListener s = Some 3478 \<and> w' = []
      \<and> (\<exists>wa. w' = snd (close_udp failing_net 3478 wa))"
proof -
  obtain s w' where st: "start failing_net (new_server \<lparr>TurnListenAddr = ''0.0.0.0:3478'', Realm = ''r'', SharedSecret = ''s''\<rparr>) []
      = (Some (CreateTurnServer ''no relay address''), s, w')" "udpListener s = Some 3478" "turnServer s = None" "w' = []"
    by (simp add: start_def start_up_def new_server_def failing_net_def Let_def)
  with start_outcome [OF st(1)] show ?thesis by blast
qed

end
