(* ===== verification/Relay_Frame.thy ===== *)
theory Relay_Frame
  imports Go_Bytes Go_Time Go_Strings
begin

text \<open>
  The binary frame of the relay tunnel (\<open>internal/relay/frame.go\<close>): a 33-byte big-endian header
  (magic, session id, flow id, direction, timestamp in microseconds, payload length) and the
  payload.  \<open>encode\<close> and \<open>decode_frame\<close> follow the Go functions byte by byte; the lemmas are
  the round trip, the length of an encoding, the exact set of accepted buffers, and what a
  decoder that trusts the length field lets through.
\<close>

section \<open>Frames\<close>

text \<open>\<open>Direction\<close> is any byte; two values have a name.\<close>

definition FrameMagic :: u32 where "FrameMagic = 0x5455524E"
definition FrameHeaderSize :: nat where "FrameHeaderSize = 33"
definition MaxPayloadSize :: nat where "MaxPayloadSize = 1200"
definition DirClientToPeer :: byte where "DirClientToPeer = 0"
definition DirPeerToClient :: byte where "DirPeerToClient = 1"

definition direction_string :: "byte \<Rightarrow> string" where
  "direction_string d =
     (if d = DirClientToPeer then ''client_to_peer''
      else if d = DirPeerToClient then ''peer_to_client''
      else ''unknown('' @ show_nat (unat d) @ '')'')"

text \<open>A \<open>FrameID\<close> is an array of 16 bytes.\<close>

type_synonym frame_id = "byte list"

definition frame_id_ok :: "frame_id \<Rightarrow> bool" where
  "frame_id_ok i \<longleftrightarrow> length i = 16"

record frame =
  SessionID :: frame_id
  FlowID :: u16
  Direction :: byte
  Timestamp :: gotime
  Payload :: "byte list"

datatype frame_error =
    PayloadTooLarge nat nat
  | FrameTooShort nat nat
  | InvalidMagic u32 u32
  | PayloadLenExceeds nat nat

definition frame_bytes :: "frame \<Rightarrow> byte list" where
  "frame_bytes f =
     put_be 4 FrameMagic
     @ SessionID f
     @ put_be 2 (FlowID f)
     @ [Direction f]
     @ put_be 8 (word_of_int (unix_micro (Timestamp f)) :: u64)
     @ put_be 2 (word_of_nat (length (Payload f)) :: u16)
     @ Payload f"

definition encode :: "frame \<Rightarrow> frame_error + byte list" where
  "encode f =
     (if MaxPayloadSize < length (Payload f)
      then Inl (PayloadTooLarge (length (Payload f)) MaxPayloadSize)
      else Inr (frame_bytes f))"

text \<open>A Go slice expression \<open>data[i:j]\<close> with both bounds in range.\<close>

definition slice :: "nat \<Rightarrow> nat \<Rightarrow> 'a list \<Rightarrow> 'a list" where
  "slice i j xs = take (j - i) (drop i xs)"

definition decode_frame :: "byte list \<Rightarrow> frame_error + frame" where
  "decode_frame data =
     (if length data < FrameHeaderSize then Inl (FrameTooShort (length data) FrameHeaderSize)
      else let magic = (get_be 0 (slice 0 4 data) :: u32) in
        if magic \<noteq> FrameMagic then Inl (InvalidMagic magic FrameMagic)
        else let ts = (get_be 0 (slice 23 31 data) :: u64);
                 payloadLen = (get_be 0 (slice 31 33 data) :: u16)
          in if length data - FrameHeaderSize < unat payloadLen
             then Inl (PayloadLenExceeds (unat payloadLen) (length data - FrameHeaderSize))
             else Inr \<lparr>SessionID = slice 4 20 data,
                       FlowID = get_be 0 (slice 20 22 data),
                       Direction = data ! 22,
                       Timestamp = of_unix_micro (sint ts),
                       Payload = slice FrameHeaderSize (FrameHeaderSize + unat payloadLen) data\<rparr>)"

text \<open>
  \<open>NewFrameID\<close> copies \<open>data[:16]\<close>.  The argument here is the slice up to its capacity, which
  is what bounds the slice expression; \<open>None\<close> is the run-time panic of a shorter one.
\<close>

definition new_frame_id :: "byte list \<Rightarrow> frame_id option" where
  "new_frame_id data = (if length data < 16 then None else Some (slice 0 16 data))"

text \<open>What a frame of the program satisfies, and what survives the wire.\<close>

definition frame_ok :: "frame \<Rightarrow> bool" where
  "frame_ok f \<longleftrightarrow> frame_id_ok (SessionID f) \<and> length (Payload f) \<le> MaxPayloadSize
     \<and> in_i64 (Timestamp f div 1000)"

definition on_wire :: "frame \<Rightarrow> frame" where
  "on_wire f = f\<lparr>Timestamp := Timestamp f - Timestamp f mod 1000\<rparr>"

lemmas frame_sizes = FrameHeaderSize_def MaxPayloadSize_def

lemma slice_append: "length xs = n \<Longrightarrow> slice i j (xs @ ys)
    = (if n \<le> i then slice (i - n) (j - n) ys else if j \<le> n then slice i j xs
       else slice i n xs @ slice 0 (j - n) ys)"
  by (auto simp: slice_def)

lemma slice_all: "length xs = j \<Longrightarrow> slice 0 j xs = xs"
  by (simp add: slice_def)

lemma length_slice: "j \<le> length xs \<Longrightarrow> length (slice i j xs) = j - i"
  by (simp add: slice_def)

lemma length_frame_bytes:
  "frame_id_ok (SessionID f) \<Longrightarrow> length (frame_bytes f) = FrameHeaderSize + length (Payload f)"
  by (simp add: frame_bytes_def frame_id_ok_def FrameHeaderSize_def)

text \<open>Where each field of an encoding sits.\<close>

lemma frame_bytes_layout:
  assumes "frame_id_ok (SessionID f)"
  shows "slice 0 4 (frame_bytes f) = put_be 4 FrameMagic"
    and "slice 4 20 (frame_bytes f) = SessionID f"
    and "slice 20 22 (frame_bytes f) = put_be 2 (FlowID f)"
    and "frame_bytes f ! 22 = Direction f"
    and "slice 23 31 (frame_bytes f) = put_be 8 (word_of_int (unix_micro (Timestamp f)) :: u64)"
    and "slice 31 33 (frame_bytes f) = put_be 2 (word_of_nat (length (Payload f)) :: u16)"
    and "slice 33 (33 + length (Payload f)) (frame_bytes f) = Payload f"
  using assms
  by (simp_all add: frame_bytes_def frame_id_ok_def slice_def nth_append)

lemma payload_len_u16: "n < 65536 \<Longrightarrow> unat (word_of_nat n :: u16) = n"
  by (simp add: unat_of_nat)

lemma sint_in_i64: "in_i64 (sint (w :: u64))"
  using sint_word_of_int_64 [of "sint w"] wrap64_in_range [of "sint w"] by simp

lemma sint_of_micro: "in_i64 u \<Longrightarrow> sint (word_of_int u :: u64) = u"
  by (simp only: sint_word_of_int_64 wrap64_id)

lemma decode_written:
  assumes ok: "frame_id_ok (SessionID f)" "length (Payload f) < 65536" "in_i64 (Timestamp f div 1000)"
  shows "decode_frame (frame_bytes f @ rest) = Inr (on_wire f)"
proof -
  let ?d = "frame_bytes f @ rest"
  have len: "length (frame_bytes f) = 33 + length (Payload f)"
    using ok length_frame_bytes by (simp add: FrameHeaderSize_def)
  have sl: "j \<le> 33 + length (Payload f) \<Longrightarrow> slice i j ?d = slice i j (frame_bytes f)" for i j
    using len by (simp add: slice_def)
  have ts: "of_unix_micro (sint (word_of_int (unix_micro (Timestamp f)) :: u64))
      = Timestamp f - Timestamp f mod 1000"
    using ok by (simp only: sint_of_micro unix_micro_def wrap64_in_range)
      (simp add: of_unix_micro_micro [unfolded unix_micro_def])
  have "?d ! 22 = Direction f"
    using ok len frame_bytes_layout(4) by (simp add: nth_append)
  then show ?thesis
    using ok len sl frame_bytes_layout
    by (simp add: decode_frame_def Let_def FrameHeaderSize_def get_put_be payload_len_u16 ts on_wire_def)
qed

lemma decode_frame_bytes: "frame_ok f \<Longrightarrow> decode_frame (frame_bytes f @ rest) = Inr (on_wire f)"
  by (rule decode_written) (simp_all add: frame_ok_def MaxPayloadSize_def)

lemma encode_Inr_iff: "encode f = Inr bs \<longleftrightarrow> length (Payload f) \<le> MaxPayloadSize \<and> bs = frame_bytes f"
  by (auto simp: encode_def)

interpretation frame_wire: codec "\<lambda>f. frame_ok f \<and> Timestamp f mod 1000 = 0" frame_bytes
  "\<lambda>data. case decode_frame data of Inl e \<Rightarrow> None | Inr f \<Rightarrow> Some f"
proof
  fix f assume "frame_ok f \<and> Timestamp f mod 1000 = 0"
  then show "(case decode_frame (frame_bytes f) of Inl e \<Rightarrow> None | Inr f \<Rightarrow> Some f) = Some f"
    using decode_frame_bytes [of f "[]"] by (simp add: on_wire_def)
qed

lemma put_get_slice:
  assumes "j \<le> length data" "8 * (j - i) \<le> LENGTH('a)"
  shows "put_be (j - i) (get_be 0 (slice i j data) :: 'a::len word) = slice i j data"
  using put_get_be [of "slice i j data", where 'a = 'a] assms by (simp add: length_slice)

lemma take_slice: "i \<le> j \<Longrightarrow> take j xs = take i xs @ slice i j xs"
  by (metis slice_def le_add_diff_inverse take_add)

lemma take_header:
  assumes "33 \<le> n" "n \<le> length data"
  shows "take n data = slice 0 4 data @ slice 4 20 data @ slice 20 22 data @ [data ! 22]
    @ slice 23 31 data @ slice 31 33 data @ slice 33 n data"
proof -
  have "slice 22 23 data = [data ! 22]"
    using assms by (simp add: slice_def take_Suc_conv_app_nth hd_drop_conv_nth take_Suc drop_Suc)
  then show ?thesis
    using assms take_slice [of 33 n data] take_slice [of 31 33 data] take_slice [of 23 31 data]
      take_slice [of 22 23 data] take_slice [of 20 22 data] take_slice [of 4 20 data]
    by (simp add: slice_def)
qed

lemma decode_frame_Inr:
  assumes "decode_frame data = Inr f"
  shows "33 + length (Payload f) \<le> length data"
    and "take (33 + length (Payload f)) data = frame_bytes f"
    and "frame_id_ok (SessionID f)"
proof -
  let ?n = "unat (get_be 0 (slice 31 33 data) :: u16)"
  have len: "33 \<le> length data" "?n \<le> length data - 33"
    and magic: "get_be 0 (slice 0 4 data) = FrameMagic"
    and f: "f = \<lparr>SessionID = slice 4 20 data, FlowID = get_be 0 (slice 20 22 data),
         Direction = data ! 22, Timestamp = of_unix_micro (sint (get_be 0 (slice 23 31 data) :: u64)),
         Payload = slice 33 (33 + ?n) data\<rparr>"
    using assms by (auto simp: decode_frame_def Let_def FrameHeaderSize_def split: if_splits)
  then have pl: "length (Payload f) = ?n" by (simp add: length_slice)
  with len show "33 + length (Payload f) \<le> length data" by simp
  show "frame_id_ok (SessionID f)" using f len by (simp add: frame_id_ok_def length_slice)
  have "put_be 4 FrameMagic = slice 0 4 data"
    using put_get_slice [of 4 data 0, where 'a = 32] len magic by simp
  moreover have "put_be 2 (FlowID f) = slice 20 22 data"
    using put_get_slice [of 22 data 20, where 'a = 16] len f by simp
  moreover have "put_be 8 (word_of_int (unix_micro (Timestamp f)) :: u64) = slice 23 31 data"
    using put_get_slice [of 31 data 23, where 'a = 64] len f
      unix_micro_of [OF sint_in_i64 [of "get_be 0 (slice 23 31 data) :: u64"]] by simp
  moreover have "put_be 2 (word_of_nat (length (Payload f)) :: u16) = slice 31 33 data"
    using put_get_slice [of 33 data 31, where 'a = 16] len pl by simp
  ultimately show "take (33 + length (Payload f)) data = frame_bytes f"
    using take_header [of "33 + ?n" data] len f pl by (simp add: frame_bytes_def)
qed

section \<open>Properties\<close>

text \<open>
  C15: encoding a frame and decoding the bytes, with anything after them, gives the frame back,
  its timestamp cut to the microsecond; the encoding has 33 bytes and the payload.
\<close>

theorem frame_round_trip:
  assumes "frame_ok f"
  shows "\<exists>bs. encode f = Inr bs \<and> length bs = 33 + length (Payload f)
    \<and> decode_frame (bs @ rest) = Inr (on_wire f)"
  using assms decode_frame_bytes [OF assms] length_frame_bytes [of f]
  by (simp add: encode_def frame_ok_def FrameHeaderSize_def)

definition sample_frame :: frame where
  "sample_frame = \<lparr>SessionID = replicate 16 7, FlowID = 42, Direction = 1,
     Timestamp = 1700000000123456789, Payload = [104, 105]\<rparr>"

lemma frame_ok_sample: "frame_ok sample_frame"
  by (simp add: sample_frame_def frame_ok_def frame_id_ok_def MaxPayloadSize_def in_i64_iff)

theorem frame_round_trip_witness:
  "frame_ok sample_frame \<and> (\<exists>bs. encode sample_frame = Inr bs \<and> length bs = 35
     \<and> decode_frame (bs @ [255]) = Inr (sample_frame\<lparr>Timestamp := 1700000000123456000\<rparr>))"
  using frame_ok_sample frame_round_trip [OF frame_ok_sample, of "[255]"]
  by (simp add: sample_frame_def on_wire_def)

text \<open>
  A decoded frame accounts for every byte it was read from: re-serialising its fields
  reproduces the first 33 + payload bytes of the buffer, so two buffers decode to the same frame
  only if they agree there.
\<close>

lemma decode_frame_exact:
  assumes "decode_frame data = Inr f"
  shows "33 + length (Payload f) \<le> length data \<and> frame_id_ok (SessionID f)
    \<and> take (33 + length (Payload f)) data = frame_bytes f"
  using decode_frame_Inr [OF assms] by blast

lemma decode_frame_exact_witness:
  "take 35 (frame_bytes sample_frame @ [9, 9]) = frame_bytes (on_wire sample_frame)"
  using decode_frame_exact [OF decode_frame_bytes [OF frame_ok_sample, of "[9, 9]"]]
  by (simp add: on_wire_def sample_frame_def)

text \<open>
  C16: exactly which buffers the decoder accepts: at least a header, the magic number, and a length
  field that the buffer covers; every other buffer gets the error of the first check it fails.
\<close>

theorem decode_frame_verdict:
  "decode_frame data =
     (if length data < 33 then Inl (FrameTooShort (length data) 33)
      else if take 4 data \<noteq> [0x54, 0x55, 0x52, 0x4E]
        then Inl (InvalidMagic (get_be 0 (take 4 data)) 0x5455524E)
      else let n = 256 * unat (data ! 31) + unat (data ! 32) in
        if length data < 33 + n then Inl (PayloadLenExceeds n (length data - 33))
        else Inr \<lparr>SessionID = slice 4 20 data, FlowID = get_be 0 (slice 20 22 data),
          Direction = data ! 22,
          Timestamp = of_unix_micro (sint (get_be 0 (slice 23 31 data) :: u64)),
          Payload = slice 33 (33 + n) data\<rparr>)"
proof -
  have m: "get_be 0 (take 4 data) = (0x5455524E :: u32) \<longleftrightarrow> take 4 data = [0x54, 0x55, 0x52, 0x4E]"
    if "33 \<le> length data"
  proof -
    have "put_be 4 (get_be 0 (take 4 data) :: u32) = take 4 data"
      using put_get_be [of "take 4 data", where 'a = 32] that by simp
    moreover have "put_be 4 (0x5455524E :: u32) = [0x54, 0x55, 0x52, 0x4E]"
      by code_simp
    moreover have "get_be 0 [0x54, 0x55, 0x52, 0x4E] = (0x5455524E :: u32)"
      by code_simp
    ultimately show ?thesis by metis
  qed
  have n: "unat (get_be 0 (slice 31 33 data) :: u16) = 256 * unat (data ! 31) + unat (data ! 32)"
    if "33 \<le> length data"
  proof -
    have "slice 31 33 data = [data ! 31, data ! 32]"
      using that by (simp add: slice_def numeral_eq_Suc take_Suc_conv_app_nth Cons_nth_drop_Suc [symmetric])
    then show ?thesis by (simp only: unat_get_be_two)
  qed
  show ?thesis
    using m n by (auto simp: decode_frame_def Let_def frame_sizes FrameMagic_def slice_def)
qed

text \<open>
  The decoder does not enforce the documented maximum of 1200 bytes: the encoder refuses a
  larger payload, and the decoder delivers it all the same.
\<close>

lemma decode_frame_oversized:
  assumes "frame_id_ok (SessionID f)" "in_i64 (Timestamp f div 1000)"
    and "MaxPayloadSize < length (Payload f)" "length (Payload f) < 65536"
  shows "encode f = Inl (PayloadTooLarge (length (Payload f)) MaxPayloadSize)
    \<and> decode_frame (frame_bytes f) = Inr (on_wire f)"
  using assms decode_written [of f "[]"] by (simp add: encode_def)

lemma decode_frame_oversized_witness:
  "decode_frame (frame_bytes (sample_frame\<lparr>Payload := replicate 1300 0\<rparr>))
     = Inr (on_wire (sample_frame\<lparr>Payload := replicate 1300 0\<rparr>))"
  using decode_frame_oversized [of "sample_frame\<lparr>Payload := replicate 1300 0\<rparr>"]
  by (simp add: sample_frame_def frame_id_ok_def MaxPayloadSize_def in_i64_iff)

end
