(* ===== verification/Relay_Session.thy ===== *)
theory Relay_Session
  imports Relay_Frame
begin

text \<open>
  Relay sessions and their registry (\<open>internal/relay/session.go\<close>).  The registry hands out
  pointers to sessions, which its callers keep and write through after the registry has closed,
  replaced or dropped the entry; so sessions live in a heap, a list of cells whose index is the
  pointer, and the registry maps an identifier to a pointer.  The \<open>RWMutex\<close> makes each method
  of the manager one step.  The counters are 64-bit words and wrap around.
\<close>

section \<open>Sessions\<close>

datatype session_state = StateActive | StateClosing | StateClosed

record session_stats =
  PacketsIn :: u64
  PacketsOut :: u64
  BytesIn :: u64
  BytesOut :: u64
  PacketsDropped :: u64
  StatsCreatedAt :: gotime
  LastActive :: gotime

record session =
  ID :: frame_id
  State :: session_state
  PeerAddr :: string
  Stats :: session_stats
  CreatedAt :: gotime
  Timeout :: duration

definition is_expired :: "gotime \<Rightarrow> session \<Rightarrow> bool" where
  "is_expired now s =
     (if Timeout s \<le> 0 then False else Timeout s < since now (LastActive (Stats s)))"

definition touch :: "gotime \<Rightarrow> session \<Rightarrow> session" where
  "touch now s = s\<lparr>Stats := (Stats s)\<lparr>LastActive := now\<rparr>\<rparr>"

definition record_packet_in :: "int \<Rightarrow> gotime \<Rightarrow> session \<Rightarrow> session" where
  "record_packet_in n now s =
     touch now (s\<lparr>Stats := (Stats s)\<lparr>PacketsIn := PacketsIn (Stats s) + 1,
                                     BytesIn := BytesIn (Stats s) + word_of_int n\<rparr>\<rparr>)"

definition record_packet_out :: "int \<Rightarrow> gotime \<Rightarrow> session \<Rightarrow> session" where
  "record_packet_out n now s =
     touch now (s\<lparr>Stats := (Stats s)\<lparr>PacketsOut := PacketsOut (Stats s) + 1,
                                     BytesOut := BytesOut (Stats s) + word_of_int n\<rparr>\<rparr>)"

definition record_drop :: "session \<Rightarrow> session" where
  "record_drop s = s\<lparr>Stats := (Stats s)\<lparr>PacketsDropped := PacketsDropped (Stats s) + 1\<rparr>\<rparr>"

lemmas session_ops = touch_def record_packet_in_def record_packet_out_def record_drop_def

section \<open>The registry\<close>

type_synonym session_ptr = nat

record manager =
  sessions :: "(frame_id, session_ptr) gomap"
  heap :: "session list"
  defaultTimeout :: duration

definition new_manager :: "duration \<Rightarrow> manager" where
  "new_manager d = \<lparr>sessions = [], heap = [], defaultTimeout = d\<rparr>"

definition fresh_session :: "frame_id \<Rightarrow> string \<Rightarrow> gotime \<Rightarrow> duration \<Rightarrow> session" where
  "fresh_session i peer now timeout =
     \<lparr>ID = i, State = StateActive, PeerAddr = peer,
      Stats = \<lparr>PacketsIn = 0, PacketsOut = 0, BytesIn = 0, BytesOut = 0, PacketsDropped = 0,
               StatsCreatedAt = now, LastActive = now\<rparr>,
      CreatedAt = now, Timeout = timeout\<rparr>"

text \<open>Storing a new object: allocate a cell and let the registry point to it.\<close>

definition mgr_insert :: "frame_id \<Rightarrow> session \<Rightarrow> manager \<Rightarrow> manager" where
  "mgr_insert i s m =
     m\<lparr>heap := heap m @ [s], sessions := gm_put i (length (heap m)) (sessions m)\<rparr>"

definition mgr_create :: "frame_id \<Rightarrow> string \<Rightarrow> gotime \<Rightarrow> manager \<Rightarrow> session_ptr \<times> manager" where
  "mgr_create i peer now m =
     (length (heap m), mgr_insert i (fresh_session i peer now (defaultTimeout m)) m)"

definition mgr_get :: "manager \<Rightarrow> frame_id \<Rightarrow> session_ptr option" where
  "mgr_get m i = gm_get (sessions m) i"

text \<open>Writing through a pointer; a pointer of the program always refers to a cell.\<close>

definition write_ptr :: "session_ptr \<Rightarrow> (session \<Rightarrow> session) \<Rightarrow> manager \<Rightarrow> manager" where
  "write_ptr p f m = m\<lparr>heap := (heap m)[p := f (heap m ! p)]\<rparr>"

definition mgr_close :: "frame_id \<Rightarrow> manager \<Rightarrow> bool \<times> manager" where
  "mgr_close i m =
     (case mgr_get m i of
        None \<Rightarrow> (False, m)
      | Some p \<Rightarrow> (True, write_ptr p (\<lambda>s. s\<lparr>State := StateClosed\<rparr>) m))"

definition mgr_delete :: "frame_id \<Rightarrow> manager \<Rightarrow> manager" where
  "mgr_delete i m = m\<lparr>sessions := gm_del i (sessions m)\<rparr>"

definition mgr_list ::
  "((frame_id \<times> session_ptr) list \<Rightarrow> (frame_id \<times> session_ptr) list) \<Rightarrow> manager \<Rightarrow> session_ptr list"
where
  "mgr_list ord m = map snd (ord (sessions m))"

definition mgr_count :: "manager \<Rightarrow> nat" where
  "mgr_count m = gm_len (sessions m)"

text \<open>
  The loop of \<open>GC\<close> reads the clock once for each entry it visits: \<open>clock i\<close> is the reading for
  the entry of \<open>i\<close>.
\<close>

fun gc_loop ::
  "(frame_id \<Rightarrow> gotime) \<Rightarrow> session list \<Rightarrow> (frame_id \<times> session_ptr) list
   \<Rightarrow> (frame_id, session_ptr) gomap \<Rightarrow> nat \<Rightarrow> nat \<times> (frame_id, session_ptr) gomap"
where
  "gc_loop clock h [] ss removed = (removed, ss)"
| "gc_loop clock h ((i, p) # es) ss removed =
     (if is_expired (clock i) (h ! p) then gc_loop clock h es (gm_del i ss) (removed + 1)
      else gc_loop clock h es ss removed)"

definition mgr_gc ::
  "((frame_id \<times> session_ptr) list \<Rightarrow> (frame_id \<times> session_ptr) list) \<Rightarrow> (frame_id \<Rightarrow> gotime)
   \<Rightarrow> manager \<Rightarrow> nat \<times> manager"
where
  "mgr_gc ord clock m =
     (let (removed, ss) = gc_loop clock (heap m) (ord (sessions m)) (sessions m) 0
      in (removed, m\<lparr>sessions := ss\<rparr>))"

section \<open>Well-formed registries\<close>

definition mgr_ok :: "manager \<Rightarrow> bool" where
  "mgr_ok m \<longleftrightarrow> gm_ok (sessions m) \<and> (\<forall>e\<in>set (sessions m). snd e < length (heap m))"

text \<open>Every entry points to the session of its own identifier.\<close>

definition mgr_indexed :: "manager \<Rightarrow> bool" where
  "mgr_indexed m \<longleftrightarrow> (\<forall>e\<in>set (sessions m). ID (heap m ! snd e) = fst e)"

definition mgr_find :: "manager \<Rightarrow> frame_id \<Rightarrow> session option" where
  "mgr_find m i = map_option (\<lambda>p. heap m ! p) (mgr_get m i)"

lemma mgr_get_lt: "mgr_ok m \<Longrightarrow> mgr_get m i = Some p \<Longrightarrow> p < length (heap m)"
  by (auto simp: mgr_ok_def mgr_get_def gm_get_mem)

lemma mgr_get_ID: "mgr_ok m \<Longrightarrow> mgr_indexed m \<Longrightarrow> mgr_get m i = Some p \<Longrightarrow> ID (heap m ! p) = i"
  by (auto simp: mgr_ok_def mgr_indexed_def mgr_get_def gm_get_mem)

lemma mgr_get_insert:
  "mgr_get (mgr_insert i s m) j = (if j = i then Some (length (heap m)) else mgr_get m j)"
  by (simp add: mgr_get_def mgr_insert_def)

lemma mgr_heap_insert: "heap (mgr_insert i s m) = heap m @ [s]"
  by (simp add: mgr_insert_def)

lemma mgr_ok_map: "mgr_ok m \<Longrightarrow> gm_ok (sessions m)"
  by (simp add: mgr_ok_def)

lemma set_gm_put_sub: "set (gm_put k v m) \<subseteq> insert (k, v) (set m)"
  by (induction m) auto

lemma mgr_ok_new [wf_intros]: "mgr_ok (new_manager d)"
  by (simp add: mgr_ok_def new_manager_def)

lemma mgr_ok_insert [wf_intros]: "mgr_ok m \<Longrightarrow> mgr_ok (mgr_insert i s m)"
  using set_gm_put_sub [of i "length (heap m)" "sessions m"]
  by (fastforce simp: mgr_ok_def mgr_insert_def gm_ok_put)

lemma mgr_ok_delete [wf_intros]: "mgr_ok m \<Longrightarrow> mgr_ok (mgr_delete i m)"
  by (simp add: mgr_ok_def mgr_delete_def gm_ok_del) (simp add: gm_del_def)

lemma mgr_ok_write_ptr [wf_intros]: "mgr_ok m \<Longrightarrow> mgr_ok (write_ptr p f m)"
  by (simp add: mgr_ok_def write_ptr_def)

lemma mgr_ok_close [wf_intros]: "mgr_ok m \<Longrightarrow> mgr_ok (snd (mgr_close i m))"
  by (auto simp: mgr_close_def intro: mgr_ok_write_ptr split: option.split)

lemma mgr_find_insert: "mgr_ok m \<Longrightarrow> mgr_find (mgr_insert i s m) j = (if j = i then Some s else mgr_find m j)"
  by (cases "mgr_get m j")
    (simp_all add: mgr_find_def mgr_get_insert mgr_heap_insert nth_append mgr_get_lt)

lemma mgr_find_delete: "mgr_find (mgr_delete i m) j = (if j = i then None else mgr_find m j)"
  by (simp add: mgr_find_def mgr_get_def mgr_delete_def)

lemma dom_mgr_find: "dom (mgr_find m) = dom (gm_get (sessions m))"
  by (auto simp: mgr_find_def mgr_get_def)

lemma gc_loop_eq:
  "gc_loop clock h es ss removed =
     (removed + length (filter (\<lambda>(i, p). is_expired (clock i) (h ! p)) es),
      filter (\<lambda>(j, q). \<not> (\<exists>(i, p)\<in>set es. i = j \<and> is_expired (clock i) (h ! p))) ss)"
proof (induction es arbitrary: ss removed)
  case Nil
  then show ?case by simp
next
  case (Cons e es)
  then show ?case by (cases e) (auto simp: gm_del_def intro!: filter_cong)
qed

text \<open>Whatever order the loop visits the entries in, it keeps exactly the live ones.\<close>

lemma mgr_gc_eq:
  assumes "visits ord" "mgr_ok m"
  shows "mgr_gc ord clock m =
    (length (filter (\<lambda>(i, p). is_expired (clock i) (heap m ! p)) (sessions m)),
     m\<lparr>sessions := filter (\<lambda>(i, p). \<not> is_expired (clock i) (heap m ! p)) (sessions m)\<rparr>)"
proof -
  let ?dead = "\<lambda>(i, p). is_expired (clock i) (heap m ! p)"
  have "length (filter ?dead (ord (sessions m))) = length (filter ?dead (sessions m))"
    using visits_mset [OF assms(1), of "sessions m"] by (metis mset_filter size_mset)
  moreover have "filter (\<lambda>(j, q). \<not> (\<exists>(i, p)\<in>set (ord (sessions m)). i = j \<and> is_expired (clock i) (heap m ! p)))
      (sessions m) = filter (\<lambda>e. \<not> ?dead e) (sessions m)"
    using assms by (intro filter_cong refl)
      (auto simp: visits_set mgr_ok_def gm_ok_def dest: eq_key_imp_eq_value)
  ultimately show ?thesis
    by (simp add: mgr_gc_def gc_loop_eq case_prod_unfold)
qed

lemma mgr_ok_gc [wf_intros]: "visits ord \<Longrightarrow> mgr_ok m \<Longrightarrow> mgr_ok (snd (mgr_gc ord clock m))"
  by (auto simp: mgr_gc_eq mgr_ok_def gm_ok_filter)

interpretation registry: keyed_store mgr_find mgr_insert mgr_delete mgr_count mgr_ok
  by unfold_locales
    (simp_all add: mgr_find_insert mgr_find_delete mgr_ok_insert mgr_ok_delete mgr_count_def
      dom_mgr_find gm_len_card mgr_ok_map)

section \<open>Runs of registry operations\<close>

text \<open>
  What the rest of the program can do to a registry and to the sessions it points at.  The
  pointer operations take any pointer, also one whose entry is gone.
\<close>

datatype session_op =
    OpCreate frame_id string gotime
  | OpClose frame_id
  | OpDelete frame_id
  | OpGC "(frame_id \<times> session_ptr) list \<Rightarrow> (frame_id \<times> session_ptr) list" "frame_id \<Rightarrow> gotime"
  | OpIn session_ptr int gotime
  | OpOut session_ptr int gotime
  | OpDrop session_ptr

fun session_step :: "session_op \<Rightarrow> manager \<Rightarrow> manager" where
  "session_step (OpCreate i peer now) m = snd (mgr_create i peer now m)"
| "session_step (OpClose i) m = snd (mgr_close i m)"
| "session_step (OpDelete i) m = mgr_delete i m"
| "session_step (OpGC ord clock) m = snd (mgr_gc ord clock m)"
| "session_step (OpIn p n now) m = write_ptr p (record_packet_in n now) m"
| "session_step (OpOut p n now) m = write_ptr p (record_packet_out n now) m"
| "session_step (OpDrop p) m = write_ptr p record_drop m"

lemma mgr_ok_gc_any [wf_intros]: "mgr_ok m \<Longrightarrow> mgr_ok (snd (mgr_gc ord clock m))"
  by (auto simp: mgr_gc_def gc_loop_eq mgr_ok_def gm_ok_filter)

lemma gc_frame [simp]:
  "heap (snd (mgr_gc ord clock m)) = heap m"
  "defaultTimeout (snd (mgr_gc ord clock m)) = defaultTimeout m"
  by (simp_all add: mgr_gc_def gc_loop_eq)

lemma sessions_gc_sub: "set (sessions (snd (mgr_gc ord clock m))) \<subseteq> set (sessions m)"
  by (auto simp: mgr_gc_def gc_loop_eq)

text \<open>A change to one cell keeps whatever the change keeps.\<close>

lemma write_ptr_all:
  assumes "\<And>s. P s \<Longrightarrow> P (f s)" "\<forall>s\<in>set (heap m). P s"
  shows "\<forall>s\<in>set (heap (write_ptr p f m)). P s"
  using assms
  by (cases "p < length (heap m)")
    (auto simp: write_ptr_def list_update_beyond dest!: set_update_subset_insert [THEN subsetD])

lemma write_ptr_nth:
  "q < length (heap m) \<Longrightarrow> heap (write_ptr p f m) ! q = (if p = q then f (heap m ! q) else heap m ! q)"
  by (simp add: write_ptr_def nth_list_update)

lemma length_write_ptr [simp]: "length (heap (write_ptr p f m)) = length (heap m)"
  by (simp add: write_ptr_def)

text \<open>
  The lifecycle: no operation sets \<open>StateClosing\<close>, entries point at their own session, and
  every session has the idle timeout of its registry.
\<close>

definition mgr_inv :: "manager \<Rightarrow> bool" where
  "mgr_inv m \<longleftrightarrow> mgr_ok m \<and> mgr_indexed m
     \<and> (\<forall>s\<in>set (heap m). State s \<noteq> StateClosing \<and> Timeout s = defaultTimeout m)"

lemma mgr_indexed_insert:
  "mgr_ok m \<Longrightarrow> mgr_indexed m \<Longrightarrow> ID s = i \<Longrightarrow> mgr_indexed (mgr_insert i s m)"
  using set_gm_put_sub [of i "length (heap m)" "sessions m"]
  by (fastforce simp: mgr_indexed_def mgr_insert_def nth_append mgr_ok_def)

lemma mgr_indexed_write_ptr:
  "mgr_ok m \<Longrightarrow> mgr_indexed m \<Longrightarrow> (\<And>s. ID (f s) = ID s) \<Longrightarrow> mgr_indexed (write_ptr p f m)"
  unfolding mgr_indexed_def
proof
  fix e
  assume m: "mgr_ok m" "\<forall>e\<in>set (sessions m). ID (heap m ! snd e) = fst e"
    and f: "\<And>s. ID (f s) = ID s" and e: "e \<in> set (sessions (write_ptr p f m))"
  then have "e \<in> set (sessions m)" "snd e < length (heap m)"
    by (auto simp: write_ptr_def mgr_ok_def)
  with m f show "ID (heap (write_ptr p f m) ! snd e) = fst e" by (simp add: write_ptr_nth)
qed

lemma mgr_inv_write_ptr:
  assumes "mgr_inv m" "\<And>s. ID (f s) = ID s" "\<And>s. Timeout (f s) = Timeout s"
    "\<And>s. State s \<noteq> StateClosing \<Longrightarrow> State (f s) \<noteq> StateClosing"
  shows "mgr_inv (write_ptr p f m)"
proof -
  have "defaultTimeout (write_ptr p f m) = defaultTimeout m" by (simp add: write_ptr_def)
  moreover have "\<forall>s\<in>set (heap (write_ptr p f m)). State s \<noteq> StateClosing \<and> Timeout s = defaultTimeout m"
    using assms by (intro write_ptr_all) (auto simp: mgr_inv_def)
  ultimately show ?thesis
    using assms by (simp add: mgr_inv_def mgr_ok_write_ptr mgr_indexed_write_ptr)
qed

lemma mgr_inv_create: "mgr_inv m \<Longrightarrow> mgr_inv (snd (mgr_create i peer now m))"
  by (auto simp: mgr_inv_def mgr_create_def mgr_ok_insert mgr_indexed_insert fresh_session_def)
    (auto simp: mgr_insert_def)

lemma mgr_inv_step: "mgr_inv m \<Longrightarrow> mgr_inv (session_step x m)"
proof (cases x)
  case (OpCreate i peer now)
  assume "mgr_inv m"
  with OpCreate show ?thesis by (simp add: mgr_inv_create)
next
  case (OpClose i)
  assume "mgr_inv m"
  with OpClose show ?thesis by (auto simp: mgr_close_def intro: mgr_inv_write_ptr split: option.split)
next
  case (OpDelete i)
  assume "mgr_inv m"
  with OpDelete show ?thesis
    by (auto simp: mgr_inv_def mgr_ok_delete) (auto simp: mgr_indexed_def mgr_delete_def gm_del_def)
next
  case (OpGC ord clock)
  assume m: "mgr_inv m"
  with OpGC sessions_gc_sub [of ord clock m] show ?thesis
    by (auto simp: mgr_inv_def mgr_ok_gc_any mgr_indexed_def)
qed (simp_all add: mgr_inv_write_ptr session_ops)

lemma run_defaultTimeout: "defaultTimeout (fold session_step ops m) = defaultTimeout m"
proof (induction ops arbitrary: m)
  case (Cons x ops)
  have "defaultTimeout (session_step x m) = defaultTimeout m"
    by (cases x) (simp_all add: mgr_create_def mgr_insert_def mgr_close_def write_ptr_def
        mgr_delete_def split: option.split)
  with Cons show ?case by simp
qed simp

interpretation session_machine: invariant_machine session_step mgr_inv
  by unfold_locales (rule mgr_inv_step)

definition closed_at :: "session_ptr \<Rightarrow> manager \<Rightarrow> bool" where
  "closed_at p m \<longleftrightarrow> p < length (heap m) \<and> State (heap m ! p) = StateClosed"

lemma closed_at_write_ptr:
  "closed_at p m \<Longrightarrow> (\<And>s. State s = StateClosed \<Longrightarrow> State (f s) = StateClosed)
   \<Longrightarrow> closed_at p (write_ptr q f m)"
  by (simp add: closed_at_def write_ptr_nth)

lemma closed_at_step: "closed_at p m \<Longrightarrow> closed_at p (session_step x m)"
proof (cases x)
  case (OpCreate i peer now)
  assume "closed_at p m"
  with OpCreate show ?thesis
    by (simp add: closed_at_def mgr_create_def mgr_insert_def nth_append)
next
  case (OpClose i)
  assume "closed_at p m"
  with OpClose show ?thesis
    by (auto simp: mgr_close_def intro: closed_at_write_ptr split: option.split)
next
  case (OpDelete i)
  assume "closed_at p m"
  with OpDelete show ?thesis by (simp add: closed_at_def mgr_delete_def)
next
  case (OpGC ord clock)
  assume "closed_at p m"
  with OpGC show ?thesis by (simp add: closed_at_def)
qed (simp_all add: closed_at_write_ptr session_ops)

interpretation closed_machine: invariant_machine session_step "closed_at p" for p
  by unfold_locales (rule closed_at_step)

section \<open>Properties\<close>

text \<open>
  C21: garbage collection drops exactly the sessions that have an idle timeout and have been idle for
  longer, whatever their state, and returns how many they were; a session without a timeout, one
  that is zero or negative, is never dropped, and what is kept is kept as it was, whatever order the
  map is visited in.
\<close>

theorem mgr_gc_exact:
  assumes "visits ord" "mgr_ok m" "mgr_gc ord clock m = (removed, m')"
  shows "mgr_find m' i = (case mgr_find m i of None \<Rightarrow> None
           | Some s \<Rightarrow> if 0 < Timeout s \<and> Timeout s < sat64 (clock i - LastActive (Stats s)) then None else Some s)
    \<and> removed + mgr_count m' = mgr_count m"
proof -
  let ?dead = "\<lambda>e. is_expired (clock (fst e)) (heap m ! snd e)"
  from assms(3) have m': "m' = m\<lparr>sessions := filter (\<lambda>e. \<not> ?dead e) (sessions m)\<rparr>"
    and r: "removed = length (filter ?dead (sessions m))"
    by (simp_all add: mgr_gc_eq [OF assms(1,2)] case_prod_unfold)
  have "removed + mgr_count m' = mgr_count m"
    using sum_length_filter_compl [of ?dead "sessions m"] by (simp add: m' r mgr_count_def gm_len_def)
  moreover have "gm_get (filter (\<lambda>e. \<not> ?dead e) (sessions m)) i =
      (case gm_get (sessions m) i of None \<Rightarrow> None | Some p \<Rightarrow> if ?dead (i, p) then None else Some p)"
    using gm_get_filter [OF mgr_ok_map [OF assms(2)], of "\<lambda>e. \<not> ?dead e" i]
    by (simp split: option.split)
  moreover have "is_expired now s \<longleftrightarrow> 0 < Timeout s \<and> Timeout s < sat64 (now - LastActive (Stats s))" for now s
    by (simp add: is_expired_def since_def not_le)
  ultimately show ?thesis
    by (simp add: m' mgr_find_def mgr_get_def split: option.split)
qed

definition sample_manager :: manager where
  "sample_manager = snd (mgr_create [2] ''b'' 500 (snd (mgr_create [1] ''a'' 0 (new_manager 1000))))"

theorem mgr_gc_exact_witness:
  "mgr_find (snd (mgr_gc rev (\<lambda>i. 1200) sample_manager)) [1] = None
   \<and> mgr_find (snd (mgr_gc rev (\<lambda>i. 1200) sample_manager)) [2]
       = Some (fresh_session [2] ''b'' 500 1000)
   \<and> fst (mgr_gc rev (\<lambda>i. 1200) sample_manager) = 1"
proof -
  have ok: "mgr_ok sample_manager"
    by (simp add: sample_manager_def mgr_create_def mgr_ok_insert mgr_ok_new)
  obtain r m' where g: "mgr_gc rev (\<lambda>i. 1200) sample_manager = (r, m')" by fastforce
  have s: "mgr_find sample_manager [1] = Some (fresh_session [1] ''a'' 0 1000)"
    "mgr_find sample_manager [2] = Some (fresh_session [2] ''b'' 500 1000)"
    by (simp_all add: sample_manager_def mgr_create_def mgr_insert_def new_manager_def mgr_find_def
        mgr_get_def gm_get_def)
  have "1000 < sat64 (1200 - LastActive (Stats (fresh_session [1] ''a'' 0 1000)))" "Timeout (fresh_session i p t 1000) = 1000"
    "\<not> 1000 < sat64 (1200 - LastActive (Stats (fresh_session [2] ''b'' 500 1000)))" for i p t
    by (simp_all add: fresh_session_def sat64_def min_i64_def max_i64_def)
  with mgr_gc_exact [OF visits_rev ok g, of "[1]"] mgr_gc_exact [OF visits_rev ok g, of "[2]"] s
  have f: "mgr_find m' [1] = None" "mgr_find m' [2] = Some (fresh_session [2] ''b'' 500 1000)"
    "r + mgr_count m' = mgr_count sample_manager" by simp_all
  have "r = 1"
    using g by (simp add: mgr_gc_def sample_manager_def mgr_create_def mgr_insert_def new_manager_def
        is_expired_def fresh_session_def since_def sat64_def min_i64_def max_i64_def)
  with f g show ?thesis by simp
qed

text \<open>
  C22: over any run of operations from a new registry, every entry points to the session of its
  own identifier with the registry's idle timeout, and no session is ever in the state
  \<open>closing\<close>, although the type declares it.
\<close>

theorem registry_consistent:
  assumes "mgr_find (fold session_step ops (new_manager d)) i = Some s"
  shows "ID s = i \<and> Timeout s = d \<and> State s \<noteq> StateClosing"
proof -
  let ?m = "fold session_step ops (new_manager d)"
  have "mgr_inv (new_manager d)"
    by (simp add: mgr_inv_def mgr_ok_new) (simp add: new_manager_def mgr_indexed_def)
  then have inv: "mgr_inv ?m" by (rule session_machine.run_keeps)
  obtain p where p: "(i, p) \<in> set (sessions ?m)" "s = heap ?m ! p"
    using assms inv by (auto simp: mgr_find_def mgr_get_def mgr_inv_def mgr_ok_def gm_get_mem)
  with inv have "p < length (heap ?m)" "ID s = i"
    by (auto simp: mgr_inv_def mgr_ok_def mgr_indexed_def)
  with inv p show ?thesis by (simp add: mgr_inv_def run_defaultTimeout new_manager_def)
qed

theorem registry_consistent_witness:
  "ID (fresh_session [1] ''a'' 0 1000) = [1] \<and> Timeout (fresh_session [1] ''a'' 0 1000) = 1000"
  using registry_consistent [of "[OpCreate [1] ''a'' 0, OpDelete [2]]" 1000 "[1]" "fresh_session [1] ''a'' 0 1000"]
  by (simp add: mgr_create_def mgr_insert_def new_manager_def mgr_find_def mgr_get_def mgr_delete_def gm_get_def
      gm_del_def)

text \<open>
  Closing is final for the session object: no later operation, through the registry or
  through a pointer, makes a closed session active again.
\<close>

lemma closed_is_final:
  assumes "p < length (heap m)" "State (heap m ! p) = StateClosed"
  shows "State (heap (fold session_step ops m) ! p) = StateClosed"
  using closed_machine.run_keeps [of p m ops] assms by (simp add: closed_at_def)

text \<open>
  Closing a session neither removes it nor changes what the registry counts and lists: a
  closed session is still counted, still listed and still found.
\<close>

lemma close_keeps_counting:
  assumes "mgr_ok m" "mgr_get m i = Some p" "mgr_close i m = (ok, m')"
  shows "ok \<and> mgr_count m' = mgr_count m \<and> mgr_list ord m' = mgr_list ord m
    \<and> (\<exists>s. mgr_find m' i = Some s \<and> State s = StateClosed)"
  using assms mgr_get_lt [OF assms(1,2)]
  by (auto simp: mgr_close_def write_ptr_def mgr_count_def mgr_list_def mgr_find_def mgr_get_def)

lemma close_keeps_counting_witness:
  "mgr_count (snd (mgr_close [1] sample_manager)) = 2"
proof -
  have ok: "mgr_ok sample_manager"
    by (simp add: sample_manager_def mgr_create_def mgr_ok_insert mgr_ok_new)
  have "mgr_get sample_manager [1] = Some 0" "mgr_count sample_manager = 2"
    by (simp_all add: sample_manager_def mgr_create_def mgr_insert_def new_manager_def mgr_get_def
        gm_get_def mgr_count_def gm_len_def)
  with close_keeps_counting [OF ok, of "[1]" 0] show ?thesis
    by (cases "mgr_close [1] sample_manager") simp
qed

end
