(* ===== verification/Relay_Tunnel.thy ===== *)
theory Relay_Tunnel
  imports Relay_Frame
begin

text \<open>
  The QUIC tunnel between two relays (\<open>internal/relay/tunnel.go\<close>).  The QUIC library is not
  part of the repository: a record of functions on a world of type \<open>'w\<close>, passed to every
  operation that calls it, stands for it; the TLS configuration is handed to it untouched and is
  part of that record, while the library's own configuration, nil in both calls, is an argument.  A tunnel is a connection, absent before \<open>Connect\<close>, and the peer's
  address.  Library errors are strings and the wrappers added by the code are constructors.
\<close>

text \<open>
  Of the library's \<open>Config\<close>, the field that decides whether a connection has datagrams: it has none
  unless it is set, and so none with a nil \<open>Config\<close>.
\<close>

record quic_config =
  EnableDatagrams :: bool

record ('l, 'c, 's, 'w) quic =
  quic_listen :: "string \<Rightarrow> quic_config option \<Rightarrow> 'w \<Rightarrow> (string + 'l) \<times> 'w"
  quic_accept :: "'l \<Rightarrow> 'w \<Rightarrow> (string + 'c) \<times> 'w"
  quic_close_listener :: "'l \<Rightarrow> 'w \<Rightarrow> 'w"
  quic_dial :: "string \<Rightarrow> quic_config option \<Rightarrow> 'w \<Rightarrow> (string + 'c) \<times> 'w"
  quic_remote_addr :: "'c \<Rightarrow> string"
  quic_send :: "'c \<Rightarrow> byte list \<Rightarrow> 'w \<Rightarrow> string option \<times> 'w"
  quic_receive :: "'c \<Rightarrow> 'w \<Rightarrow> (string + byte list) \<times> 'w"
  quic_open_stream :: "'c \<Rightarrow> 'w \<Rightarrow> (string + 's) \<times> 'w"
  quic_accept_stream :: "'c \<Rightarrow> 'w \<Rightarrow> (string + 's) \<times> 'w"
  quic_close :: "'c \<Rightarrow> 'w \<Rightarrow> string option \<times> 'w"

datatype tunnel_error =
    QuicListen string string
  | QuicAccept string
  | QuicDial string string
  | NotConnected
  | QuicError string

record 'c tunnel =
  conn :: "'c option"
  peer :: string

record tunnel_config =
  ListenAddr :: string
  TunnelPeerAddr :: string
  IsServer :: bool

definition new_tunnel :: "'c tunnel" where
  "new_tunnel = \<lparr>conn = None, peer = []\<rparr>"

definition tunnel_listen ::
  "('l, 'c, 's, 'w) quic \<Rightarrow> tunnel_config \<Rightarrow> 'c tunnel \<Rightarrow> 'w \<Rightarrow> tunnel_error option \<times> 'c tunnel \<times> 'w"
where
  "tunnel_listen q cfg t w =
     (case quic_listen q (ListenAddr cfg) None w of
        (Inl e, w) \<Rightarrow> (Some (QuicListen (ListenAddr cfg) e), t, w)
      | (Inr listener, w) \<Rightarrow>
          (case quic_accept q listener w of
             (Inl e, w) \<Rightarrow> (Some (QuicAccept e), t, quic_close_listener q listener w)
           | (Inr c, w) \<Rightarrow>
               (None, t\<lparr>conn := Some c, peer := quic_remote_addr q c\<rparr>, quic_close_listener q listener w)))"

definition tunnel_dial ::
  "('l, 'c, 's, 'w) quic \<Rightarrow> tunnel_config \<Rightarrow> 'c tunnel \<Rightarrow> 'w \<Rightarrow> tunnel_error option \<times> 'c tunnel \<times> 'w"
where
  "tunnel_dial q cfg t w =
     (case quic_dial q (TunnelPeerAddr cfg) None w of
        (Inl e, w) \<Rightarrow> (Some (QuicDial (TunnelPeerAddr cfg) e), t, w)
      | (Inr c, w) \<Rightarrow> (None, t\<lparr>conn := Some c, peer := TunnelPeerAddr cfg\<rparr>, w))"

definition tunnel_connect ::
  "('l, 'c, 's, 'w) quic \<Rightarrow> tunnel_config \<Rightarrow> 'c tunnel \<Rightarrow> 'w \<Rightarrow> tunnel_error option \<times> 'c tunnel \<times> 'w"
where
  "tunnel_connect q cfg t w =
     (if IsServer cfg then tunnel_listen q cfg t w else tunnel_dial q cfg t w)"

definition send_datagram ::
  "('l, 'c, 's, 'w) quic \<Rightarrow> 'c tunnel \<Rightarrow> byte list \<Rightarrow> 'w \<Rightarrow> tunnel_error option \<times> 'w" where
  "send_datagram q t data w =
     (case conn t of
        None \<Rightarrow> (Some NotConnected, w)
      | Some c \<Rightarrow> (case quic_send q c data w of (e, w) \<Rightarrow> (map_option QuicError e, w)))"

definition receive_datagram ::
  "('l, 'c, 's, 'w) quic \<Rightarrow> 'c tunnel \<Rightarrow> 'w \<Rightarrow> (tunnel_error + byte list) \<times> 'w" where
  "receive_datagram q t w =
     (case conn t of
        None \<Rightarrow> (Inl NotConnected, w)
      | Some c \<Rightarrow> (case quic_receive q c w of (r, w) \<Rightarrow> (map_sum QuicError id r, w)))"

definition open_stream ::
  "('l, 'c, 's, 'w) quic \<Rightarrow> 'c tunnel \<Rightarrow> 'w \<Rightarrow> (tunnel_error + 's) \<times> 'w" where
  "open_stream q t w =
     (case conn t of
        None \<Rightarrow> (Inl NotConnected, w)
      | Some c \<Rightarrow> (case quic_open_stream q c w of (r, w) \<Rightarrow> (map_sum QuicError id r, w)))"

definition accept_stream ::
  "('l, 'c, 's, 'w) quic \<Rightarrow> 'c tunnel \<Rightarrow> 'w \<Rightarrow> (tunnel_error + 's) \<times> 'w" where
  "accept_stream q t w =
     (case conn t of
        None \<Rightarrow> (Inl NotConnected, w)
      | Some c \<Rightarrow> (case quic_accept_stream q c w of (r, w) \<Rightarrow> (map_sum QuicError id r, w)))"

text \<open>\<open>Close\<close> closes the connection and keeps the reference to it.\<close>

definition tunnel_close ::
  "('l, 'c, 's, 'w) quic \<Rightarrow> 'c tunnel \<Rightarrow> 'w \<Rightarrow> tunnel_error option \<times> 'c tunnel \<times> 'w" where
  "tunnel_close q t w =
     (case conn t of
        None \<Rightarrow> (None, t, w)
      | Some c \<Rightarrow> (case quic_close q c w of (e, w) \<Rightarrow> (map_option QuicError e, t, w)))"

definition is_connected :: "'c tunnel \<Rightarrow> bool" where
  "is_connected t \<longleftrightarrow> conn t \<noteq> None"

lemmas tunnel_ops = send_datagram_def receive_datagram_def open_stream_def accept_stream_def

section \<open>Properties\<close>

text \<open>
  \<open>Connect\<close> connects a fresh tunnel exactly when it reports no error, a failed attempt
  leaves the tunnel as it was, and a client tunnel's peer is the address it dialled.
\<close>

lemma tunnel_connect_outcome:
  "case tunnel_connect q cfg new_tunnel w of (err, t, w') \<Rightarrow>
     (err = None) = is_connected t
     \<and> (if err = None then IsServer cfg \<or> peer t = TunnelPeerAddr cfg else t = new_tunnel)"
  by (auto simp: tunnel_connect_def tunnel_listen_def tunnel_dial_def is_connected_def new_tunnel_def
      split: prod.splits sum.splits)

text \<open>
  Both ends are connected with a nil \<open>Config\<close>. With a library on whose connections datagrams are off
  unless the \<open>Config\<close> turns them on, a tunnel that has just been connected receives no datagram.
\<close>

definition datagrams_optional :: "('l, 'c, 's, 'w) quic \<Rightarrow> bool" where
  "datagrams_optional q \<longleftrightarrow>
     (\<forall>cfg. (case cfg of None \<Rightarrow> True | Some c \<Rightarrow> \<not> EnableDatagrams c) \<longrightarrow>
        (\<forall>a w c w'. quic_dial q a cfg w = (Inr c, w') \<longrightarrow> (\<forall>v. \<exists>e. fst (quic_receive q c v) = Inl e))
        \<and> (\<forall>a w l w' v c v'. quic_listen q a cfg w = (Inr l, w') \<longrightarrow> quic_accept q l v = (Inr c, v') \<longrightarrow>
             (\<forall>v. \<exists>e. fst (quic_receive q c v) = Inl e)))"

lemma connected_receives_nothing:
  assumes "datagrams_optional q" "tunnel_connect q cfg t w = (None, t', w')"
  shows "\<exists>e. fst (receive_datagram q t' v) = Inl (QuicError e)"
proof -
  from assms(1) have off: "quic_dial q a None u = (Inr c, u') \<Longrightarrow> \<exists>e. fst (quic_receive q c v) = Inl e"
    "quic_listen q a None u = (Inr l, u') \<Longrightarrow> quic_accept q l u2 = (Inr c, u3) \<Longrightarrow> \<exists>e. fst (quic_receive q c v) = Inl e"
    for a u u' c l u2 u3
    unfolding datagrams_optional_def by (force dest: spec [of _ None])+
  have "\<exists>c. conn t' = Some c \<and> (\<exists>e. fst (quic_receive q c v) = Inl e)"
  proof (cases "IsServer cfg")
    case True
    with assms(2) obtain l u c u3 where "quic_listen q (ListenAddr cfg) None w = (Inr l, u)" "quic_accept q l u = (Inr c, u3)"
      "conn t' = Some c"
      by (auto simp: tunnel_connect_def tunnel_listen_def split: prod.splits sum.splits)
    with off(2) show ?thesis by blast
  next
    case False
    with assms(2) obtain c where "quic_dial q (TunnelPeerAddr cfg) None w = (Inr c, w')" "conn t' = Some c"
      by (auto simp: tunnel_connect_def tunnel_dial_def split: prod.splits sum.splits)
    with off(1) show ?thesis by blast
  qed
  then show ?thesis by (auto simp: receive_datagram_def split: prod.splits)
qed

text \<open>
  \<open>IsConnected\<close> does not notice \<open>Close\<close>: a connected tunnel still calls itself connected
  after it was closed, and hands later datagrams to the closed connection.
\<close>

lemma close_stays_connected:
  assumes "conn t = Some c" "tunnel_close q t w = (err, t', w')"
  shows "is_connected t' \<and> send_datagram q t' data w' =
    (case quic_send q c data w' of (e, w'') \<Rightarrow> (map_option QuicError e, w''))"
  using assms by (auto simp: tunnel_close_def is_connected_def send_datagram_def split: prod.splits)

text \<open>A library that accepts every call, over a world that records the datagrams sent.\<close>

definition sample_quic :: "(unit, unit, unit, byte list list) quic" where
  "sample_quic = \<lparr>quic_listen = (\<lambda>a c w. (Inr (), w)), quic_accept = (\<lambda>l w. (Inr (), w)),
     quic_close_listener = (\<lambda>l w. w), quic_dial = (\<lambda>a c w. (Inr (), w)),
     quic_remote_addr = (\<lambda>c. ''peer''), quic_send = (\<lambda>c d w. (None, w @ [d])),
     quic_receive = (\<lambda>c w. case w of [] \<Rightarrow> (Inl ''timeout'', []) | d # ds \<Rightarrow> (Inr d, ds)),
     quic_open_stream = (\<lambda>c w. (Inr (), w)), quic_accept_stream = (\<lambda>c w. (Inr (), w)),
     quic_close = (\<lambda>c w. (None, w))\<rparr>"

lemma close_stays_connected_witness:
  "send_datagram sample_quic (fst (snd (tunnel_close sample_quic \<lparr>conn = Some (), peer = ''p''\<rparr> [])))
     [1] [] = (None, [[1]])"
  using close_stays_connected [of "\<lparr>conn = Some (), peer = ''p''\<rparr>" "()" sample_quic "[]" None
      "\<lparr>conn = Some (), peer = ''p''\<rparr>" "[]" "[1]"]
  by (simp add: tunnel_close_def sample_quic_def)

end
