(* ===== verification/Relay_Proxy.thy ===== *)
theory Relay_Proxy
  imports Relay_Session Relay_Tunnel Go_Float Go_Crypto
begin

text \<open>
  The relay proxy (\<open>internal/relay/proxy.go\<close>): it frames packets of the local TURN allocation
  into datagrams of the tunnel, takes datagrams from the tunnel, and keeps sessions, totals and
  the last hundred round-trip samples.  \<open>forward_packet\<close> and \<open>handle_datagram\<close> are the two
  methods; each clock reading is an argument.  The main loop of \<open>Run\<close>, with the forwarding
  goroutines interleaved, is a labelled step relation.
\<close>

section \<open>State and operations\<close>

record 'c proxy =
  proxy_tunnel :: "'c tunnel"
  proxy_sessions :: manager
  bytesIn :: u64
  bytesOut :: u64
  packetsDropped :: u64
  rttSamples :: "duration list"

record proxy_config =
  SessionTimeout :: duration
  GCTickInterval :: duration

definition DefaultProxyConfig :: proxy_config where
  "DefaultProxyConfig = \<lparr>SessionTimeout = 5 * minute, GCTickInterval = 30 * second\<rparr>"

definition new_proxy :: "'c tunnel \<Rightarrow> proxy_config \<Rightarrow> 'c proxy" where
  "new_proxy t cfg =
     \<lparr>proxy_tunnel = t, proxy_sessions = new_manager (SessionTimeout cfg),
      bytesIn = 0, bytesOut = 0, packetsDropped = 0, rttSamples = []\<rparr>"

text \<open>\<open>NewSessionID\<close>: sixteen random bytes, or the error of the random source.\<close>

definition new_session_id :: "'w rand_source \<Rightarrow> 'w \<Rightarrow> (string + frame_id) \<times> 'w" where
  "new_session_id rnd w = rnd 16 w"

lemma new_session_id_ok: "rand_fills rnd \<Longrightarrow> new_session_id rnd w = (Inr i, w') \<Longrightarrow> frame_id_ok i"
  by (auto simp: new_session_id_def frame_id_ok_def dest: rand_fillsD)

datatype proxy_error =
    EncodeFrame frame_error
  | SendDatagram tunnel_error
  | DecodeFrame frame_error

definition forward_packet ::
  "('l, 'c, 's, 'w) quic \<Rightarrow> frame_id \<Rightarrow> u16 \<Rightarrow> byte \<Rightarrow> byte list \<Rightarrow> gotime \<Rightarrow> gotime
   \<Rightarrow> 'c proxy \<Rightarrow> 'w \<Rightarrow> proxy_error option \<times> 'c proxy \<times> 'w"
where
  "forward_packet q sessionID flowID dir payload now now_touch p w =
     (case encode \<lparr>SessionID = sessionID, FlowID = flowID, Direction = dir, Timestamp = now,
                   Payload = payload\<rparr> of
        Inl e \<Rightarrow> (Some (EncodeFrame e), p, w)
      | Inr data \<Rightarrow>
          (case send_datagram q (proxy_tunnel p) data w of
             (Some e, w) \<Rightarrow> (Some (SendDatagram e), p, w)
           | (None, w) \<Rightarrow>
               let p = p\<lparr>bytesOut := bytesOut p + word_of_nat (length data)\<rparr>
               in (None,
                   (case mgr_get (proxy_sessions p) sessionID of
                      None \<Rightarrow> p
                    | Some s \<Rightarrow> p\<lparr>proxy_sessions :=
                        write_ptr s (record_packet_out (int (length payload)) now_touch) (proxy_sessions p)\<rparr>),
                   w)))"

definition max_rtt_samples :: nat where
  "max_rtt_samples = 100"

definition add_rtt :: "duration \<Rightarrow> duration list \<Rightarrow> duration list" where
  "add_rtt rtt samples =
     (let samples = samples @ [rtt]
      in if max_rtt_samples < length samples then tl samples else samples)"

text \<open>The three clock readings: creating a session, touching it, measuring the round trip.\<close>

definition handle_datagram ::
  "byte list \<Rightarrow> gotime \<Rightarrow> gotime \<Rightarrow> gotime \<Rightarrow> 'c proxy \<Rightarrow> proxy_error option \<times> 'c proxy"
where
  "handle_datagram data now_create now_touch now_rtt p =
     (case decode_frame data of
        Inl e \<Rightarrow> (Some (DecodeFrame e), p)
      | Inr f \<Rightarrow>
          let p = p\<lparr>bytesIn := bytesIn p + word_of_nat (length data)\<rparr>;
              (s, m) = (case mgr_get (proxy_sessions p) (SessionID f) of
                          Some s \<Rightarrow> (s, proxy_sessions p)
                        | None \<Rightarrow> mgr_create (SessionID f) (peer (proxy_tunnel p)) now_create (proxy_sessions p));
              p = p\<lparr>proxy_sessions := write_ptr s (record_packet_in (int (length (Payload f))) now_touch) m\<rparr>;
              rtt = since now_rtt (Timestamp f)
          in (None, p\<lparr>rttSamples := add_rtt rtt (rttSamples p)\<rparr>))"

record proxy_stats =
  StatBytesIn :: u64
  StatBytesOut :: u64
  StatPacketsDropped :: u64
  SessionsActive :: int
  AvgRTTMs :: float64

definition get_stats :: "'c proxy \<Rightarrow> proxy_stats" where
  "get_stats p =
     \<lparr>StatBytesIn = bytesIn p, StatBytesOut = bytesOut p, StatPacketsDropped = packetsDropped p,
      SessionsActive = int (mgr_count (proxy_sessions p)),
      AvgRTTMs =
        (if rttSamples p \<noteq> []
         then f64_div (f64_of_int (milliseconds (foldl dur_add 0 (rttSamples p))))
                      (f64_of_int (int (length (rttSamples p))))
         else 0)\<rparr>"

section \<open>The main loop\<close>

text \<open>
  One step of the system around a running proxy: an iteration of \<open>Run\<close> (a collection tick, a
  receive that fails or times out, a datagram handled or dropped), a \<open>ForwardPacket\<close> by another
  goroutine, or the network moving by itself.  The label records what happened.
\<close>

datatype loop_label =
    Tick
  | ReceiveFailed
  | Handled "byte list"
  | Dropped "byte list"
  | Forwarded frame_id "byte list" "proxy_error option"
  | Network

inductive proxy_step ::
  "('l, 'c, 's, 'w) quic \<Rightarrow> loop_label \<Rightarrow> 'c proxy \<times> 'w \<Rightarrow> 'c proxy \<times> 'w \<Rightarrow> bool" for q
where
  gc_tick: "visits ord \<Longrightarrow>
     proxy_step q Tick (p, w) (p\<lparr>proxy_sessions := snd (mgr_gc ord clock (proxy_sessions p))\<rparr>, w)"
| receive_failed: "receive_datagram q (proxy_tunnel p) w = (Inl e, w') \<Longrightarrow>
     proxy_step q ReceiveFailed (p, w) (p, w')"
| handled: "receive_datagram q (proxy_tunnel p) w = (Inr data, w') \<Longrightarrow>
     handle_datagram data t1 t2 t3 p = (None, p') \<Longrightarrow>
     proxy_step q (Handled data) (p, w) (p', w')"
| dropped: "receive_datagram q (proxy_tunnel p) w = (Inr data, w') \<Longrightarrow>
     handle_datagram data t1 t2 t3 p = (Some e, p') \<Longrightarrow>
     proxy_step q (Dropped data) (p, w) (p'\<lparr>packetsDropped := packetsDropped p' + 1\<rparr>, w')"
| forwarded: "forward_packet q i flow dir payload t1 t2 p w = (r, p', w') \<Longrightarrow>
     proxy_step q (Forwarded i payload r) (p, w) (p', w')"
| network: "proxy_step q Network (p, w) (p, w')"

inductive proxy_trace ::
  "('l, 'c, 's, 'w) quic \<Rightarrow> loop_label list \<Rightarrow> 'c proxy \<times> 'w \<Rightarrow> 'c proxy \<times> 'w \<Rightarrow> bool" for q
where
  trace_done: "proxy_trace q [] s s"
| trace_step: "proxy_step q l s t \<Longrightarrow> proxy_trace q ls t u \<Longrightarrow> proxy_trace q (l # ls) s u"

inductive_cases proxy_stepE: "proxy_step q l s t"
inductive_simps proxy_trace_Nil: "proxy_trace q [] s t"
inductive_simps proxy_trace_Cons: "proxy_trace q (l # ls) s u"

interpretation proxy_machine: labelled_machine "proxy_step q" "proxy_trace q" for q
  by unfold_locales (auto simp: proxy_trace_Nil proxy_trace_Cons)

text \<open>When the context is done, \<open>Run\<close> closes the tunnel and returns what that returned.\<close>

definition proxy_shutdown ::
  "('l, 'c, 's, 'w) quic \<Rightarrow> 'c proxy \<Rightarrow> 'w \<Rightarrow> tunnel_error option \<times> 'c proxy \<times> 'w" where
  "proxy_shutdown q p w =
     (case tunnel_close q (proxy_tunnel p) w of (e, t, w) \<Rightarrow> (e, p\<lparr>proxy_tunnel := t\<rparr>, w))"

section \<open>The round-trip window\<close>

lemma add_rtt_window:
  "add_rtt r (drop (length h - max_rtt_samples) h) = drop (length (h @ [r]) - max_rtt_samples) (h @ [r])"
proof (cases "length h < max_rtt_samples")
  case True
  then show ?thesis by (simp add: add_rtt_def)
next
  case False
  then have "drop (length h - max_rtt_samples) h \<noteq> []" by (simp add: max_rtt_samples_def)
  then have "tl (drop (length h - max_rtt_samples) h @ [r]) = drop (Suc (length h - max_rtt_samples)) h @ [r]"
    by (metis tl_append2 drop_Suc tl_drop)
  moreover have "Suc (length h - max_rtt_samples) = length (h @ [r]) - max_rtt_samples"
    using False by (simp add: Suc_diff_le)
  ultimately show ?thesis using False by (simp add: add_rtt_def Let_def) (simp add: max_rtt_samples_def)
qed

lemma last_add_rtt: "last (add_rtt r xs) = r"
  by (cases xs) (simp_all add: add_rtt_def Let_def max_rtt_samples_def)

lemma length_add_rtt: "length xs \<le> max_rtt_samples \<Longrightarrow> length (add_rtt r xs) \<le> max_rtt_samples"
  by (auto simp: add_rtt_def Let_def)

section \<open>What a datagram does\<close>

lemma handle_datagram_None_iff:
  "fst (handle_datagram data t1 t2 t3 p) = None \<longleftrightarrow> (\<exists>f. decode_frame data = Inr f)"
  by (auto simp: handle_datagram_def Let_def split: sum.split prod.split)

lemma handle_datagram_Inr:
  assumes "decode_frame data = Inr f"
  shows "handle_datagram data t1 t2 t3 p =
    (None, p\<lparr>bytesIn := bytesIn p + word_of_nat (length data),
       proxy_sessions :=
         write_ptr (case mgr_get (proxy_sessions p) (SessionID f) of
             Some s \<Rightarrow> s | None \<Rightarrow> length (heap (proxy_sessions p)))
           (record_packet_in (int (length (Payload f))) t2)
           (case mgr_get (proxy_sessions p) (SessionID f) of
             Some s \<Rightarrow> proxy_sessions p
           | None \<Rightarrow> snd (mgr_create (SessionID f) (peer (proxy_tunnel p)) t1 (proxy_sessions p))),
       rttSamples := add_rtt (since t3 (Timestamp f)) (rttSamples p)\<rparr>)"
  by (simp add: handle_datagram_def assms Let_def mgr_create_def split: option.split)

lemma mgr_find_write_ptr:
  assumes "mgr_ok m" "mgr_indexed m" "mgr_get m i = Some s"
  shows "mgr_find (write_ptr s f m) j = (if j = i then map_option f (mgr_find m i) else mgr_find m j)"
proof (cases "mgr_get m j")
  case None
  then show ?thesis using assms by (auto simp: mgr_find_def write_ptr_def mgr_get_def)
next
  case (Some p)
  have "p = s \<longrightarrow> j = i"
    using mgr_get_ID [OF assms(1,2) Some] mgr_get_ID [OF assms] by auto
  then show ?thesis
    using assms Some mgr_get_lt [OF assms(1) Some] mgr_get_lt [OF assms(1,3)]
    by (auto simp: mgr_find_def mgr_get_def write_ptr_def nth_list_update)
qed

text \<open>The session a handled datagram is booked on, before the packet is counted.\<close>

definition session_before :: "'c proxy \<Rightarrow> frame_id \<Rightarrow> gotime \<Rightarrow> session" where
  "session_before p i now =
     (case mgr_find (proxy_sessions p) i of
        Some s \<Rightarrow> s
      | None \<Rightarrow> fresh_session i (peer (proxy_tunnel p)) now (defaultTimeout (proxy_sessions p)))"

lemma handle_datagram_books:
  assumes "mgr_inv (proxy_sessions p)" "decode_frame data = Inr f"
    and "handle_datagram data t1 t2 t3 p = (r, p')"
  shows "mgr_find (proxy_sessions p') j =
    (if j = SessionID f
     then Some (record_packet_in (int (length (Payload f))) t2 (session_before p j t1))
     else mgr_find (proxy_sessions p) j)"
proof (cases "mgr_get (proxy_sessions p) (SessionID f)")
  case None
  let ?m = "snd (mgr_create (SessionID f) (peer (proxy_tunnel p)) t1 (proxy_sessions p))"
  have ok: "mgr_ok (proxy_sessions p)" using assms(1) by (simp add: mgr_inv_def)
  have m: "mgr_ok ?m" "mgr_indexed ?m"
    using mgr_inv_create [OF assms(1)] by (simp_all add: mgr_inv_def)
  have g: "mgr_get ?m (SessionID f) = Some (length (heap (proxy_sessions p)))"
    by (simp add: mgr_create_def mgr_get_insert)
  show ?thesis
    using assms(3) handle_datagram_Inr [OF assms(2), of t1 t2 t3 p] None mgr_find_write_ptr [OF m g]
      mgr_find_insert [OF ok]
    by (auto simp: mgr_create_def session_before_def mgr_find_def [of "proxy_sessions p" "SessionID f"])
next
  case (Some s)
  have m: "mgr_ok (proxy_sessions p)" "mgr_indexed (proxy_sessions p)"
    using assms(1) by (simp_all add: mgr_inv_def)
  have "session_before p (SessionID f) t1 = heap (proxy_sessions p) ! s"
    "mgr_find (proxy_sessions p) (SessionID f) = Some (heap (proxy_sessions p) ! s)"
    using Some by (simp_all add: session_before_def mgr_find_def)
  then show ?thesis
    using assms(3) handle_datagram_Inr [OF assms(2), of t1 t2 t3 p] Some mgr_find_write_ptr [OF m Some]
    by auto
qed

lemma mgr_inv_record: "mgr_inv m \<Longrightarrow> mgr_inv (write_ptr s (record_packet_in n t) m)"
    "mgr_inv m \<Longrightarrow> mgr_inv (write_ptr s (record_packet_out n t) m)"
  using mgr_inv_step [of m "OpIn s n t"] mgr_inv_step [of m "OpOut s n t"] by simp_all

lemma handle_datagram_inv:
  assumes "mgr_inv (proxy_sessions p)" "handle_datagram data t1 t2 t3 p = (r, p')"
  shows "mgr_inv (proxy_sessions p')"
proof (cases "decode_frame data")
  case (Inl e)
  with assms show ?thesis by (simp add: handle_datagram_def)
next
  case (Inr f)
  from assms(2) handle_datagram_Inr [OF Inr, of t1 t2 t3 p] assms(1)
  show ?thesis by (auto simp: mgr_inv_record mgr_inv_create split: option.split)
qed

lemma forward_packet_sessions:
  "forward_packet q i flow dir payload t1 t2 p w = (r, p', w') \<Longrightarrow> mgr_inv (proxy_sessions p)
   \<Longrightarrow> mgr_inv (proxy_sessions p')"
  by (auto simp: forward_packet_def Let_def mgr_inv_record split: sum.splits prod.splits option.splits)

section \<open>Traces\<close>

text \<open>The totals a trace adds, read off its labels.\<close>

fun label_bytes_in :: "loop_label \<Rightarrow> nat" where
  "label_bytes_in (Handled data) = length data"
| "label_bytes_in l = 0"

fun label_bytes_out :: "loop_label \<Rightarrow> nat" where
  "label_bytes_out (Forwarded i payload None) = FrameHeaderSize + length payload"
| "label_bytes_out l = 0"

fun label_drops :: "loop_label \<Rightarrow> nat" where
  "label_drops (Dropped data) = 1"
| "label_drops l = 0"

fun label_samples :: "loop_label \<Rightarrow> nat" where
  "label_samples (Handled data) = 1"
| "label_samples l = 0"

definition well_labelled :: "loop_label \<Rightarrow> bool" where
  "well_labelled l = (case l of
       Handled data \<Rightarrow> (\<exists>f. decode_frame data = Inr f)
     | Dropped data \<Rightarrow> (\<exists>e. decode_frame data = Inl e)
     | _ \<Rightarrow> True)"

lemma forward_packet_frame:
  assumes "forward_packet q i flow dir payload t1 t2 p w = (r, p', w')"
  shows "proxy_tunnel p' = proxy_tunnel p \<and> bytesIn p' = bytesIn p
    \<and> packetsDropped p' = packetsDropped p \<and> rttSamples p' = rttSamples p"
  using assms
  by (auto simp: forward_packet_def Let_def split: sum.splits prod.splits option.splits)

lemma forward_packet_bytes:
  assumes "forward_packet q i flow dir payload t1 t2 p w = (r, p', w')" "frame_id_ok i"
  shows "bytesOut p' = bytesOut p + word_of_nat (label_bytes_out (Forwarded i payload r))"
  using assms
  by (auto simp: forward_packet_def Let_def encode_def length_frame_bytes
      split: sum.splits prod.splits option.splits if_splits)

lemma handle_datagram_frame:
  assumes "handle_datagram data t1 t2 t3 p = (r, p')"
  shows "proxy_tunnel p' = proxy_tunnel p \<and> bytesOut p' = bytesOut p
    \<and> packetsDropped p' = packetsDropped p
    \<and> (case decode_frame data of
         Inl e \<Rightarrow> r = Some (DecodeFrame e) \<and> p' = p
       | Inr f \<Rightarrow> r = None \<and> bytesIn p' = bytesIn p + word_of_nat (length data)
           \<and> rttSamples p' = add_rtt (since t3 (Timestamp f)) (rttSamples p))"
proof (cases "decode_frame data")
  case (Inl e)
  with assms show ?thesis by (simp add: handle_datagram_def)
next
  case (Inr f)
  from assms handle_datagram_Inr [OF Inr, of t1 t2 t3 p] Inr show ?thesis by auto
qed

text \<open>The caller's identifiers have 16 bytes: the Go type is an array.\<close>

definition label_ids_ok :: "loop_label \<Rightarrow> bool" where
  "label_ids_ok l = (case l of Forwarded i payload r \<Rightarrow> frame_id_ok i | _ \<Rightarrow> True)"

lemma proxy_step_books:
  assumes "proxy_step q l (p, w) (p', w')" "label_ids_ok l"
  shows "well_labelled l
    \<and> bytesIn p' = bytesIn p + word_of_nat (label_bytes_in l)
    \<and> bytesOut p' = bytesOut p + word_of_nat (label_bytes_out l)
    \<and> packetsDropped p' = packetsDropped p + word_of_nat (label_drops l)
    \<and> proxy_tunnel p' = proxy_tunnel p"
  using assms(1)
proof (cases rule: proxy_step.cases)
  case (handled data t1 t2 t3)
  then show ?thesis
    using handle_datagram_frame [OF handled(3)] by (auto simp: well_labelled_def split: sum.splits)
next
  case (dropped data t1 t2 t3 e p'')
  then show ?thesis
    using handle_datagram_frame [OF dropped(4)] by (auto simp: well_labelled_def split: sum.splits)
next
  case (forwarded i flow dir payload t1 t2 r)
  then show ?thesis
    using forward_packet_frame [OF forwarded(2)] forward_packet_bytes [OF forwarded(2)] assms(2)
    by (simp add: well_labelled_def label_ids_ok_def)
qed (simp_all add: well_labelled_def)

lemma proxy_step_keeps:
  assumes "proxy_step q l (p, w) (p', w')" "mgr_inv (proxy_sessions p)"
  shows "mgr_inv (proxy_sessions p')"
  using assms(1)
proof (cases rule: proxy_step.cases)
  case (gc_tick ord clock)
  then show ?thesis using mgr_inv_step [OF assms(2), of "OpGC ord clock"] by simp
next
  case (handled data t1 t2 t3)
  then show ?thesis using handle_datagram_inv [OF assms(2) handled(3)] by simp
next
  case (dropped data t1 t2 t3 e p'')
  then show ?thesis using handle_datagram_inv [OF assms(2) dropped(4)] by simp
next
  case (forwarded i flow dir payload t1 t2 r)
  then show ?thesis using forward_packet_sessions [OF forwarded(2) assms(2)] by simp
qed (simp_all add: assms(2))

lemma proxy_step_window:
  assumes "proxy_step q l (p, w) (p', w')"
    and "rttSamples p = drop (length h - max_rtt_samples) h"
  shows "\<exists>h'. length h' = length h + label_samples l \<and> rttSamples p' = drop (length h' - max_rtt_samples) h'"
  using assms(1)
proof (cases rule: proxy_step.cases)
  case (handled data t1 t2 t3)
  then obtain f :: frame where "rttSamples p' = add_rtt (since t3 (Timestamp f)) (rttSamples p)"
    using handle_datagram_frame [OF handled(3)] by (auto split: sum.splits)
  with handled assms(2) show ?thesis
    by (intro exI [of _ "h @ [since t3 (Timestamp f)]"]) (simp add: add_rtt_window)
next
  case (dropped data t1 t2 t3 e p'')
  then have "rttSamples p' = rttSamples p"
    using handle_datagram_frame [OF dropped(4)] by (auto split: sum.splits)
  with dropped assms(2) show ?thesis by auto
next
  case (forwarded i flow dir payload t1 t2 r)
  then show ?thesis using forward_packet_frame [OF forwarded(2)] assms(2) by auto
qed (use assms(2) in auto)

section \<open>Properties\<close>

text \<open>
  C6: one packet end to end.  When one proxy forwards a packet without error, the datagram it
  put on the wire, handled by any other proxy, is booked there on the session of the same
  identifier as one packet of the same payload size; both sides count the same number of bytes;
  and the round-trip sample is measured from the sender's clock, cut to the microsecond.
\<close>

theorem relay_end_to_end:
  assumes "forward_packet q i flow dir payload t1 t2 pA w = (None, pA', w')"
    and "frame_id_ok i" "modern t1" "mgr_inv (proxy_sessions pB)"
  shows "\<exists>c data. conn (proxy_tunnel pA) = Some c \<and> quic_send q c data w = (None, w')
    \<and> (case handle_datagram data sa sb sc pB of (r, pB') \<Rightarrow>
         r = None
         \<and> mgr_find (proxy_sessions pB') i
             = Some (record_packet_in (int (length payload)) sb (session_before pB i sa))
         \<and> bytesIn pB' - bytesIn pB = bytesOut pA' - bytesOut pA
         \<and> last (rttSamples pB') = since sc (t1 - t1 mod 1000))"
proof -
  let ?f = "\<lparr>SessionID = i, FlowID = flow, Direction = dir, Timestamp = t1, Payload = payload\<rparr>"
  from assms(1) have size: "length payload \<le> MaxPayloadSize"
    by (auto simp: forward_packet_def encode_def split: if_splits)
  with assms(1) obtain c where c: "conn (proxy_tunnel pA) = Some c"
    and sent: "quic_send q c (frame_bytes ?f) w = (None, w')"
    by (auto simp: forward_packet_def encode_def send_datagram_def Let_def
        split: option.splits prod.splits)
  have "frame_ok ?f"
    using size assms(2,3) modern_micro by (simp add: frame_ok_def)
  from decode_frame_bytes [OF this, of "[]"]
  have dec: "decode_frame (frame_bytes ?f) = Inr (on_wire ?f)" by simp
  obtain r pB' where h: "handle_datagram (frame_bytes ?f) sa sb sc pB = (r, pB')" by fastforce
  note frm = handle_datagram_frame [OF h]
  have "mgr_find (proxy_sessions pB') i
      = Some (record_packet_in (int (length payload)) sb (session_before pB i sa))"
    using handle_datagram_books [OF assms(4) dec h, of i] by (simp add: on_wire_def)
  moreover have "bytesIn pB' - bytesIn pB = bytesOut pA' - bytesOut pA"
    using frm dec forward_packet_bytes [OF assms(1,2)] length_frame_bytes [of ?f] assms(2) by simp
  moreover have "last (rttSamples pB') = since sc (t1 - t1 mod 1000)"
    using frm dec by (simp add: last_add_rtt on_wire_def)
  ultimately show ?thesis using c sent h frm dec by fastforce
qed

definition sample_proxy :: "unit proxy" where
  "sample_proxy = new_proxy \<lparr>conn = Some (), peer = ''relay2''\<rparr> DefaultProxyConfig"

lemma mgr_inv_new: "mgr_inv (new_manager d)"
  by (simp add: mgr_inv_def mgr_ok_new) (simp add: new_manager_def mgr_indexed_def)

lemma mgr_inv_new_proxy: "mgr_inv (proxy_sessions (new_proxy t cfg))"
  by (simp add: new_proxy_def mgr_inv_new)

theorem relay_end_to_end_witness:
  "\<exists>data pB'. handle_datagram data 5 6 7 sample_proxy = (None, pB')
     \<and> mgr_find (proxy_sessions pB') (replicate 16 3)
         = Some (record_packet_in 2 6 (session_before sample_proxy (replicate 16 3) 5))"
proof -
  obtain pA' w' where
    f: "forward_packet sample_quic (replicate 16 3) 1 0 [8, 9] 2000 2001 sample_proxy [] = (None, pA', w')"
    by (simp add: forward_packet_def encode_def MaxPayloadSize_def send_datagram_def sample_quic_def
        sample_proxy_def new_proxy_def Let_def new_manager_def mgr_get_def)
  have i: "frame_id_ok (replicate 16 3)" "modern 2000" by (simp_all add: frame_id_ok_def modern_def)
  have "mgr_inv (proxy_sessions sample_proxy)"
    by (simp add: sample_proxy_def mgr_inv_new_proxy)
  from relay_end_to_end [OF f i this, where sa = 5 and sb = 6 and sc = 7] show ?thesis
  proof (elim exE conjE)
    fix c data
    assume "case handle_datagram data 5 6 7 sample_proxy of (r, pB') \<Rightarrow> r = None
      \<and> mgr_find (proxy_sessions pB') (replicate 16 3)
          = Some (record_packet_in (int (length [8, 9 :: byte])) 6 (session_before sample_proxy (replicate 16 3) 5))
      \<and> bytesIn pB' - bytesIn sample_proxy = bytesOut pA' - bytesOut sample_proxy
      \<and> last (rttSamples pB') = since 7 (2000 - 2000 mod 1000)"
    then show ?thesis by (cases "handle_datagram data 5 6 7 sample_proxy") auto
  qed
qed

text \<open>
  C14: the totals account for the whole history: over any trace of the running proxy, the bytes in
  are those of the well-formed datagrams, the bytes out those of the packets sent, the dropped
  packets are the malformed datagrams, all modulo 2^64, and the tunnel is the one it started with.
\<close>

theorem proxy_accounting:
  assumes "proxy_trace q ls (p, w) (p', w')" "list_all label_ids_ok ls"
  shows "list_all well_labelled ls
    \<and> bytesIn p' = bytesIn p + word_of_nat (\<Sum>l\<leftarrow>ls. label_bytes_in l)
    \<and> bytesOut p' = bytesOut p + word_of_nat (\<Sum>l\<leftarrow>ls. label_bytes_out l)
    \<and> packetsDropped p' = packetsDropped p + word_of_nat (\<Sum>l\<leftarrow>ls. label_drops l)
    \<and> proxy_tunnel p' = proxy_tunnel p"
  using assms
proof (induction ls "(p, w)" "(p', w')" arbitrary: p w rule: proxy_trace.induct)
  case trace_done
  then show ?case by simp
next
  case (trace_step l t ls p w)
  obtain p1 w1 where t: "t = (p1, w1)" by (cases t)
  from trace_step.prems have ids: "label_ids_ok l" "list_all label_ids_ok ls" by simp_all
  from proxy_step_books [OF trace_step.hyps(1) [unfolded t] ids(1)] trace_step.hyps(3) [OF t ids(2)]
  show ?case by (simp add: add.assoc)
qed

theorem proxy_accounting_witness:
  "bytesIn (sample_proxy\<lparr>packetsDropped := 1\<rparr>) = bytesIn sample_proxy
   \<and> packetsDropped (sample_proxy\<lparr>packetsDropped := 1\<rparr>) = packetsDropped sample_proxy + 1"
proof -
  have "proxy_step sample_quic (Dropped [1]) (sample_proxy, [[1]])
      (sample_proxy\<lparr>packetsDropped := packetsDropped sample_proxy + 1\<rparr>, [])"
    by (rule proxy_step.dropped [where e = "DecodeFrame (FrameTooShort 1 33)"])
      (simp_all add: receive_datagram_def sample_quic_def sample_proxy_def new_proxy_def
        handle_datagram_def decode_frame_def FrameHeaderSize_def)
  then have "proxy_trace sample_quic [Dropped [1]] (sample_proxy, [[1]]) (sample_proxy\<lparr>packetsDropped := 1\<rparr>, [])"
    by (auto simp: proxy_trace_Cons proxy_trace_Nil sample_proxy_def new_proxy_def)
  from proxy_accounting [OF this] show ?thesis by (simp add: label_ids_ok_def)
qed

text \<open>
  The sample window: whatever happens, the proxy keeps exactly the last hundred round-trip
  samples of the datagrams it handled, and its sessions stay well-formed.
\<close>

lemma proxy_window:
  assumes "proxy_trace q ls (new_proxy t cfg, w) (p', w')"
  shows "(\<exists>h. length h = (\<Sum>l\<leftarrow>ls. label_samples l) \<and> rttSamples p' = drop (length h - 100) h)
    \<and> length (rttSamples p') \<le> 100 \<and> mgr_inv (proxy_sessions p')"
proof -
  have "\<exists>h'. length h' = length h + (\<Sum>l\<leftarrow>ls. label_samples l)
      \<and> rttSamples p' = drop (length h' - max_rtt_samples) h'"
    if "proxy_trace q ls (p, w) (p', w')" "rttSamples p = drop (length h - max_rtt_samples) h" for p w h
    using that
  proof (induction ls "(p, w)" "(p', w')" arbitrary: p w h rule: proxy_trace.induct)
    case trace_done
    then show ?case by auto
  next
    case (trace_step l t ls p w)
    obtain p1 w1 where t: "t = (p1, w1)" by (cases t)
    from proxy_step_window [OF trace_step.hyps(1) [unfolded t] trace_step.prems] obtain h1 where
      "length h1 = length h + label_samples l" "rttSamples p1 = drop (length h1 - max_rtt_samples) h1"
      by blast
    with trace_step.hyps(3) [OF t, of h1] show ?case by (simp add: add.assoc)
  qed
  from this [OF assms, of "[]"] have "\<exists>h. length h = (\<Sum>l\<leftarrow>ls. label_samples l)
      \<and> rttSamples p' = drop (length h - 100) h"
    by (simp add: new_proxy_def max_rtt_samples_def)
  moreover have "mgr_inv (proxy_sessions p')"
    using proxy_machine.trace_keeps [of q "\<lambda>(p, w). mgr_inv (proxy_sessions p)", OF _ assms]
    by (auto dest: proxy_step_keeps intro: mgr_inv_new_proxy)
  ultimately show ?thesis using assms mgr_inv_new_proxy by auto
qed

lemma proxy_window_witness:
  "length (rttSamples sample_proxy) \<le> 100 \<and> mgr_inv (proxy_sessions sample_proxy)"
proof -
  have "proxy_step sample_quic Network (sample_proxy, []) (sample_proxy, [[1]])" by (rule proxy_step.network)
  then have "proxy_trace sample_quic [Network] (sample_proxy, []) (sample_proxy, [[1]])"
    by (auto simp: proxy_trace_Cons proxy_trace_Nil)
  from proxy_window [OF this [unfolded sample_proxy_def]] show ?thesis by (simp add: sample_proxy_def)
qed

end
