(* ===== verification/Relay_Cert.thy ===== *)
theory Relay_Cert
  imports Go_Time
begin

text \<open>
  The self-signed certificate of the relay (\<open>internal/relay/cert.go\<close>).  Key generation, the signing
  of a template and the assembly of a key pair are \<open>crypto/rsa\<close> and \<open>crypto/x509\<close>: functions on the
  world the random source is part of, passed as a record; the template and the two clock readings
  it takes are the code's.
\<close>

datatype key_usage = KeyUsageDigitalSignature | KeyUsageKeyEncipherment

datatype ext_key_usage = ExtKeyUsageServerAuth | ExtKeyUsageClientAuth

record cert_template =
  SerialNumber :: int
  Organization :: "string list"
  NotBefore :: gotime
  NotAfter :: gotime
  KeyUsage :: "key_usage list"
  ExtKeyUsage :: "ext_key_usage list"
  BasicConstraintsValid :: bool

record ('k, 'd, 'x, 'w) crypto =
  rsa_generate :: "nat \<Rightarrow> 'w \<Rightarrow> (string + 'k) \<times> 'w"
  cert_clock :: "'w \<Rightarrow> gotime \<times> 'w"
  create_certificate :: "cert_template \<Rightarrow> cert_template \<Rightarrow> 'k \<Rightarrow> 'w \<Rightarrow> (string + 'd) \<times> 'w"
  key_pair :: "'d \<Rightarrow> 'k \<Rightarrow> string + 'x"

definition relay_template :: "gotime \<Rightarrow> gotime \<Rightarrow> cert_template" where
  "relay_template now1 now2 =
     \<lparr>SerialNumber = 1, Organization = [''turnfly-relay''], NotBefore = now1,
      NotAfter = time_add now2 (365 * 24 * hour), KeyUsage = [KeyUsageDigitalSignature, KeyUsageKeyEncipherment],
      ExtKeyUsage = [ExtKeyUsageServerAuth, ExtKeyUsageClientAuth], BasicConstraintsValid = True\<rparr>"

text \<open>The PEM encoding and its decoding by \<open>X509KeyPair\<close> are part of \<open>key_pair\<close>.\<close>

definition generate_self_signed_cert :: "('k, 'd, 'x, 'w) crypto \<Rightarrow> 'w \<Rightarrow> (string + 'x) \<times> 'w" where
  "generate_self_signed_cert cr w =
     (case rsa_generate cr 2048 w of
        (Inl e, w) \<Rightarrow> (Inl e, w)
      | (Inr key, w) \<Rightarrow>
          let (now1, w) = cert_clock cr w; (now2, w) = cert_clock cr w; t = relay_template now1 now2
          in case create_certificate cr t t key w of
               (Inl e, w) \<Rightarrow> (Inl e, w)
             | (Inr der, w) \<Rightarrow> (key_pair cr der key, w))"

section \<open>Properties\<close>

text \<open>A template whose certificate a peer may accept at a time, in the role it is used in.\<close>

definition valid_at :: "gotime \<Rightarrow> cert_template \<Rightarrow> bool" where
  "valid_at t c \<longleftrightarrow> NotBefore c \<le> t \<and> t \<le> NotAfter c"

text \<open>
  A certificate that was generated comes from a template signed by its own key, for both roles
  of a tunnel, that is valid from the moment it was made for at least 365 days: with a clock that
  does not run backwards, at every later time up to then.
\<close>

lemma self_signed_cert_valid:
  assumes "generate_self_signed_cert cr w = (Inr x, w')"
    and "\<forall>w t v. cert_clock cr w = (t, v) \<longrightarrow> T w \<le> t \<and> t \<le> T v"
    and "\<forall>n w r v. rsa_generate cr n w = (r, v) \<longrightarrow> T w \<le> T v"
  shows "\<exists>t key der v v'. create_certificate cr t t key v = (Inr der, v') \<and> key_pair cr der key = Inr x
    \<and> set (ExtKeyUsage t) = {ExtKeyUsageServerAuth, ExtKeyUsageClientAuth}
    \<and> T w \<le> NotBefore t \<and> NotBefore t \<le> T v
    \<and> (\<forall>now. T v \<le> now \<and> now \<le> T w + 365 * 24 * hour \<longrightarrow> valid_at now t)"
proof -
  obtain key w1 where k: "rsa_generate cr 2048 w = (Inr key, w1)"
    using assms(1) by (auto simp: generate_self_signed_cert_def split: prod.splits sum.splits)
  obtain n1 w2 n2 w3 where n: "cert_clock cr w1 = (n1, w2)" "cert_clock cr w2 = (n2, w3)"
    by (metis prod.collapse)
  define t where "t = relay_template n1 n2"
  obtain der w4 where c: "create_certificate cr t t key w3 = (Inr der, w4)" "key_pair cr der key = Inr x"
    using assms(1) k n by (auto simp: generate_self_signed_cert_def t_def Let_def split: prod.splits sum.splits)
  have le: "T w \<le> T w1" "T w1 \<le> n1" "n1 \<le> T w2" "T w2 \<le> n2" "n2 \<le> T w3"
    using assms(2,3) k n by blast+
  show ?thesis
    using c le
    by (intro exI [of _ t] exI [of _ key] exI [of _ der] exI [of _ w3] exI [of _ w4])
      (auto simp: t_def relay_template_def valid_at_def time_add_def)
qed

text \<open>A crypto library on a world that is its clock, whose certificates are their templates.\<close>

definition sample_crypto :: "(nat, cert_template, cert_template, gotime) crypto" where
  "sample_crypto =
     \<lparr>rsa_generate = (\<lambda>n w. (Inr n, w + 5)), cert_clock = (\<lambda>w. (w, w + 1)),
      create_certificate = (\<lambda>t p k w. (Inr t, w)), key_pair = (\<lambda>d k. Inr d)\<rparr>"

lemma self_signed_cert_valid_witness:
  "\<exists>t. generate_self_signed_cert sample_crypto 0 = (Inr t, 7) \<and> 0 \<le> NotBefore t \<and> valid_at (365 * 24 * hour) t"
proof -
  let ?t = "relay_template 5 6"
  have g: "generate_self_signed_cert sample_crypto 0 = (Inr ?t, 7)"
    by (simp add: generate_self_signed_cert_def sample_crypto_def Let_def)
  from self_signed_cert_valid [OF g, of "\<lambda>w. w"] obtain t v where
    "create_certificate sample_crypto t t 2048 v = (Inr ?t, v)" "0 \<le> NotBefore t" "NotBefore t \<le> v"
    "\<forall>now. v \<le> now \<and> now \<le> 365 * 24 * hour \<longrightarrow> valid_at now t"
    by (auto simp: sample_crypto_def)
  then have "t = ?t" "\<forall>now. v \<le> now \<and> now \<le> 365 * 24 * hour \<longrightarrow> valid_at now ?t"
    by (auto simp: sample_crypto_def)
  then show ?thesis using g
    by (auto simp: relay_template_def valid_at_def time_add_def dur_units)
qed

end
