(* ===== verification/Metrics.thy ===== *)
theory Metrics
  imports Go_Strings
begin

text \<open>
  The Prometheus metrics of the program and their registration (\<open>internal/metrics/metrics.go\<close>).
  The client library's registry is a parameter: a function that adds one metric or refuses it, and
  \<open>MustRegister\<close> panics at the first refusal.
\<close>

datatype metric_kind = Gauge | Counter | CounterVec "string list"

record metric =
  Metric_Name :: string
  Metric_Help :: string
  Metric_Kind :: metric_kind

definition AllocationsActive :: metric where
  "AllocationsActive = \<lparr>Metric_Name = ''turn_allocations_active'',
     Metric_Help = ''Current number of active TURN allocations.'', Metric_Kind = Gauge\<rparr>"

definition AllocationsTotal :: metric where
  "AllocationsTotal = \<lparr>Metric_Name = ''turn_allocations_total'',
     Metric_Help = ''Total number of TURN allocations created.'', Metric_Kind = Counter\<rparr>"

definition BytesInTotal :: metric where
  "BytesInTotal = \<lparr>Metric_Name = ''turn_bytes_in_total'',
     Metric_Help = ''Total bytes received via TURN relay.'', Metric_Kind = Counter\<rparr>"

definition BytesOutTotal :: metric where
  "BytesOutTotal = \<lparr>Metric_Name = ''turn_bytes_out_total'',
     Metric_Help = ''Total bytes sent via TURN relay.'', Metric_Kind = Counter\<rparr>"

definition PacketsDroppedTotal :: metric where
  "PacketsDroppedTotal = \<lparr>Metric_Name = ''turn_packets_dropped_total'',
     Metric_Help = ''Total number of TURN packets dropped.'', Metric_Kind = Counter\<rparr>"

definition AuthFailuresTotal :: metric where
  "AuthFailuresTotal = \<lparr>Metric_Name = ''turn_auth_failures_total'',
     Metric_Help = ''Total number of TURN authentication failures.'', Metric_Kind = Counter\<rparr>"

definition RegionCandidateWinsTotal :: metric where
  "RegionCandidateWinsTotal = \<lparr>Metric_Name = ''region_candidate_wins_total'',
     Metric_Help = ''Total number of times each region was chosen as the winning ICE candidate.'',
     Metric_Kind = CounterVec [''region'']\<rparr>"

definition RelayQuicRTTMs :: metric where
  "RelayQuicRTTMs = \<lparr>Metric_Name = ''relay_quic_rtt_ms'',
     Metric_Help = ''Current estimated relay QUIC tunnel round-trip time in milliseconds.'', Metric_Kind = Gauge\<rparr>"

definition RelayQuicLossEstimate :: metric where
  "RelayQuicLossEstimate = \<lparr>Metric_Name = ''relay_quic_loss_estimate'',
     Metric_Help = ''Estimated packet loss on the relay QUIC tunnel (0.0'' @ [CHR 0xE2, CHR 0x80, CHR 0x93] @ ''1.0).'',
     Metric_Kind = Gauge\<rparr>"

definition RelayTunnelBytesTotal :: metric where
  "RelayTunnelBytesTotal = \<lparr>Metric_Name = ''relay_tunnel_bytes_total'',
     Metric_Help = ''Total bytes transferred through the relay tunnel.'', Metric_Kind = Counter\<rparr>"

definition all_metrics :: "metric list" where
  "all_metrics =
     [AllocationsActive, AllocationsTotal, BytesInTotal, BytesOutTotal, PacketsDroppedTotal, AuthFailuresTotal,
      RegionCandidateWinsTotal, RelayQuicRTTMs, RelayQuicLossEstimate, RelayTunnelBytesTotal]"

text \<open>The registry after the calls, and whether \<open>MustRegister\<close> panicked.\<close>

fun must_register :: "(metric \<Rightarrow> 'r \<Rightarrow> 'r option) \<Rightarrow> metric list \<Rightarrow> 'r \<Rightarrow> bool \<times> 'r" where
  "must_register add [] r = (True, r)"
| "must_register add (m # ms) r =
     (case add m r of None \<Rightarrow> (False, r) | Some r' \<Rightarrow> must_register add ms r')"

definition register_metrics :: "(metric \<Rightarrow> 'r \<Rightarrow> 'r option) \<Rightarrow> 'r \<Rightarrow> bool \<times> 'r" where
  "register_metrics add = must_register add all_metrics"

section \<open>Properties\<close>

lemmas metric_defs = AllocationsActive_def AllocationsTotal_def BytesInTotal_def BytesOutTotal_def
  PacketsDroppedTotal_def AuthFailuresTotal_def RegionCandidateWinsTotal_def RelayQuicRTTMs_def
  RelayQuicLossEstimate_def RelayTunnelBytesTotal_def

definition metric_names :: "string list" where
  "metric_names = map Metric_Name all_metrics"

lemma metric_names_distinct: "distinct metric_names"
  by (simp add: metric_names_def all_metrics_def metric_defs)

text \<open>The registry refuses a metric exactly when its name is taken.\<close>

definition by_name :: "(metric \<Rightarrow> 'r \<Rightarrow> 'r option) \<Rightarrow> ('r \<Rightarrow> string set) \<Rightarrow> bool" where
  "by_name add names \<longleftrightarrow>
     (\<forall>m r. case add m r of None \<Rightarrow> Metric_Name m \<in> names r
        | Some r' \<Rightarrow> Metric_Name m \<notin> names r \<and> names r' = insert (Metric_Name m) (names r))"

lemma must_register_by_name:
  assumes "by_name add names"
  shows "distinct (map Metric_Name ms) \<Longrightarrow>
     (fst (must_register add ms r) \<longleftrightarrow> set (map Metric_Name ms) \<inter> names r = {})
     \<and> (fst (must_register add ms r) \<longrightarrow> names (snd (must_register add ms r)) = set (map Metric_Name ms) \<union> names r)"
proof (induction ms arbitrary: r)
  case (Cons m ms)
  have add: "case add m r of None \<Rightarrow> Metric_Name m \<in> names r
      | Some r' \<Rightarrow> Metric_Name m \<notin> names r \<and> names r' = insert (Metric_Name m) (names r)"
    using assms by (simp add: by_name_def)
  show ?case
  proof (cases "add m r")
    case None
    with add show ?thesis by simp
  next
    case (Some r')
    with add have "Metric_Name m \<notin> names r" "names r' = insert (Metric_Name m) (names r)" by simp_all
    then show ?thesis using Some Cons.prems Cons.IH [of r'] by simp
  qed
qed simp

text \<open>
  Registration succeeds on a registry that has none of the ten names, which are distinct, and
  exactly then; and it panics when it is called again, so the program may call it once.
\<close>

lemma metrics_register_once:
  assumes "by_name add names"
  shows "(fst (register_metrics add r) \<longleftrightarrow> set metric_names \<inter> names r = {})
    \<and> \<not> (fst (register_metrics add r) \<and> fst (register_metrics add (snd (register_metrics add r))))"
proof -
  have ne: "set metric_names \<noteq> {}" by (simp add: metric_names_def all_metrics_def)
  have iff: "fst (register_metrics add r) \<longleftrightarrow> set metric_names \<inter> names r = {}" for r
    using must_register_by_name [OF assms, of all_metrics r] metric_names_distinct
    by (simp add: register_metrics_def metric_names_def)
  have "set metric_names \<subseteq> names (snd (register_metrics add r))" if "fst (register_metrics add r)"
    using that must_register_by_name [OF assms, of all_metrics r] metric_names_distinct
    by (simp add: register_metrics_def metric_names_def)
  then show ?thesis
    using ne iff [of r] iff [of "snd (register_metrics add r)"] by (metis inf.absorb1)
qed

lemma metrics_register_once_witness:
  "fst (register_metrics (\<lambda>m r. if Metric_Name m \<in> set r then None else Some (Metric_Name m # r)) [])"
proof -
  have "by_name (\<lambda>m r. if Metric_Name m \<in> set r then None else Some (Metric_Name m # r)) set"
    by (simp add: by_name_def)
  from metrics_register_once [OF this, of "[]"] show ?thesis by simp
qed

end
