(* ===== verification/Cli_Serve.thy ===== *)
theory Cli_Serve
  imports Config Control_Api Turn_Server Relay_Proxy Relay_Cert Metrics
begin

text \<open>
  The commands of \<open>cmd/turnfly/main.go\<close> that serve and generate: \<open>serve-turn\<close>, \<open>serve-relay\<close>,
  \<open>ice-config\<close> and \<open>probe\<close>.  What \<open>serve-turn\<close> puts together from the other components is a value;
  its three goroutines are their results in the order they end.
\<close>

section \<open>serve-turn\<close>

datatype log_level = LevelDebug | LevelInfo | LevelWarn | LevelError

definition setup_logger :: "string \<Rightarrow> log_level" where
  "setup_logger logLevel =
     (if logLevel = ''debug'' then LevelDebug
      else if logLevel = ''warn'' then LevelWarn
      else if logLevel = ''error'' then LevelError
      else LevelInfo)"

text \<open>The flags that were given on the command line.\<close>

record serve_turn_flags =
  flag_turn_port :: "int option"
  flag_http_port :: "int option"
  flag_metrics_addr :: "string option"
  flag_log_level :: "string option"

definition serve_turn_defaults :: serve_turn_flags where
  "serve_turn_defaults =
     \<lparr>flag_turn_port = None, flag_http_port = None, flag_metrics_addr = None, flag_log_level = None\<rparr>"

definition override :: "'a option \<Rightarrow> ('a \<Rightarrow> config \<Rightarrow> config) \<Rightarrow> config \<Rightarrow> config" where
  "override flag set_field c = (case flag of None \<Rightarrow> c | Some v \<Rightarrow> set_field v c)"

definition serve_turn_config :: "env \<Rightarrow> serve_turn_flags \<Rightarrow> config_error list + config" where
  "serve_turn_config getenv f =
     (let c = load_from_env getenv DefaultConfig;
          c = override (flag_turn_port f) (\<lambda>p c. c\<lparr>TURNPort := p\<rparr>) c;
          c = override (flag_http_port f) (\<lambda>p c. c\<lparr>HTTPPort := p\<rparr>) c;
          c = override (flag_metrics_addr f) (\<lambda>v c. c\<lparr>MetricsAddr := v\<rparr>) c;
          c = override (flag_log_level f) (\<lambda>v c. c\<lparr>LogLevel := v\<rparr>) c
      in if config_validate c \<noteq> [] then Inl (config_validate c) else Inr c)"

definition well_known_name :: "string \<Rightarrow> string" where
  "well_known_name code = (case gm_get WellKnownRegions code of None \<Rightarrow> [] | Some n \<Rightarrow> n)"

text \<open>The region the server registers for itself; host and TLS port keep their zero values.\<close>

definition local_regions :: "env \<Rightarrow> config \<Rightarrow> store" where
  "local_regions getenv cfg =
     (if FlyAppName cfg \<noteq> [] \<and> getenv ''FLY_REGION'' \<noteq> []
      then store_set \<lparr>Region_Code = getenv ''FLY_REGION'', Region_Name = well_known_name (getenv ''FLY_REGION''),
                      Host = [], Port = TURNPort cfg, TLSPort = 0\<rparr> new_store
      else new_store)"

text \<open>
  The two checks.  The second reads the region store when it runs; nothing changes the store once
  the server is up.
\<close>

definition startup_check :: "'w checker" where
  "startup_check w = (Some (StatusHealthy, ''service is running''), w)"

definition regions_check :: "store \<Rightarrow> 'w checker" where
  "regions_check st w =
     (Some (if 0 < store_count st then (StatusHealthy, show_int (store_count st) @ '' region(s) registered'')
            else (StatusDegraded, ''no regions registered '' @ [CHR 0xE2, CHR 0x80, CHR 0x94]
                    @ '' multi-region mode inactive'')), w)"

definition serve_health :: "store \<Rightarrow> 'w health_service" where
  "serve_health st = register ''regions'' (regions_check st) (register ''startup'' startup_check new_service)"

definition serve_turn_cfg :: "config \<Rightarrow> turn_config" where
  "serve_turn_cfg cfg =
     \<lparr>TurnListenAddr = ''0.0.0.0:'' @ show_int (TURNPort cfg), Realm = TURNRealm cfg, SharedSecret = TURNSharedSecret cfg\<rparr>"

definition serve_api :: "env \<Rightarrow> config \<Rightarrow> 'w \<Rightarrow> 'w api" where
  "serve_api getenv cfg w =
     (let st = local_regions getenv cfg
      in new_api (TURNSharedSecret cfg) (AdminAPIToken cfg) (24 * hour) (serve_health st) (Some st) w)"

definition http_addr :: "config \<Rightarrow> string" where
  "http_addr cfg = '':'' @ show_int (HTTPPort cfg)"

text \<open>
  The group: the first error of a goroutine that ends is the group's, and cancels the others.  An
  orderly end of the context or of the HTTP server is none.
\<close>

datatype go_error = ContextCanceled | ServerClosed | OtherError string

datatype serve_error =
    InvalidConfiguration "config_error list"
  | TurnServe turn_error
  | HttpServe go_error
  | HttpShutdown go_error

definition http_goroutine :: "go_error option \<Rightarrow> serve_error option" where
  "http_goroutine e =
     (case e of None \<Rightarrow> None | Some e \<Rightarrow> if e \<noteq> ServerClosed then Some (HttpServe e) else None)"

fun group_wait :: "serve_error option list \<Rightarrow> serve_error option" where
  "group_wait [] = None"
| "group_wait (None # es) = group_wait es"
| "group_wait (Some e # es) = Some e"

definition serve_outcome :: "serve_error option list \<Rightarrow> serve_error option" where
  "serve_outcome ends =
     (case group_wait ends of
        None \<Rightarrow> None
      | Some e \<Rightarrow> if e \<noteq> HttpShutdown ContextCanceled \<and> e \<noteq> HttpShutdown ServerClosed then Some e else None)"

section \<open>serve-relay\<close>

record 'x tls_config =
  Certificates :: "'x list"
  NextProtos :: "string list"
  InsecureSkipVerify :: bool

datatype relay_error =
    PeerRequired
  | LoadKeyPair string
  | SelfSigned string
  | TunnelConnect tunnel_error

definition relay_tls :: "'x \<Rightarrow> 'x tls_config" where
  "relay_tls cert = \<lparr>Certificates = [cert], NextProtos = [''turnfly-relay''], InsecureSkipVerify = True\<rparr>"

definition build_relay_tls ::
  "(string \<Rightarrow> string \<Rightarrow> string + 'x) \<Rightarrow> ('k, 'd, 'x, 'w) crypto \<Rightarrow> string \<Rightarrow> string \<Rightarrow> 'w
   \<Rightarrow> (relay_error + 'x tls_config) \<times> 'w" where
  "build_relay_tls load cr certFile keyFile w =
     (if certFile \<noteq> [] \<and> keyFile \<noteq> []
      then (case load certFile keyFile of
              Inl e \<Rightarrow> (Inl (LoadKeyPair e), w)
            | Inr cert \<Rightarrow> (Inr (relay_tls cert), w))
      else (case generate_self_signed_cert cr w of
              (Inl e, w) \<Rightarrow> (Inl (SelfSigned e), w)
            | (Inr cert, w) \<Rightarrow> (Inr (relay_tls cert), w)))"

record relay_flags =
  relay_listen :: string
  relay_peer :: string
  relay_server :: bool
  relay_cert :: string
  relay_key :: string

definition relay_defaults :: relay_flags where
  "relay_defaults =
     \<lparr>relay_listen = '':4443'', relay_peer = [], relay_server = False, relay_cert = [], relay_key = []\<rparr>"

definition relay_tunnel_config :: "relay_flags \<Rightarrow> tunnel_config" where
  "relay_tunnel_config f =
     \<lparr>ListenAddr = (if relay_listen f = [] then '':4443'' else relay_listen f), TunnelPeerAddr = relay_peer f,
      IsServer = relay_server f\<rparr>"

text \<open>Up to the loop of the proxy; \<open>quic\<close> is the QUIC library under a TLS configuration.\<close>

definition serve_relay ::
  "(string \<Rightarrow> string \<Rightarrow> string + 'x) \<Rightarrow> ('k, 'd, 'x, 'w) crypto \<Rightarrow> ('x tls_config \<Rightarrow> ('l, 'c, 's, 'w) quic)
   \<Rightarrow> relay_flags \<Rightarrow> 'w \<Rightarrow> (relay_error + 'c proxy) \<times> 'w" where
  "serve_relay load cr quic f w =
     (if relay_peer f = [] then (Inl PeerRequired, w)
      else case build_relay_tls load cr (relay_cert f) (relay_key f) w of
        (Inl e, w) \<Rightarrow> (Inl e, w)
      | (Inr tls, w) \<Rightarrow>
          (case tunnel_connect (quic tls) (relay_tunnel_config f) new_tunnel w of
             (Some e, t, w) \<Rightarrow> (Inl (TunnelConnect e), w)
           | (None, t, w) \<Rightarrow> (Inr (new_proxy t DefaultProxyConfig), w)))"

section \<open>ice-config\<close>

datatype ice_error = SharedSecretRequired | BadIceRegion string

definition ice_region :: "string \<Rightarrow> string \<Rightarrow> region" where
  "ice_region code host =
     \<lparr>Region_Code = code, Region_Name = well_known_name code, Host = host, Port = 3478, TLSPort = 5349\<rparr>"

fun ice_regions :: "string list \<Rightarrow> store \<Rightarrow> ice_error + store" where
  "ice_regions [] st = Inr st"
| "ice_regions (i # is) st =
     (let item = trim_space i
      in if item = [] then ice_regions is st
         else let parts = split_n2 CHR '':'' item
              in if length parts \<noteq> 2 then Inl (BadIceRegion item)
                 else ice_regions is (store_set (ice_region (parts ! 0) (parts ! 1)) st))"

definition ice_from_regions ::
  "region_order \<Rightarrow> gotime \<Rightarrow> string \<Rightarrow> string \<Rightarrow> string \<Rightarrow> bool \<Rightarrow> ice_error + ice_config" where
  "ice_from_regions ord now regionsList userID sharedSecret useTLS =
     bind_res (ice_regions (split_all CHR '','' regionsList) new_store) (\<lambda>st.
       let (username, password) = generate_credentials sharedSecret userID (24 * hour) now
       in Inr (generate_ice_config ord st username password useTLS))"

definition ice_from_local :: "gotime \<Rightarrow> string \<Rightarrow> string \<Rightarrow> bool \<Rightarrow> ice_config" where
  "ice_from_local now userID sharedSecret useTLS =
     (let (username, password) = generate_credentials sharedSecret userID (24 * hour) now
      in [\<lparr>URLs = [''turn:turn.example.com:3478?transport=udp''], Username = username, Credential = password\<rparr>])"

text \<open>The command prints the JSON of the configuration.\<close>

definition ice_command ::
  "region_order \<Rightarrow> env \<Rightarrow> gotime \<Rightarrow> string \<Rightarrow> bool \<Rightarrow> string \<Rightarrow> string \<Rightarrow> ice_error + json" where
  "ice_command ord getenv now userID useTLS regionsList secretFlag =
     (let cfg = load_from_env getenv DefaultConfig;
          sharedSecret = (if secretFlag = [] then TURNSharedSecret cfg else secretFlag)
      in if sharedSecret = [] then Inl SharedSecretRequired
         else bind_res (if regionsList \<noteq> [] then ice_from_regions ord now regionsList userID sharedSecret useTLS
                        else Inr (ice_from_local now userID sharedSecret useTLS))
                (\<lambda>c. Inr (ice_config_json c)))"

section \<open>probe\<close>

record 'w probe_env =
  probe_clock :: "'w \<Rightarrow> gotime \<times> 'w"
  probe_sleep :: "duration \<Rightarrow> 'w \<Rightarrow> 'w"

record probe_result =
  Sent :: int
  Received :: int
  TotalRTT :: duration
  MinRTT :: duration
  MaxRTT :: duration
  BytesOut :: int

definition new_probe_result :: probe_result where
  "new_probe_result = \<lparr>Sent = 0, Received = 0, TotalRTT = 0, MinRTT = hour, MaxRTT = 0, BytesOut = 0\<rparr>"

text \<open>The round trip is simulated: a number that depends on the packet's index alone.\<close>

definition sim_rtt :: "nat \<Rightarrow> duration" where
  "sim_rtt i = dur_mul (20 + (let x = wrap64 (int i * 3) in x - 40 * quot x 40)) millisecond"

definition probe_packet :: "'w probe_env \<Rightarrow> int \<Rightarrow> nat \<Rightarrow> probe_result \<times> 'w \<Rightarrow> probe_result \<times> 'w" where
  "probe_packet env packetSize i = (\<lambda>(r, w).
     let (start, w) = probe_clock env w;
         w = probe_sleep env (10 * millisecond) w;
         (now, w) = probe_clock env w;
         rtt = dur_add (since now start) (sim_rtt i)
     in (\<lparr>Sent = wrap64 (Sent r + 1), Received = wrap64 (Received r + 1), TotalRTT = dur_add (TotalRTT r) rtt,
          MinRTT = (if rtt < MinRTT r then rtt else MinRTT r), MaxRTT = (if MaxRTT r < rtt then rtt else MaxRTT r),
          BytesOut = wrap64 (BytesOut r + packetSize)\<rparr>, w))"

definition probe_loss :: "probe_result \<Rightarrow> rat" where
  "probe_loss r = (if 0 < Sent r then of_int (Sent r - Received r) / of_int (Sent r) * 100 else 0)"

definition probe_average :: "probe_result \<Rightarrow> duration" where
  "probe_average r = (if 0 < Received r then quot (TotalRTT r) (Received r) else 0)"

datatype probe_outcome = ProbePanics | ThroughputUnavailable | Latency probe_result

definition run_probe :: "'w probe_env \<Rightarrow> duration \<Rightarrow> int \<Rightarrow> int \<Rightarrow> 'w \<Rightarrow> probe_outcome \<times> 'w" where
  "run_probe env dur packetSize n w =
     (if packetSize < 0 then (ProbePanics, w)
      else if 0 < dur then (ThroughputUnavailable, w)
      else case fold (probe_packet env packetSize) [0..<nat n] (new_probe_result, w) of
        (r, w) \<Rightarrow> (Latency r, w))"

text \<open>
  The command: without a target it lists the known regions, in an order of the map that is an
  argument; the source, the target and the bit rate are only printed.
\<close>

record probe_flags =
  probe_from :: string
  probe_to :: string
  probe_duration :: duration
  probe_packet_size :: int
  probe_bitrate :: int
  probe_count :: int

definition probe_defaults :: probe_flags where
  "probe_defaults =
     \<lparr>probe_from = [], probe_to = [], probe_duration = 0, probe_packet_size = 1200, probe_bitrate = 0, probe_count = 10\<rparr>"

definition probe_command ::
  "name_order \<Rightarrow> 'w probe_env \<Rightarrow> probe_flags \<Rightarrow> 'w \<Rightarrow> (string list + probe_outcome) \<times> 'w" where
  "probe_command names env f w =
     (if probe_to f = []
      then (Inl (''Available regions:'' # map (\<lambda>(code, name). ''  '' @ code @ '' '' @ [CHR 0xE2, CHR 0x80, CHR 0x94] @ '' '' @ name)
              (names WellKnownRegions)), w)
      else case run_probe env (probe_duration f) (probe_packet_size f) (probe_count f) w of (r, w) \<Rightarrow> (Inr r, w))"

section \<open>Properties of the server\<close>

text \<open>
  C30: on Fly the server registers its own region without a host, so every credentials response it
  gives carries exactly one address, and that address names no host: the user, the password, an
  empty host and the port.
\<close>

theorem self_registered_uris:
  assumes "FlyAppName cfg \<noteq> []" "getenv ''FLY_REGION'' \<noteq> []" "visits ord"
  shows "let resp = credentials_for now ord (serve_api getenv cfg w) req in
     URIs resp = [''turn:'' @ Resp_Username resp @ '':'' @ Resp_Password resp @ ''@:'' @ show_int (TURNPort cfg)]"
proof -
  have one: "ord [e] = [e]" for e :: "string \<times> region"
    using visits_mset [OF assms(3), of "[e]"] visits_length [OF assms(3), of "[e]"]
    by (cases "ord [e]") auto
  show ?thesis
    using assms(1,2)
    by (simp add: credentials_for_def serve_api_def new_api_def local_regions_def store_set_def new_store_def
        store_active_def store_count_def gm_len_def generate_multi_region_uris_def one region_scheme_def region_port_def
        Let_def split: prod.split)
qed

definition fly_config :: config where
  "fly_config = DefaultConfig\<lparr>TURNRealm := ''r'', TURNSharedSecret := ''s'', AdminAPIToken := ''t'', FlyAppName := ''a''\<rparr>"

theorem self_registered_uris_witness:
  "\<exists>resp. resp = credentials_for 0 rev (serve_api (\<lambda>n. ''iad'') fly_config ()) \<lparr>UserID = ''alice'', Validity = 60\<rparr>
     \<and> URIs resp = [''turn:'' @ Resp_Username resp @ '':'' @ Resp_Password resp @ ''@:'' @ show_int 3478]"
  using self_registered_uris [of fly_config "\<lambda>n. ''iad''" rev 0 "()" "\<lparr>UserID = ''alice'', Validity = 60\<rparr>"]
  by (simp add: fly_config_def DefaultConfig_def Let_def)

text \<open>
  The health of the assembled server: \<open>GET /healthz\<close> is always answered 200, with the status
  degraded exactly when no region is registered, which is everywhere but on Fly.
\<close>

lemma serve_healthz:
  assumes "visits (checks_ord e)" "Method r = ''GET''" "Path r = ''/healthz''"
  shows "\<exists>details s'. api_serve metrics e r (serve_api getenv cfg w)
    = (json_response 200 (JObj [(''details'', details),
         (''status'', JStr (if FlyAppName cfg \<noteq> [] \<and> getenv ''FLY_REGION'' \<noteq> [] then StatusHealthy else StatusDegraded))]), s')"
proof -
  let ?st = "local_regions getenv cfg"
  let ?on = "FlyAppName cfg \<noteq> [] \<and> getenv ''FLY_REGION'' \<noteq> []"
  define st where "st n = (if n = ''regions'' \<and> \<not> ?on then StatusDegraded else StatusHealthy)" for n :: string
  have count: "0 < store_count ?st \<longleftrightarrow> ?on"
    by (simp add: local_regions_def store_set_def new_store_def store_count_def gm_len_def)
  have checks: "checks (serve_health ?st :: 'a health_service) = [(''startup'', startup_check), (''regions'', regions_check ?st)]"
    by (simp add: serve_health_def register_def new_service_def)
  obtain msg where "\<forall>(n, c)\<in>set (checks (serve_health ?st)). answers w c (st n) (msg n)"
  proof
    show "\<forall>(n, c)\<in>set (checks (serve_health ?st)). answers w c (st n)
        ((\<lambda>n. if n = ''startup'' then ''service is running'' else snd (the (fst (regions_check ?st w)))) n)"
      using count by (simp add: checks answers_def startup_check_def regions_check_def st_def)
  qed
  from healthz_answer [OF assms(1,2) this] obtain results s' where
    h: "healthz (checks_ord e) r (serve_health ?st, w) = (Some (json_response
        (if \<exists>(n, c)\<in>set (checks (serve_health ?st :: 'a health_service)). severity_of (st n) = Unhealthy then 503 else 200)
        (JObj [(''details'', json_string_map results), (''status'', JStr (get_status s'))])), s', w)"
    and status: "get_status s' = status_of (Max (insert Healthy ((\<lambda>(n, c). severity_of (st n)) ` set (checks (serve_health ?st :: 'a health_service)))))"
    by blast
  have sev: "severity_of (st n) = (if n = ''regions'' \<and> \<not> ?on then Degraded else Healthy)" for n
    by (simp add: st_def severity_of_def statuses)
  have "get_status s' = (if ?on then StatusHealthy else StatusDegraded)"
    unfolding status by (simp add: checks sev max_def less_eq_severity_def)
  moreover have "\<not> (\<exists>(n, c)\<in>set (checks (serve_health ?st :: 'a health_service)). severity_of (st n) = Unhealthy)"
    by (auto simp: sev split: if_splits)
  moreover have "healthService (serve_api getenv cfg w) = serve_health ?st" "outside (serve_api getenv cfg w) = w"
    by (simp_all add: serve_api_def new_api_def Let_def)
  ultimately show ?thesis
    using h assms(3)
    by (intro exI [of _ "json_string_map results"]) (simp add: api_serve_def with_middleware_def route_healthz [OF mux_routes(3)] on_health_def)
qed

lemma serve_healthz_witness:
  "\<exists>details s'. api_serve (\<lambda>r s. (None, s)) (env_at 0)
      (get_request ''/healthz'') (serve_api (\<lambda>n. []) fly_config ())
    = (json_response 200 (JObj [(''details'', details), (''status'', JStr ''degraded'')]), s')"
  using serve_healthz [of "env_at 0" "get_request ''/healthz''"
      "\<lambda>r s. (None, s)" "\<lambda>n. []" fly_config "()"]
  by (simp add: get_request_def statuses)

text \<open>
  The server does not accept the credentials it issues. Its control API and its TURN callback are
  made from the same secret, but the callback derives the key from the secret where the client uses
  the password, so under a key derivation that separates passwords no credentials of the API
  authenticate, at any time, unless the secret happens to have the 28 characters of a password.
\<close>

lemma served_credentials_rejected:
  assumes "\<And>u p p'. gen u (TURNRealm cfg) p = gen u (TURNRealm cfg) p' \<Longrightarrow> p = p'"
    and "length (TURNSharedSecret cfg) \<noteq> 28"
  shows "let resp = credentials_for now ord (serve_api getenv cfg w) req in
    \<not> authenticates gen (serve_turn_cfg cfg) later (Resp_Username resp) (Resp_Password resp)"
proof -
  have sel: "Realm (serve_turn_cfg cfg) = TURNRealm cfg" "SharedSecret (serve_turn_cfg cfg) = TURNSharedSecret cfg"
    "api_secret (serve_api getenv cfg w) = TURNSharedSecret cfg"
    by (simp_all add: serve_turn_cfg_def serve_api_def new_api_def Let_def)
  obtain v where g: "generate_credentials (SharedSecret (serve_turn_cfg cfg)) (UserID req) v now
      = (Resp_Username (credentials_for now ord (serve_api getenv cfg w) req),
         Resp_Password (credentials_for now ord (serve_api getenv cfg w) req))"
    using credentials_for_generated [of "serve_api getenv cfg w" req now ord] by (simp add: sel)
  show ?thesis
    unfolding Let_def
    by (rule issued_password_fails [THEN conjunct1, OF _ g]) (use assms in \<open>auto simp: sel\<close>)
qed

lemma served_credentials_rejected_witness:
  "\<not> authenticates (\<lambda>u r p. bytes_of (u @ '':'' @ r @ '':'' @ p)) (serve_turn_cfg fly_config) 0
     (Resp_Username (credentials_for 0 rev (serve_api (\<lambda>n. []) fly_config ()) \<lparr>UserID = ''alice'', Validity = 60\<rparr>))
     (Resp_Password (credentials_for 0 rev (serve_api (\<lambda>n. []) fly_config ()) \<lparr>UserID = ''alice'', Validity = 60\<rparr>))"
  using served_credentials_rejected [of "\<lambda>u r p. bytes_of (u @ '':'' @ r @ '':'' @ p)" fly_config 0 rev "\<lambda>n. []" "()"
      "\<lparr>UserID = ''alice'', Validity = 60\<rparr>" 0]
  by (auto dest!: bytes_of_inj simp: fly_config_def Let_def)

section \<open>Properties of the relay\<close>

text \<open>
  Every TLS configuration the relay command makes has exactly one certificate and verifies no
  peer, with the certificate of the two files when both are named and a fresh self-signed one in
  every other case, so a single \<open>--cert\<close> or \<open>--key\<close> is ignored without an error.
\<close>

lemma relay_tls_unverified:
  assumes "build_relay_tls load cr certFile keyFile w = (Inr tls, w')"
  shows "InsecureSkipVerify tls \<and> length (Certificates tls) = 1
    \<and> (if certFile \<noteq> [] \<and> keyFile \<noteq> [] then load certFile keyFile = Inr (hd (Certificates tls)) \<and> w' = w
       else generate_self_signed_cert cr w = (Inr (hd (Certificates tls)), w'))"
  using assms
  by (auto simp: build_relay_tls_def relay_tls_def split: if_splits sum.splits prod.splits)

lemma relay_tls_unverified_witness:
  "InsecureSkipVerify (relay_tls (relay_template 5 6))
    \<and> generate_self_signed_cert sample_crypto 0 = (Inr (relay_template 5 6), 7)"
proof -
  have "build_relay_tls (\<lambda>c k. Inl ''none'') sample_crypto ''cert.pem'' [] 0 = (Inr (relay_tls (relay_template 5 6)), 7)"
    by (simp add: build_relay_tls_def generate_self_signed_cert_def sample_crypto_def Let_def)
  from relay_tls_unverified [OF this] show ?thesis by (simp add: relay_tls_def)
qed

section \<open>Properties of the generators\<close>

text \<open>The host a list of items gives a code: the last item with that code has it.\<close>

definition item_host :: "string \<Rightarrow> string \<Rightarrow> string option" where
  "item_host i code =
     (case split_n2 CHR '':'' (trim_space i) of [a, b] \<Rightarrow> if a = code then Some b else None | _ \<Rightarrow> None)"

fun last_host :: "string list \<Rightarrow> string \<Rightarrow> string option" where
  "last_host [] code = None"
| "last_host (i # is) code = (case last_host is code of Some h \<Rightarrow> Some h | None \<Rightarrow> item_host i code)"

lemma ice_regions_store:
  "ice_regions is st = Inr st' \<Longrightarrow> store_ok st \<Longrightarrow> store_ok st'
     \<and> store_get st' code = (case last_host is code of Some h \<Rightarrow> Some (ice_region code h) | None \<Rightarrow> store_get st code)"
proof (induction "is" arbitrary: st)
  case (Cons i "is")
  show ?case
  proof (cases "trim_space i = []")
    case True
    then have "item_host i code = None" by (simp add: item_host_def split_n2_def)
    with True Cons show ?thesis by (auto split: option.splits)
  next
    case False
    with Cons.prems(1) have "length (split_n2 CHR '':'' (trim_space i)) = 2"
      by (auto simp: Let_def split: if_splits)
    then obtain a b where ab: "split_n2 CHR '':'' (trim_space i) = [a, b]"
      by (auto simp: length_Suc_conv numeral_2_eq_2)
    have "store_ok (store_set (ice_region a b) st)"
      using store_ok_step [OF Cons.prems(2), of "SetRegion (ice_region a b)"] by simp
    with Cons.IH [of "store_set (ice_region a b) st"] Cons.prems(1) False ab show ?thesis
      by (auto simp: Let_def item_host_def store_set_def store_get_def ice_region_def split: option.splits)
  qed
qed simp

text \<open>
  C35: \<open>ice-config --regions\<close>: the configuration has one server for each region code of the list and
  no other, at the host the last item with that code names, for UDP and then TCP; and its
  credentials validate for the user, under the secret, for the next day and not longer.
\<close>

theorem ice_from_regions_exact:
  assumes "ice_from_regions ord now regionsList userID secret tls = Inr c" "visits ord"
    and "in_i64 (unix_sec now + 86400)"
  shows "\<exists>u p. mset c = image_mset (\<lambda>code. let r = ice_region code (the (last_host (split_all CHR '','' regionsList) code)) in
        \<lparr>URLs = [region_url tls ''udp'' r, region_url tls ''tcp'' r], Username = u, Credential = p\<rparr>)
      (mset_set {code. last_host (split_all CHR '','' regionsList) code \<noteq> None})
    \<and> (\<forall>t. validate_credentials t u p secret
         = (if userID \<noteq> [] \<and> unix_sec t \<le> unix_sec now + 86400 then Some userID else None))"
proof -
  let ?items = "split_all CHR '','' regionsList"
  obtain st where st: "ice_regions ?items new_store = Inr st"
    using assms(1) by (auto simp: ice_from_regions_def bind_res_Inr_iff)
  obtain u p where g: "generate_credentials secret userID (24 * hour) now = (u, p)" by fastforce
  have c: "c = generate_ice_config ord st u p tls"
    using assms(1) st g by (simp add: ice_from_regions_def)
  have ok: "store_ok st" using ice_regions_store [OF st store_ok_new] by blast
  have get: "store_get st code = map_option (ice_region code) (last_host ?items code)" for code
    using ice_regions_store [OF st store_ok_new, of code]
    by (simp add: store_get_def new_store_def split: option.splits)
  have "mset c = image_mset (\<lambda>code. let r = ice_region code (the (last_host ?items code)) in
        \<lparr>URLs = [region_url tls ''udp'' r, region_url tls ''tcp'' r], Username = u, Credential = p\<rparr>)
      (mset_set {code. last_host ?items code \<noteq> None})"
  proof -
    have codes: "{code. store_get st code \<noteq> None} = {code. last_host ?items code \<noteq> None}" by (simp add: get)
    have "x \<in># mset_set {code. last_host ?items code \<noteq> None} \<Longrightarrow>
        the (store_get st x) = ice_region x (the (last_host ?items x))" for x
      by (cases "finite {code. last_host ?items code \<noteq> None}") (auto simp: get)
    then show ?thesis
      unfolding c ice_config_of_store [OF assms(2) ok] codes by (intro image_mset_cong) (simp add: Let_def)
  qed
  moreover have "unix_sec (time_add now (24 * hour)) = unix_sec now + 86400"
    using unix_sec_add [of now 86400] by (simp add: dur_units)
  then have "validate_credentials t u p secret
      = (if userID \<noteq> [] \<and> unix_sec t \<le> unix_sec now + 86400 then Some userID else None)" for t
    using credentials_round_trip_eq [OF g] assms(3) by simp
  ultimately show ?thesis by blast
qed

theorem ice_from_regions_exact_witness:
  "\<exists>c u p. ice_from_regions rev 0 ''iad:a, lhr:b,iad:c'' ''alice'' ''s'' True = Inr c
     \<and> mset (map URLs c) = {#[''turns:c:'' @ show_int 5349 @ ''?transport=udp'', ''turns:c:'' @ show_int 5349 @ ''?transport=tcp''],
         [''turns:b:'' @ show_int 5349 @ ''?transport=udp'', ''turns:b:'' @ show_int 5349 @ ''?transport=tcp'']#}
     \<and> validate_credentials 0 u p ''s'' = Some ''alice''"
proof -
  let ?l = "''iad:a, lhr:b,iad:c''"
  have items: "split_all CHR '','' ?l = [''iad:a'', '' lhr:b'', ''iad:c'']" by code_simp
  have trims: "trim_space ''iad:a'' = ''iad:a''" "trim_space '' lhr:b'' = ''lhr:b''" "trim_space ''iad:c'' = ''iad:c''"
    by code_simp+
  have hosts: "last_host [''iad:a'', '' lhr:b'', ''iad:c''] code
      = (if code = ''iad'' then Some ''c'' else if code = ''lhr'' then Some ''b'' else None)" for code
    by (auto simp: item_host_def trims split_n2_def)
  obtain st where "ice_regions [''iad:a'', '' lhr:b'', ''iad:c''] new_store = Inr st"
    by (simp add: trims split_n2_def)
  moreover obtain u0 p0 where "generate_credentials ''s'' ''alice'' (24 * hour) 0 = (u0, p0)" by fastforce
  ultimately obtain c where c: "ice_from_regions rev 0 ?l ''alice'' ''s'' True = Inr c"
    by (simp add: ice_from_regions_def items del: ice_regions.simps)
  have codes: "{code. last_host [''iad:a'', '' lhr:b'', ''iad:c''] code \<noteq> None} = {''iad'', ''lhr''}"
    unfolding hosts by auto
  obtain u p where m: "mset c = image_mset (\<lambda>code. let r = ice_region code (the (last_host (split_all CHR '','' ?l) code)) in
        \<lparr>URLs = [region_url True ''udp'' r, region_url True ''tcp'' r], Username = u, Credential = p\<rparr>)
      (mset_set {code. last_host (split_all CHR '','' ?l) code \<noteq> None})"
    and v: "\<forall>t. validate_credentials t u p ''s''
         = (if ''alice'' \<noteq> [] \<and> unix_sec t \<le> unix_sec 0 + 86400 then Some ''alice'' else None)"
    using ice_from_regions_exact [OF c visits_rev] by (auto simp: in_i64_iff unix_sec_def)
  from arg_cong [OF m [unfolded items, unfolded codes, unfolded hosts], of "image_mset URLs"] have "mset (map URLs c) =
      {#[''turns:c:'' @ show_int 5349 @ ''?transport=udp'', ''turns:c:'' @ show_int 5349 @ ''?transport=tcp''],
         [''turns:b:'' @ show_int 5349 @ ''?transport=udp'', ''turns:b:'' @ show_int 5349 @ ''?transport=tcp'']#}"
    by (simp add: Let_def ice_region_def region_url_def region_scheme_def region_port_def)
  moreover have "validate_credentials 0 u p ''s'' = Some ''alice''" using v by (simp add: unix_sec_def)
  ultimately show ?thesis using c by blast
qed

lemma probe_packet_counts:
  "probe_packet env sz i (r, w) = (r', w') \<Longrightarrow> Sent r' = wrap64 (Sent r + 1) \<and> Received r' = wrap64 (Received r + 1)"
  by (auto simp: probe_packet_def Let_def split: prod.splits)

lemma probe_packets:
  assumes "int n < 2 ^ 63" "fold (probe_packet env sz) [0..<n] (new_probe_result, w) = (r, w')"
  shows "Sent r = int n \<and> Received r = int n"
  using assms
proof (induction n arbitrary: r w')
  case (Suc n)
  obtain r1 w1 where f: "fold (probe_packet env sz) [0..<n] (new_probe_result, w) = (r1, w1)" by fastforce
  with Suc have "Sent r1 = int n" "Received r1 = int n" by auto
  moreover have "wrap64 (int n + 1) = int n + 1"
    using Suc.prems(1) by (intro wrap64_id) (simp add: in_i64_iff)
  moreover have "probe_packet env sz n (r1, w1) = (r, w')" using Suc.prems(2) f by simp
  ultimately show ?case using probe_packet_counts [of env sz n r1 w1 r w'] by simp
qed (simp add: new_probe_result_def)

text \<open>
  The latency probe measures no loss: whatever the clock shows and whatever the network would do,
  a probe of n packets reports that n were sent, that n were received, and a loss of zero.
\<close>

lemma probe_reports_no_loss:
  assumes "0 \<le> packetSize" "n < 2 ^ 63"
  shows "\<exists>r w'. run_probe env 0 packetSize n w = (Latency r, w')
    \<and> Sent r = max 0 n \<and> Received r = max 0 n \<and> probe_loss r = 0"
proof -
  obtain r w' where f: "fold (probe_packet env packetSize) [0..<nat n] (new_probe_result, w) = (r, w')" by fastforce
  have "Sent r = int (nat n) \<and> Received r = int (nat n)"
    by (rule probe_packets [OF _ f]) (use assms(2) in simp)
  with f assms(1) show ?thesis by (auto simp: run_probe_def probe_loss_def max_def)
qed

lemma probe_reports_no_loss_witness:
  "\<exists>r w'. run_probe \<lparr>probe_clock = (\<lambda>w. (w, w + 1)), probe_sleep = (\<lambda>d w. w + d)\<rparr> 0 1200 10 0 = (Latency r, w')
     \<and> Sent r = 10 \<and> Received r = 10 \<and> probe_loss r = 0"
  using probe_reports_no_loss [of 1200 10 "\<lparr>probe_clock = (\<lambda>w. (w, w + 1)), probe_sleep = (\<lambda>d w. w + d)\<rparr>" 0] by simp

end
