(* ===== verification/Serve_Run.thy ===== *)
theory Serve_Run
  imports Cli_Serve
begin

text \<open>
  A run of \<open>serve-turn\<close> (\<open>runServeTurn\<close> in \<open>cmd/turnfly/main.go\<close>): three goroutines under one
  \<open>errgroup\<close>, the TURN server, the HTTP server of the control API and the one that shuts the latter
  down, as a labelled step relation.  A step is what one goroutine does between two points at which
  it can block; a signal, a request to the API and a question of the TURN library to the
  authentication callback are steps too.  The group is the documented one: the first error of a
  goroutine is the group's and cancels its context, and \<open>Wait\<close> returns when all have ended.
\<close>

section \<open>State\<close>

datatype ('p, 't) turn_phase = TurnReady | TurnServing "('p, 't) turn_server" | TurnOver
datatype http_phase = HttpReady | HttpServing | HttpOver
datatype stop_phase = StopWaiting | StopCalling | StopOver

text \<open>
  What the run works on besides the state: the network under the TURN server with the Pion library,
  the listening of the HTTP server, the Prometheus handler, and Pion's key derivation.
\<close>

record ('a, 'p, 't, 'w) serve_env =
  pion :: "('a, 'p, 't, 'w) turn_net"
  http_listen :: "string \<Rightarrow> 'w \<Rightarrow> string option \<times> 'w"
  prometheus :: "'w api handler"
  auth_key :: "string \<Rightarrow> string \<Rightarrow> string \<Rightarrow> byte list"

text \<open>The world is the one the control API keeps for its health checks.\<close>

record ('p, 't, 'w) serving =
  turn_go :: "('p, 't) turn_phase"
  http_go :: http_phase
  stop_go :: stop_phase
  group_cancelled :: bool
  shutting_down :: bool
  ends :: "serve_error option list"
  auth_failures :: nat
  control :: "'w api"

abbreviation world :: "('p, 't, 'w) serving \<Rightarrow> 'w" where
  "world s \<equiv> outside (control s)"

definition in_world :: "'w \<Rightarrow> ('p, 't, 'w) serving \<Rightarrow> ('p, 't, 'w) serving" where
  "in_world w s = s\<lparr>control := (control s)\<lparr>outside := w\<rparr>\<rparr>"

definition goroutine_ends :: "serve_error option \<Rightarrow> ('p, 't, 'w) serving \<Rightarrow> ('p, 't, 'w) serving" where
  "goroutine_ends r s = s\<lparr>ends := ends s @ [r], group_cancelled := group_cancelled s \<or> r \<noteq> None\<rparr>"

definition serve_boot :: "env \<Rightarrow> config \<Rightarrow> 'w \<Rightarrow> ('p, 't, 'w) serving" where
  "serve_boot getenv cfg w =
     \<lparr>turn_go = TurnReady, http_go = HttpReady, stop_go = StopWaiting, group_cancelled = False,
      shutting_down = False, ends = [], auth_failures = 0, control = serve_api getenv cfg w\<rparr>"

text \<open>The command up to the start of the goroutines; \<open>None\<close> is the panic of a refused metric.\<close>

definition serve_turn_command ::
  "(metric \<Rightarrow> 'r \<Rightarrow> 'r option) \<Rightarrow> 'r \<Rightarrow> env \<Rightarrow> serve_turn_flags \<Rightarrow> 'w
   \<Rightarrow> (serve_error + config \<times> ('p, 't, 'w) serving) option" where
  "serve_turn_command add r getenv f w =
     (case serve_turn_config getenv f of
        Inl es \<Rightarrow> Some (Inl (InvalidConfiguration es))
      | Inr cfg \<Rightarrow> if fst (register_metrics add r) then Some (Inr (cfg, serve_boot getenv cfg w)) else None)"

definition finished :: "('p, 't, 'w) serving \<Rightarrow> bool" where
  "finished s \<longleftrightarrow> turn_go s = TurnOver \<and> http_go s = HttpOver \<and> stop_go s = StopOver"

text \<open>The status \<open>main\<close> exits with, whatever the command.\<close>

definition exit_status :: "'e option \<Rightarrow> int" where
  "exit_status err = (case err of None \<Rightarrow> 0 | Some e \<Rightarrow> 1)"

section \<open>Steps\<close>

datatype serve_label =
    Signal
  | TurnUp
  | TurnFailed turn_error
  | TurnStopped "turn_error option"
  | HttpUp
  | HttpFailed string
  | HttpClosed
  | Stopping
  | Stopped "string option"
  | Answered http_request http_response
  | Asked gotime string "byte list option"

text \<open>
  \<open>ListenAndServe\<close> fails to listen, fails to accept, or ends with \<open>ErrServerClosed\<close> once \<open>Shutdown\<close>
  was called, also when that happens before it listens.  \<open>Shutdown\<close> ends with no error, with the
  error of closing the listener, or at the deadline of its ten seconds.  Requests are answered as
  long as the process lives, those in flight during a shutdown included.
\<close>

inductive serve_step ::
  "config \<Rightarrow> ('a, 'p, 't, 'w) serve_env \<Rightarrow> serve_label \<Rightarrow> ('p, 't, 'w) serving \<Rightarrow> ('p, 't, 'w) serving \<Rightarrow> bool"
  for cfg E
where
  signal: "\<not> group_cancelled s \<Longrightarrow> serve_step cfg E Signal s (s\<lparr>group_cancelled := True\<rparr>)"
| turn_up: "turn_go s = TurnReady \<Longrightarrow> start_up (pion E) (new_server (serve_turn_cfg cfg)) (world s) = (None, srv, w) \<Longrightarrow>
     serve_step cfg E TurnUp s (in_world w s\<lparr>turn_go := TurnServing srv\<rparr>)"
| turn_failed: "turn_go s = TurnReady \<Longrightarrow> start_up (pion E) (new_server (serve_turn_cfg cfg)) (world s) = (Some e, srv, w) \<Longrightarrow>
     serve_step cfg E (TurnFailed e) s (goroutine_ends (Some (TurnServe e)) (in_world w s\<lparr>turn_go := TurnOver\<rparr>))"
| turn_stopped: "turn_go s = TurnServing srv \<Longrightarrow> group_cancelled s \<Longrightarrow> shutdown (pion E) srv (world s) = (r, w) \<Longrightarrow>
     serve_step cfg E (TurnStopped r) s (goroutine_ends (map_option TurnServe r) (in_world w s\<lparr>turn_go := TurnOver\<rparr>))"
| http_up: "http_go s = HttpReady \<Longrightarrow> http_listen E (http_addr cfg) (world s) = (None, w) \<Longrightarrow>
     serve_step cfg E HttpUp s (in_world w s\<lparr>http_go := HttpServing\<rparr>)"
| http_no_listener: "http_go s = HttpReady \<Longrightarrow> http_listen E (http_addr cfg) (world s) = (Some e, w) \<Longrightarrow>
     serve_step cfg E (HttpFailed e) s (goroutine_ends (http_goroutine (Some (OtherError e))) (in_world w s\<lparr>http_go := HttpOver\<rparr>))"
| http_failed: "http_go s = HttpServing \<Longrightarrow> \<not> shutting_down s \<Longrightarrow>
     serve_step cfg E (HttpFailed e) s (goroutine_ends (http_goroutine (Some (OtherError e))) (s\<lparr>http_go := HttpOver\<rparr>))"
| http_closed: "http_go s \<noteq> HttpOver \<Longrightarrow> shutting_down s \<Longrightarrow>
     serve_step cfg E HttpClosed s (goroutine_ends (http_goroutine (Some ServerClosed)) (s\<lparr>http_go := HttpOver\<rparr>))"
| stopping: "stop_go s = StopWaiting \<Longrightarrow> group_cancelled s \<Longrightarrow>
     serve_step cfg E Stopping s (s\<lparr>stop_go := StopCalling, shutting_down := True\<rparr>)"
| stopped: "stop_go s = StopCalling \<Longrightarrow>
     serve_step cfg E (Stopped r) s (goroutine_ends (map_option (HttpShutdown \<circ> OtherError) r) (s\<lparr>stop_go := StopOver\<rparr>))"
| answered: "http_go s \<noteq> HttpReady \<Longrightarrow> api_serve (prometheus E) e q (control s) = (resp, c) \<Longrightarrow>
     serve_step cfg E (Answered q resp) s (s\<lparr>control := c\<rparr>)"
| asked: "turn_go s = TurnServing srv \<Longrightarrow> auth_handler (auth_key E) (server_cfg srv) now u (auth_failures s) = (key, n) \<Longrightarrow>
     serve_step cfg E (Asked now u key) s (s\<lparr>auth_failures := n\<rparr>)"

inductive serve_trace ::
  "config \<Rightarrow> ('a, 'p, 't, 'w) serve_env \<Rightarrow> serve_label list \<Rightarrow> ('p, 't, 'w) serving \<Rightarrow> ('p, 't, 'w) serving \<Rightarrow> bool"
  for cfg E
where
  serve_done: "serve_trace cfg E [] s s"
| serve_more: "serve_step cfg E l s t \<Longrightarrow> serve_trace cfg E ls t u \<Longrightarrow> serve_trace cfg E (l # ls) s u"

inductive_simps serve_trace_Nil: "serve_trace cfg E [] s t"
inductive_simps serve_trace_Cons: "serve_trace cfg E (l # ls) s u"

interpretation serve_machine: labelled_machine "serve_step cfg E" "serve_trace cfg E"
  for cfg :: config and E :: "('a, 'p, 't, 'w) serve_env"
  by unfold_locales (auto simp: serve_trace_Nil serve_trace_Cons)

text \<open>Steps of the process itself, other than answering the network.\<close>

fun lifecycle :: "serve_label \<Rightarrow> bool" where
  "lifecycle (Answered q r) = False"
| "lifecycle (Asked now u k) = False"
| "lifecycle l = True"

lemmas serve_ops = goroutine_ends_def in_world_def finished_def

section \<open>Invariants\<close>

text \<open>How many lifecycle steps are left at most.\<close>

definition steps_left :: "('p, 't, 'w) serving \<Rightarrow> nat" where
  "steps_left s =
     (if group_cancelled s then 0 else 1)
     + (case turn_go s of TurnReady \<Rightarrow> 2 | TurnServing srv \<Rightarrow> 1 | TurnOver \<Rightarrow> 0)
     + (case http_go s of HttpReady \<Rightarrow> 2 | HttpServing \<Rightarrow> 1 | HttpOver \<Rightarrow> 0)
     + (case stop_go s of StopWaiting \<Rightarrow> 2 | StopCalling \<Rightarrow> 1 | StopOver \<Rightarrow> 0)"

lemma step_decreases:
  "serve_step cfg E l s t \<Longrightarrow> (if lifecycle l then 1 else 0 :: nat) + steps_left t \<le> steps_left s"
  by (induction rule: serve_step.induct) (auto simp: steps_left_def serve_ops split: http_phase.splits)

lemma trace_decreases:
  assumes "serve_trace cfg E ls s t"
  shows "length (filter lifecycle ls) + steps_left t \<le> steps_left s"
proof -
  have "(\<Sum>l\<leftarrow>ls. if lifecycle l then 1 else 0 :: nat) = length (filter lifecycle ls)" by (induction ls) auto
  moreover have "(\<Sum>l\<leftarrow>ls. if lifecycle l then 1 else 0 :: nat) + steps_left t \<le> steps_left s"
    by (rule serve_machine.trace_cost [OF _ assms]) (rule step_decreases)
  ultimately show ?thesis by simp
qed

definition over :: "bool \<Rightarrow> nat" where
  "over b = (if b then 1 else 0)"

text \<open>What holds between the goroutines: who has ended, and what cancels and closes what.\<close>

definition serving_ok :: "('p, 't, 'w) serving \<Rightarrow> bool" where
  "serving_ok s \<longleftrightarrow>
     length (ends s) = over (turn_go s = TurnOver) + over (http_go s = HttpOver) + over (stop_go s = StopOver)
     \<and> (shutting_down s \<longleftrightarrow> stop_go s \<noteq> StopWaiting)
     \<and> (shutting_down s \<longrightarrow> group_cancelled s)
     \<and> ((\<exists>e. Some e \<in> set (ends s)) \<longrightarrow> group_cancelled s)
     \<and> Some (HttpShutdown ContextCanceled) \<notin> set (ends s) \<and> Some (HttpShutdown ServerClosed) \<notin> set (ends s)"

lemma serving_ok_boot: "serving_ok (serve_boot getenv cfg w)"
  by (simp add: serving_ok_def serve_boot_def over_def)

lemma serving_ok_step: "serve_step cfg E l s t \<Longrightarrow> serving_ok s \<Longrightarrow> serving_ok t"
  by (induction rule: serve_step.induct) (auto simp: serving_ok_def serve_ops over_def http_goroutine_def map_option_case split: option.splits)

lemma trace_ok: "serve_trace cfg E ls s t \<Longrightarrow> serving_ok s \<Longrightarrow> serving_ok t"
  by (rule serve_machine.trace_keeps [OF serving_ok_step])

text \<open>Only a signal or an error of a goroutine cancels the group.\<close>

lemma step_cancels:
  "serve_step cfg E l s t \<Longrightarrow>
     (\<exists>more. ends t = ends s @ more) \<and> (group_cancelled s \<or> l = Signal \<longrightarrow> group_cancelled t)
     \<and> (group_cancelled t \<longrightarrow> group_cancelled s \<or> l = Signal \<or> (\<exists>e. Some e \<in> set (ends t)))"
  by (induction rule: serve_step.induct) (auto simp: serve_ops)

lemma trace_cancels:
  "serve_trace cfg E ls s t \<Longrightarrow>
     set (ends s) \<subseteq> set (ends t) \<and> (group_cancelled s \<or> Signal \<in> set ls \<longrightarrow> group_cancelled t)
     \<and> (group_cancelled t \<longrightarrow> group_cancelled s \<or> Signal \<in> set ls \<or> (\<exists>e. Some e \<in> set (ends t)))"
proof (induction rule: serve_trace.induct)
  case (serve_more l s t ls u)
  from step_cancels [OF serve_more.hyps(1)] serve_more.IH show ?case by auto
qed simp

lemma turn_progress:
  "turn_go s = TurnReady \<Longrightarrow> \<exists>l t. lifecycle l \<and> l \<noteq> Signal \<and> serve_step cfg E l s t"
  "turn_go s = TurnServing srv \<Longrightarrow> group_cancelled s \<Longrightarrow> \<exists>l t. lifecycle l \<and> l \<noteq> Signal \<and> serve_step cfg E l s t"
proof -
  assume r: "turn_go s = TurnReady"
  obtain e srv w where u: "start_up (pion E) (new_server (serve_turn_cfg cfg)) (world s) = (e, srv, w)"
    by (metis prod_cases3)
  show "\<exists>l t. lifecycle l \<and> l \<noteq> Signal \<and> serve_step cfg E l s t"
  proof (cases e)
    case None
    with serve_step.turn_up [OF r, of E cfg srv w] u show ?thesis
      by (intro exI [of _ TurnUp] exI) simp
  next
    case (Some er)
    with serve_step.turn_failed [OF r, of E cfg er srv w] u show ?thesis
      by (intro exI [of _ "TurnFailed er"] exI) simp
  qed
next
  assume r: "turn_go s = TurnServing srv" "group_cancelled s"
  obtain r' w where "shutdown (pion E) srv (world s) = (r', w)" by fastforce
  from serve_step.turn_stopped [OF r this] show "\<exists>l t. lifecycle l \<and> l \<noteq> Signal \<and> serve_step cfg E l s t"
    by (intro exI [of _ "TurnStopped r'"] exI) simp
qed

text \<open>A cancelled process that has not finished is not stuck.\<close>

lemma progress:
  assumes "serving_ok s" "group_cancelled s" "\<not> finished s"
  shows "\<exists>l t. lifecycle l \<and> l \<noteq> Signal \<and> serve_step cfg E l s t"
proof (cases "stop_go s")
  case StopWaiting
  from serve_step.stopping [OF this assms(2), of cfg E] show ?thesis
    by (intro exI [of _ Stopping] exI) simp
next
  case StopCalling
  from serve_step.stopped [OF this, of cfg E None] show ?thesis
    by (intro exI [of _ "Stopped None"] exI) simp
next
  case StopOver
  show ?thesis
  proof (cases "http_go s = HttpOver")
    case False
    moreover have "shutting_down s" using assms(1) StopOver by (simp add: serving_ok_def)
    ultimately have "serve_step cfg E HttpClosed s (goroutine_ends (http_goroutine (Some ServerClosed)) (s\<lparr>http_go := HttpOver\<rparr>))"
      by (rule serve_step.http_closed)
    then show ?thesis by (intro exI [of _ HttpClosed] exI) simp
  next
    case True
    with StopOver assms(3) have "turn_go s \<noteq> TurnOver" by (simp add: finished_def)
    with turn_progress [where s = s] assms(2) show ?thesis by (cases "turn_go s") blast+
  qed
qed

lemma group_wait_None: "group_wait rs = None \<longleftrightarrow> (\<forall>r\<in>set rs. r = None)"
  by (induction rs rule: group_wait.induct) auto

lemma group_wait_in: "group_wait rs = Some e \<Longrightarrow> Some e \<in> set rs"
  by (induction rs rule: group_wait.induct) auto

lemma serve_outcome_ok: "serving_ok s \<Longrightarrow> serve_outcome (ends s) = group_wait (ends s)"
  by (auto simp: serve_outcome_def serving_ok_def dest: group_wait_in split: option.splits)

text \<open>What a goroutine ends with, by the label of its last step.\<close>

fun label_ends :: "serve_label \<Rightarrow> serve_error option list" where
  "label_ends (TurnFailed e) = [Some (TurnServe e)]"
| "label_ends (TurnStopped r) = [map_option TurnServe r]"
| "label_ends (HttpFailed e) = [Some (HttpServe (OtherError e))]"
| "label_ends HttpClosed = [None]"
| "label_ends (Stopped r) = [map_option (HttpShutdown \<circ> OtherError) r]"
| "label_ends l = []"

lemma step_ends: "serve_step cfg E l s t \<Longrightarrow> ends t = ends s @ label_ends l"
  by (induction rule: serve_step.induct) (auto simp: serve_ops http_goroutine_def)

lemma trace_ends: "serve_trace cfg E ls s t \<Longrightarrow> ends t = ends s @ concat (map label_ends ls)"
  by (rule serve_machine.trace_log [OF step_ends])

text \<open>
  Pion documents that closing the server closes the connections it manages, the listener among them,
  and Go's \<open>net\<close> that closing a connection a second time is an error.
\<close>

definition closes_listener :: "('a, 'p, 't, 'w) turn_net \<Rightarrow> bool" where
  "closes_listener net \<longleftrightarrow>
     (\<forall>realm p w t w1 w2 w3. new_turn_server net realm p w = (Inr t, w1) \<and> close_turn net t w2 = (None, w3)
        \<longrightarrow> fst (close_udp net p w3) \<noteq> None)"

definition turn_ends_badly :: "config \<Rightarrow> ('a, 'p, 't, 'w) serve_env \<Rightarrow> ('p, 't, 'w) serving \<Rightarrow> bool" where
  "turn_ends_badly cfg E s \<longleftrightarrow>
     (case turn_go s of
        TurnReady \<Rightarrow> True
      | TurnServing srv \<Rightarrow> (\<forall>w. fst (shutdown (pion E) srv w) \<noteq> None)
      | TurnOver \<Rightarrow> \<exists>e. Some (TurnServe e) \<in> set (ends s))"

lemma started_shuts_down_badly:
  assumes "closes_listener net" "start_up net (new_server c) w = (None, srv, w')"
  shows "fst (shutdown net srv w2) \<noteq> None"
proof -
  obtain p t w1 where srv: "udpListener srv = Some p" "turnServer srv = Some t"
    and n: "new_turn_server net (Realm c) p w1 = (Inr t, w')"
    using start_up_serves [OF assms(2)] by blast
  obtain r w3 where c: "close_turn net t w2 = (r, w3)" by fastforce
  show ?thesis
  proof (cases r)
    case None
    then have "fst (close_udp net p w3) \<noteq> None"
      using assms(1) n c unfolding closes_listener_def by blast
    with None c srv show ?thesis by (cases "close_udp net p w3") (simp add: shutdown_def Let_def)
  next
    case (Some e)
    with c srv show ?thesis by (simp add: shutdown_def Let_def)
  qed
qed

lemma badly_mono:
  "turn_ends_badly cfg E s \<Longrightarrow> turn_go t = turn_go s \<Longrightarrow> set (ends s) \<subseteq> set (ends t) \<Longrightarrow> turn_ends_badly cfg E t"
  by (auto simp: turn_ends_badly_def split: turn_phase.splits)

lemma step_turn_ends_badly:
  assumes "closes_listener (pion E)" "serve_step cfg E l t u" "turn_ends_badly cfg E t"
  shows "turn_ends_badly cfg E u"
  using assms(2)
proof cases
  case (turn_up srv w)
  then show ?thesis
    using started_shuts_down_badly [OF assms(1) turn_up(4)] by (simp add: turn_ends_badly_def serve_ops)
next
  case (turn_stopped srv r w)
  have "\<forall>w. fst (shutdown (pion E) srv w) \<noteq> None" using assms(3) turn_stopped(3) by (simp add: turn_ends_badly_def)
  from this [rule_format, of "world t"] turn_stopped(5) obtain e where "r = Some e" by auto
  then show ?thesis using turn_stopped(2) by (auto simp: turn_ends_badly_def serve_ops)
next
  case (turn_failed e srv w)
  then show ?thesis by (auto simp: turn_ends_badly_def serve_ops)
qed (use assms(3) in \<open>auto simp: serve_ops elim!: badly_mono\<close>)

section \<open>What the API issues and what the callback accepts\<close>

lemma api_serve_secret:
  assumes "\<And>r c. api_secret (snd (prom r c)) = api_secret c"
  shows "api_secret (snd (api_serve prom e q c)) = api_secret c"
proof -
  have "api_secret (snd (on_health h q c)) = api_secret c" for h
    by (simp add: on_health_def split: prod.split)
  moreover have "api_secret (snd (handle_ice_report q c)) = api_secret c"
    by (simp add: handle_ice_report_def split: option.split)
  ultimately show ?thesis using assms by (simp add: api_serve_def route_def split: mux_verdict.split)
qed

lemma issued_password:
  assumes "mux_target q = Dispatch [''v1'', ''credentials'']" "api_serve prom e q c = (json_response 200 (credentials_json cr), c')"
  shows "Resp_Password cr = compute_password (api_secret c) (Resp_Username cr)"
proof -
  from assms have "handle_credentials (now_api e) (regions_ord e) q c = (Some (json_response 200 (credentials_json cr)), c')"
    by (auto simp: api_serve_def with_middleware_def route_credentials json_response_def write_json_error_def
        split: prod.splits option.splits)
  then obtain req where "credentials_json cr = credentials_json (credentials_for (now_api e) (regions_ord e) c req)"
    by (auto simp: handle_credentials_def json_response_def write_json_error_def intro: sym split: if_splits option.splits)
  then have "Resp_Username cr = Resp_Username (credentials_for (now_api e) (regions_ord e) c req)"
    "Resp_Password cr = Resp_Password (credentials_for (now_api e) (regions_ord e) c req)"
    by (simp_all add: credentials_json_def)
  with credentials_for_generated [of c req "now_api e" "regions_ord e"] show ?thesis
    by (auto simp: generate_credentials_def Let_def)
qed

definition key_ok :: "config \<Rightarrow> ('a, 'p, 't, 'w) serve_env \<Rightarrow> serve_label \<Rightarrow> bool" where
  "key_ok cfg E l \<longleftrightarrow>
     (case l of
        Asked now u key \<Rightarrow> key = None \<or> key = Some (auth_key E u (TURNRealm cfg) (TURNSharedSecret cfg))
      | Answered q r \<Rightarrow> (\<forall>cr. mux_target q = Dispatch [''v1'', ''credentials''] \<longrightarrow> r = json_response 200 (credentials_json cr)
          \<longrightarrow> Resp_Password cr = compute_password (TURNSharedSecret cfg) (Resp_Username cr))
      | _ \<Rightarrow> True)"

definition secrets_kept :: "config \<Rightarrow> ('p, 't, 'w) serving \<Rightarrow> bool" where
  "secrets_kept cfg s \<longleftrightarrow> api_secret (control s) = TURNSharedSecret cfg
     \<and> (\<forall>srv. turn_go s = TurnServing srv \<longrightarrow> server_cfg srv = serve_turn_cfg cfg)"

lemma secrets_step:
  assumes "serve_step cfg E l s t" "secrets_kept cfg s" "\<And>r c. api_secret (snd (prometheus E r c)) = api_secret c"
  shows "secrets_kept cfg t \<and> key_ok cfg E l"
  using assms(1)
proof cases
  case (turn_up srv w)
  then show ?thesis
    using assms(2) start_up_serves [OF turn_up(4)] by (auto simp: secrets_kept_def key_ok_def serve_ops)
next
  case (answered e q resp c)
  have "api_secret c = api_secret (control s)"
    using api_serve_secret [of "prometheus E" e q "control s"] answered(4) assms(3) by simp
  then show ?thesis
    using assms(2) answered issued_password [of q "prometheus E" e "control s"]
    by (auto simp: secrets_kept_def key_ok_def)
next
  case (asked srv now u key n)
  then show ?thesis
    using assms(2) by (auto simp: secrets_kept_def key_ok_def auth_handler_def serve_turn_cfg_def split: option.splits)
qed (use assms(2) in \<open>auto simp: secrets_kept_def key_ok_def serve_ops\<close>)

lemma trace_secrets:
  assumes "\<And>r c. api_secret (snd (prometheus E r c)) = api_secret c"
  shows "serve_trace cfg E ls s t \<Longrightarrow> secrets_kept cfg s \<Longrightarrow> secrets_kept cfg t \<and> list_all (key_ok cfg E) ls"
  by (rule serve_machine.trace_labels) (use secrets_step assms in blast)+

lemma secrets_boot: "secrets_kept cfg (serve_boot getenv cfg w)"
  by (simp add: secrets_kept_def serve_boot_def serve_api_def new_api_def Let_def)

section \<open>A run\<close>

text \<open>A network that keeps the list of its open sockets, and closes none twice.\<close>

definition socket_net :: "(string, nat, nat, nat list) turn_net" where
  "socket_net =
     \<lparr>resolve_udp = (\<lambda>a w. (Inr a, w)), listen_udp = (\<lambda>a w. (Inr 3478, 3478 # w)),
      new_turn_server = (\<lambda>r p w. (Inr p, w)), wait_done = (\<lambda>w. w),
      close_turn = (\<lambda>t w. (None, removeAll t w)),
      close_udp = (\<lambda>p w. if p \<in> set w then (None, removeAll p w) else (Some ''use of closed network connection'', w))\<rparr>"

definition sample_serve :: "(string, nat, nat, nat list) serve_env" where
  "sample_serve =
     \<lparr>pion = socket_net, http_listen = (\<lambda>a w. (None, w)), prometheus = (\<lambda>r s. (None, s)),
      auth_key = (\<lambda>u r p. bytes_of (u @ '':'' @ r @ '':'' @ p))\<rparr>"

lemma trace_then:
  "serve_trace cfg E ls s t \<Longrightarrow> serve_step cfg E l t u \<Longrightarrow> serve_trace cfg E (ls @ [l]) s u"
  by (auto simp: serve_machine.trace_snoc)

lemmas sample_serve_defs = sample_serve_def socket_net_def start_up_def new_server_def shutdown_def serve_ops
  serve_boot_def http_goroutine_def serve_turn_cfg_def Let_def

text \<open>Both servers come up, a request is answered and a user asked for; then a signal stops them.\<close>

lemma sample_up:
  obtains s where "serve_trace fly_config sample_serve [TurnUp, HttpUp] (serve_boot getenv fly_config []) s"
    "turn_go s = TurnServing \<lparr>server_cfg = serve_turn_cfg fly_config, udpListener = Some 3478, turnServer = Some 3478\<rparr>"
    "http_go s = HttpServing" "stop_go s = StopWaiting" "\<not> group_cancelled s" "\<not> shutting_down s" "ends s = []"
    "control s = (serve_api getenv fly_config [3478])"
proof -
  let ?srv = "\<lparr>server_cfg = serve_turn_cfg fly_config, udpListener = Some (3478 :: nat), turnServer = Some 3478\<rparr>"
  let ?b = "serve_boot getenv fly_config [] :: (nat, nat, nat list) serving"
  let ?u = "in_world [3478] ?b\<lparr>turn_go := TurnServing ?srv\<rparr>"
  let ?s = "in_world [3478] ?u\<lparr>http_go := HttpServing\<rparr>"
  have "serve_step fly_config sample_serve TurnUp ?b ?u"
    by (rule serve_step.turn_up) (simp_all add: sample_serve_defs serve_api_def new_api_def)
  from trace_then [OF serve_done this]
  have t: "serve_trace fly_config sample_serve [TurnUp] ?b ?u" by simp
  have "serve_step fly_config sample_serve HttpUp ?u ?s"
    by (rule serve_step.http_up) (simp_all add: sample_serve_defs)
  from trace_then [OF t this] have "serve_trace fly_config sample_serve [TurnUp, HttpUp] ?b ?s" by simp
  then show thesis by (rule that) (simp_all add: serve_ops serve_boot_def serve_api_def new_api_def Let_def)
qed

lemma socket_shutdown:
  "shutdown socket_net \<lparr>server_cfg = c, udpListener = Some 3478, turnServer = Some 3478\<rparr> [3478]
    = (Some (CloseUDPListener ''use of closed network connection''), [])"
  by (simp add: shutdown_def socket_net_def Let_def)

lemma sample_run:
  obtains s where "serve_trace fly_config sample_serve
      [TurnUp, HttpUp, Signal, Stopping, HttpClosed, Stopped None,
       TurnStopped (Some (CloseUDPListener ''use of closed network connection''))] (serve_boot getenv fly_config []) s"
    "finished s"
proof -
  obtain s where s: "serve_trace fly_config sample_serve [TurnUp, HttpUp] (serve_boot getenv fly_config []) s"
    "turn_go s = TurnServing \<lparr>server_cfg = serve_turn_cfg fly_config, udpListener = Some 3478, turnServer = Some 3478\<rparr>"
    "http_go s = HttpServing" "stop_go s = StopWaiting" "\<not> group_cancelled s" "\<not> shutting_down s"
    "control s = serve_api getenv fly_config [3478]"
    using sample_up by metis
  define s1 where "s1 = s\<lparr>group_cancelled := True\<rparr>"
  define s2 where "s2 = s1\<lparr>stop_go := StopCalling, shutting_down := True\<rparr>"
  define s3 where "s3 = goroutine_ends (http_goroutine (Some ServerClosed)) (s2\<lparr>http_go := HttpOver\<rparr>)"
  define s4 where "s4 = goroutine_ends (map_option (HttpShutdown \<circ> OtherError) None) (s3\<lparr>stop_go := StopOver\<rparr>)"
  note states = s1_def s2_def s3_def s4_def serve_ops http_goroutine_def
  have 1: "serve_step fly_config sample_serve Signal s s1"
    unfolding s1_def by (rule serve_step.signal) (simp add: s)
  have 2: "serve_step fly_config sample_serve Stopping s1 s2"
    unfolding s2_def by (rule serve_step.stopping) (simp_all add: s1_def s)
  have 3: "serve_step fly_config sample_serve HttpClosed s2 s3"
    unfolding s3_def by (rule serve_step.http_closed) (simp_all add: s1_def s2_def s)
  have 4: "serve_step fly_config sample_serve (Stopped None) s3 s4"
    unfolding s4_def by (rule serve_step.stopped) (simp add: states)
  obtain s5 where 5: "serve_step fly_config sample_serve
      (TurnStopped (Some (CloseUDPListener ''use of closed network connection''))) s4 s5" "finished s5"
  proof
    show "serve_step fly_config sample_serve (TurnStopped (Some (CloseUDPListener ''use of closed network connection''))) s4
        (goroutine_ends (map_option TurnServe (Some (CloseUDPListener ''use of closed network connection'')))
          (in_world [] s4\<lparr>turn_go := TurnOver\<rparr>))"
      by (rule serve_step.turn_stopped, simp_all add: states s sample_serve_def serve_api_def new_api_def Let_def)
         (rule socket_shutdown)
    show "finished (goroutine_ends (map_option TurnServe (Some (CloseUDPListener ''use of closed network connection'')))
          (in_world [] s4\<lparr>turn_go := TurnOver\<rparr>))"
      by (simp add: states s)
  qed
  from trace_then [OF trace_then [OF trace_then [OF trace_then [OF trace_then [OF s(1) 1] 2] 3] 4] 5(1)]
  have "serve_trace fly_config sample_serve
      [TurnUp, HttpUp, Signal, Stopping, HttpClosed, Stopped None,
       TurnStopped (Some (CloseUDPListener ''use of closed network connection''))] (serve_boot getenv fly_config []) s5"
    by simp
  then show thesis using 5(2) by (rule that)
qed

section \<open>Properties\<close>

text \<open>
  C8: \<open>serve-turn\<close> stops: whatever the goroutines interleave to, a run has at most seven steps of the
  process besides the traffic it serves; and once its group is cancelled, by a signal or by the
  failure of any goroutine, some goroutine can go on until all three have ended, so that the command
  returns.
\<close>

theorem serve_turn_stops:
  assumes "serve_trace cfg E ls (serve_boot getenv cfg w) s"
  shows "length (filter lifecycle ls) \<le> 7
    \<and> ((\<exists>e. Some e \<in> set (ends s)) \<or> Signal \<in> set ls \<longleftrightarrow> group_cancelled s)
    \<and> (group_cancelled s \<and> \<not> finished s \<longrightarrow> (\<exists>l t. lifecycle l \<and> l \<noteq> Signal \<and> serve_step cfg E l s t))"
proof -
  have ok: "serving_ok s" using trace_ok [OF assms serving_ok_boot] .
  have "length (filter lifecycle ls) \<le> 7"
    using trace_decreases [OF assms] by (simp add: steps_left_def serve_boot_def)
  moreover have "(\<exists>e. Some e \<in> set (ends s)) \<or> Signal \<in> set ls \<longleftrightarrow> group_cancelled s"
    using trace_cancels [OF assms] ok
    by (auto simp: serve_boot_def serving_ok_def)
  moreover have "\<exists>l t. lifecycle l \<and> l \<noteq> Signal \<and> serve_step cfg E l s t" if "group_cancelled s" "\<not> finished s"
    using progress [OF ok that] .
  ultimately show ?thesis by blast
qed

theorem serve_turn_stops_witness:
  "length (filter lifecycle [TurnUp, HttpUp, Signal, Stopping, HttpClosed, Stopped None,
     TurnStopped (Some (CloseUDPListener ''use of closed network connection''))]) \<le> 7"
proof -
  obtain s where "serve_trace fly_config sample_serve
      [TurnUp, HttpUp, Signal, Stopping, HttpClosed, Stopped None,
       TurnStopped (Some (CloseUDPListener ''use of closed network connection''))] (serve_boot (\<lambda>n. []) fly_config []) s"
    using sample_run .
  from serve_turn_stops [OF this] show ?thesis by blast
qed

text \<open>
  C18: how \<open>serve-turn\<close> exits: when the three goroutines have ended, with the first error among their
  results in the order they ended, and cleanly exactly when there is none; it never stops cleanly
  without having been signalled.
\<close>

theorem serve_turn_exit:
  assumes "serve_trace cfg E ls (serve_boot getenv cfg w) s" "finished s"
  shows "length (concat (map label_ends ls)) = 3
    \<and> serve_outcome (ends s) = group_wait (concat (map label_ends ls))
    \<and> (exit_status (serve_outcome (ends s)) = 0 \<longrightarrow> Signal \<in> set ls)"
proof -
  have ok: "serving_ok s" using trace_ok [OF assms(1) serving_ok_boot] .
  have ends: "ends s = concat (map label_ends ls)"
    using trace_ends [OF assms(1)] by (simp add: serve_boot_def)
  have "group_cancelled s" using ok assms(2) by (simp add: serving_ok_def finished_def)
  with trace_cancels [OF assms(1)] have "Signal \<in> set ls \<or> (\<exists>e. Some e \<in> set (ends s))"
    by (simp add: serve_boot_def)
  moreover have "length (ends s) = 3" using ok assms(2) by (simp add: serving_ok_def finished_def over_def)
  moreover have "serve_outcome (ends s) = group_wait (ends s)" using serve_outcome_ok [OF ok] .
  ultimately show ?thesis unfolding ends [symmetric] by (auto simp: group_wait_None exit_status_def split: option.splits)
qed

theorem serve_turn_exit_witness:
  "\<exists>s :: (nat, nat, nat list) serving. serve_outcome (ends s)
     = Some (TurnServe (CloseUDPListener ''use of closed network connection''))"
proof -
  obtain s where s: "serve_trace fly_config sample_serve
      [TurnUp, HttpUp, Signal, Stopping, HttpClosed, Stopped None,
       TurnStopped (Some (CloseUDPListener ''use of closed network connection''))] (serve_boot (\<lambda>n. []) fly_config []) s"
    "finished s"
    using sample_run .
  from serve_turn_exit [OF s] show ?thesis by auto
qed

text \<open>
  C7: \<open>serve-turn\<close> never exits cleanly: \<open>Shutdown\<close> closes the TURN server and then its listener, which
  Pion has closed with the server, and reports the second closing as an error; so every run that
  ends, the one a signal ends gracefully included, ends with an error of the TURN server among its
  results and a non-zero exit.
\<close>

theorem no_clean_exit:
  assumes "serve_trace cfg E ls (serve_boot getenv cfg w) s" "finished s" "closes_listener (pion E)"
  shows "(\<exists>e. Some (TurnServe e) \<in> set (ends s)) \<and> exit_status (serve_outcome (ends s)) = 1"
proof -
  have "turn_ends_badly cfg E s"
    by (rule serve_machine.trace_keeps [OF _ assms(1)], erule step_turn_ends_badly [OF assms(3)])
      (simp_all add: turn_ends_badly_def serve_boot_def)
  then have e: "\<exists>e. Some (TurnServe e) \<in> set (ends s)"
    using assms(2) by (simp add: turn_ends_badly_def finished_def)
  then have "group_wait (ends s) \<noteq> None" by (auto simp: group_wait_None)
  with e show ?thesis
    using serve_outcome_ok [OF trace_ok [OF assms(1) serving_ok_boot]] by (auto simp: exit_status_def)
qed

theorem no_clean_exit_witness:
  "\<exists>s :: (nat, nat, nat list) serving. finished s \<and> exit_status (serve_outcome (ends s)) = 1"
proof -
  obtain s where s: "serve_trace fly_config sample_serve
      [TurnUp, HttpUp, Signal, Stopping, HttpClosed, Stopped None,
       TurnStopped (Some (CloseUDPListener ''use of closed network connection''))] (serve_boot (\<lambda>n. []) fly_config []) s"
    "finished s"
    using sample_run .
  moreover have "closes_listener (pion sample_serve)"
    by (auto simp: closes_listener_def sample_serve_def socket_net_def)
  ultimately show ?thesis using no_clean_exit [OF s] by blast
qed

text \<open>
  C10: the server does not check the credentials it issues: in every run of \<open>serve-turn\<close>, whenever the
  authentication callback is asked about a username the API has given out, it gives no key, or the key
  derived from the shared secret, where the client has the password of the API's answer. The two are
  different strings unless the secret happens to have the 28 characters of a password, so the client
  is accepted only if the derivation of keys collides on exactly these two.  The metrics handler is
  taken to leave the API's secret alone.
\<close>

theorem issued_credentials_rejected:
  assumes "serve_trace cfg E ls (serve_boot getenv cfg w) s"
    and "\<And>r c. api_secret (snd (prometheus E r c)) = api_secret c"
    and "Path q = ''/v1/credentials''" "Answered q (json_response 200 (credentials_json cr)) \<in> set ls"
    and "Asked now (Resp_Username cr) key \<in> set ls"
  shows "key \<in> {None, Some (auth_key E (Resp_Username cr) (TURNRealm cfg) (TURNSharedSecret cfg))}
    \<and> (length (TURNSharedSecret cfg) \<noteq> 28 \<longrightarrow> Resp_Password cr \<noteq> TURNSharedSecret cfg)
    \<and> (auth_key E (Resp_Username cr) (TURNRealm cfg) (TURNSharedSecret cfg)
         \<noteq> auth_key E (Resp_Username cr) (TURNRealm cfg) (Resp_Password cr) \<longrightarrow>
       key \<noteq> Some (auth_key E (Resp_Username cr) (TURNRealm cfg) (Resp_Password cr)))"
proof -
  have "\<forall>l\<in>set ls. key_ok cfg E l"
    using trace_secrets [OF assms(2) assms(1) secrets_boot] by (simp add: list_all_iff)
  from this [rule_format, OF assms(4)] this [rule_format, OF assms(5)]
  have "Resp_Password cr = compute_password (TURNSharedSecret cfg) (Resp_Username cr)"
    and key: "key = None \<or> key = Some (auth_key E (Resp_Username cr) (TURNRealm cfg) (TURNSharedSecret cfg))"
    using mux_routes(1) [OF assms(3)] by (simp_all add: key_ok_def)
  then have "length (Resp_Password cr) = 28" by (simp only: length_compute_password)
  with key show ?thesis by auto
qed

definition alice_request :: http_request where
  "alice_request = post_request ''/v1/credentials'' (JObj [(''user_id'', JStr ''alice''), (''validity_seconds'', JNum ''600'')])"

theorem issued_credentials_rejected_witness:
  "\<exists>cr key. fst (api_serve (\<lambda>r c. (None, c)) (env_at 0) alice_request (serve_api (\<lambda>n. []) fly_config [3478 :: nat]))
       = json_response 200 (credentials_json cr)
     \<and> key = fst (auth_handler (auth_key sample_serve) (serve_turn_cfg fly_config) 0 (Resp_Username cr) 0)
     \<and> key \<noteq> Some (auth_key sample_serve (Resp_Username cr) ''r'' (Resp_Password cr))"
proof -
  let ?e = "env_at 0 :: nat list request_env"
  let ?c = "serve_api (\<lambda>n. []) fly_config [3478 :: nat]"
  obtain s where s: "serve_trace fly_config sample_serve [TurnUp, HttpUp] (serve_boot (\<lambda>n. []) fly_config []) s"
    "turn_go s = TurnServing \<lparr>server_cfg = serve_turn_cfg fly_config, udpListener = Some 3478, turnServer = Some 3478\<rparr>"
    "http_go s = HttpServing" "control s = ?c"
    using sample_up by metis
  define cr where "cr = credentials_for 0 rev ?c \<lparr>UserID = ''alice'', Validity = 600\<rparr>"
  have n: "parse_int ''600'' = Some 600" by code_simp
  have path: "Path alice_request = ''/v1/credentials''" by (simp add: alice_request_def)
  have a: "api_serve (prometheus sample_serve) ?e alice_request ?c = (json_response 200 (credentials_json cr), ?c)"
    using decode_sample [OF n, where u = "''alice''" and p = "''/v1/credentials''"]
    unfolding api_serve_def with_middleware_def route_credentials [OF mux_routes(1) [OF path]]
    by (simp add: alice_request_def handle_credentials_def cr_def env_at_def)
  obtain key n where k: "auth_handler (auth_key sample_serve) (serve_turn_cfg fly_config) 0 (Resp_Username cr) (auth_failures s) = (key, n)"
    by fastforce
  have 1: "serve_step fly_config sample_serve (Answered alice_request (json_response 200 (credentials_json cr))) s (s\<lparr>control := ?c\<rparr>)"
    by (rule serve_step.answered [where e = ?e]) (simp_all add: s a)
  have 2: "serve_step fly_config sample_serve (Asked 0 (Resp_Username cr) key) (s\<lparr>control := ?c\<rparr>) (s\<lparr>control := ?c, auth_failures := n\<rparr>)"
    using serve_step.asked [of "s\<lparr>control := ?c\<rparr>" _ sample_serve 0 "Resp_Username cr" key n fly_config] s(2) k by simp
  have "api_secret (snd (prometheus sample_serve r c)) = api_secret c" for r c by (simp add: sample_serve_def)
  from issued_credentials_rejected [OF trace_then [OF trace_then [OF s(1) 1] 2] this path, of cr 0 key]
  have "Resp_Password cr \<noteq> ''s''"
    and "auth_key sample_serve (Resp_Username cr) ''r'' ''s'' \<noteq> auth_key sample_serve (Resp_Username cr) ''r'' (Resp_Password cr)
      \<longrightarrow> key \<noteq> Some (auth_key sample_serve (Resp_Username cr) ''r'' (Resp_Password cr))"
    by (simp_all add: fly_config_def)
  moreover have "auth_key sample_serve u r p = auth_key sample_serve u r p' \<longleftrightarrow> p = p'" for u r p p'
    by (auto dest!: bytes_of_inj simp: sample_serve_def)
  ultimately have "key \<noteq> Some (auth_key sample_serve (Resp_Username cr) ''r'' (Resp_Password cr))" by metis
  moreover have "key = fst (auth_handler (auth_key sample_serve) (serve_turn_cfg fly_config) 0 (Resp_Username cr) 0)"
    using k by (auto simp: auth_handler_def split: option.splits)
  ultimately show ?thesis
    using a by (intro exI [of _ cr] exI [of _ key]) (simp add: sample_serve_def)
qed

end
