(* ===== verification/Fly_Converge.thy ===== *)
theory Fly_Converge
  imports Fly_Deployer "HOL-Library.AList"
begin

text \<open>
  What a deployment is for: after it, each wanted region has one machine, of the wanted configuration,
  and no other region has any.  The specification is about the fleet, the machines of the app by
  region and configuration, and the deployment of \<open>internal/flydeploy/deployer.go\<close> refines it on
  any service that does to its fleet what the Fly Machines API documents of its operations.
\<close>

section \<open>The service\<close>

text \<open>A fleet: the region and the configuration of each machine, by its identifier.\<close>

type_synonym fleet = "string \<Rightarrow> (string \<times> machine_config) option"

definition in_region :: "fleet \<Rightarrow> string \<Rightarrow> (string \<times> machine_config) set" where
  "in_region f r = {(i, x). f i = Some (r, x)}"

text \<open>
  The documented effects: listing reports the fleet, creating adds a machine under a new identifier,
  updating and destroying concern the machine they name, and everything else leaves the fleet alone.
  A configuration is kept as it is read back from the wire.  Nothing is said of an operation that
  fails, except that a failed destruction destroys its machine or none.
\<close>

definition reports_fleet :: "'w fly_env \<Rightarrow> client \<Rightarrow> string \<Rightarrow> ('w \<Rightarrow> fleet) \<Rightarrow> bool" where
  "reports_fleet env c a fleet \<longleftrightarrow>
     (\<forall>w ms w'. list_machines env c a w = (Inr ms, w') \<longrightarrow> fleet w' = fleet w \<and> distinct (map Machine_ID ms)
        \<and> fleet w = map_of (map (\<lambda>m. (Machine_ID m, Machine_Region m, Machine_Config m)) ms))"

definition changes_fleet :: "'w fly_env \<Rightarrow> client \<Rightarrow> string \<Rightarrow> ('w \<Rightarrow> fleet) \<Rightarrow> bool" where
  "changes_fleet env c a fleet \<longleftrightarrow>
     (\<forall>q w m w'. create_machine env c a q w = (Inr m, w') \<longrightarrow> config_ok (Req_Config q) \<longrightarrow>
        fleet w (Machine_ID m) = None
        \<and> fleet w' = (fleet w)(Machine_ID m \<mapsto> (Req_Region q, normal_config (Req_Config q))))
     \<and> (\<forall>i q w m w'. update_machine env c a i q w = (Inr m, w') \<longrightarrow> config_ok (Req_Config q) \<longrightarrow>
        fleet w' = (fleet w)(i \<mapsto> (Req_Region q, normal_config (Req_Config q))))
     \<and> (\<forall>i w e w'. destroy_machine env c a i w = (e, w') \<longrightarrow>
        fleet w' = (fleet w)(i := None) \<or> e \<noteq> None \<and> fleet w' = fleet w)"

definition keeps_fleet :: "'w fly_env \<Rightarrow> client \<Rightarrow> string \<Rightarrow> ('w \<Rightarrow> fleet) \<Rightarrow> bool" where
  "keeps_fleet env c a fleet \<longleftrightarrow>
     (\<forall>w. fleet (snd (get_app env c a w)) = fleet w) \<and> (\<forall>org w. fleet (snd (create_app env c a org w)) = fleet w)
     \<and> (\<forall>w. fleet (snd (list_ips env c a w)) = fleet w) \<and> (\<forall>q w. fleet (snd (allocate_ip env c a q w)) = fleet w)
     \<and> (\<forall>i w. fleet (snd (get_machine env c a i w)) = fleet w) \<and> (\<forall>i w. fleet (snd (start_machine env c a i w)) = fleet w)
     \<and> (\<forall>w. fleet (snd (clock env w)) = fleet w) \<and> (\<forall>d w. fleet (snd (pause env d w)) = fleet w)"

definition fleet_service :: "'w fly_env \<Rightarrow> client \<Rightarrow> string \<Rightarrow> ('w \<Rightarrow> fleet) \<Rightarrow> bool" where
  "fleet_service env c a fleet \<longleftrightarrow>
     reports_fleet env c a fleet \<and> changes_fleet env c a fleet \<and> keeps_fleet env c a fleet"

section \<open>The specification\<close>

definition wanted :: "deploy_config \<Rightarrow> machine_config \<Rightarrow> bool" where
  "wanted cfg x \<longleftrightarrow> x = normal_config (desired_config cfg) \<or> deep_equal x (desired_config cfg)"

text \<open>One machine a region at most, and none without a region.\<close>

definition one_each :: "fleet \<Rightarrow> bool" where
  "one_each f \<longleftrightarrow> (\<forall>r i j x y. (i, x) \<in> in_region f r \<longrightarrow> (j, y) \<in> in_region f r \<longrightarrow> i = j) \<and> in_region f [] = {}"

text \<open>
  What one wanted region, named \<open>n\<close> times, looks like afterwards: its machine brought to the wanted
  configuration if it had one, and else \<open>n\<close> machines of that configuration.
\<close>

definition settled :: "deploy_config \<Rightarrow> nat \<Rightarrow> fleet \<Rightarrow> string \<Rightarrow> fleet \<Rightarrow> bool" where
  "settled cfg n before r after \<longleftrightarrow>
     (if in_region before r = {}
      then finite (in_region after r) \<and> card (in_region after r) = n \<and> (\<forall>(i, x)\<in>in_region after r. wanted cfg x)
      else \<exists>i x y. in_region before r = {(i, y)} \<and> in_region after r = {(i, x)} \<and> wanted cfg x)"

section \<open>The steps on the fleet\<close>

lemma keeps_fleet_ops:
  assumes "keeps_fleet env c a fleet"
  shows "get_app env c a w = (ra, w') \<Longrightarrow> fleet w' = fleet w" "create_app env c a org w = (ra, w') \<Longrightarrow> fleet w' = fleet w"
    "list_ips env c a w = (rl, w') \<Longrightarrow> fleet w' = fleet w" "allocate_ip env c a q w = (ri, w') \<Longrightarrow> fleet w' = fleet w"
    "get_machine env c a i w = (rm, w') \<Longrightarrow> fleet w' = fleet w" "start_machine env c a i w = (e, w') \<Longrightarrow> fleet w' = fleet w"
    "clock env w = (t, w') \<Longrightarrow> fleet w' = fleet w" "pause env d w = (pe, w') \<Longrightarrow> fleet w' = fleet w"
  using assms unfolding keeps_fleet_def by (metis snd_conv)+

lemma in_region_upd:
  "in_region (f(i \<mapsto> (r, x))) q = (if q = r then {(i, x)} else {}) \<union> {(j, y) \<in> in_region f q. j \<noteq> i}"
  by (auto simp: in_region_def split: if_splits)

lemma in_region_others:
  "f i = None \<Longrightarrow> {(j, y) \<in> in_region f q. j \<noteq> i} = in_region f q"
  "f i = Some (r, x) \<Longrightarrow> q \<noteq> r \<Longrightarrow> {(j, y) \<in> in_region f q. j \<noteq> i} = in_region f q"
  by (auto simp: in_region_def)

text \<open>A region after \<open>n\<close> visits of the loop, of the machine the code works with there if any.\<close>

definition held :: "deploy_config \<Rightarrow> machine option \<Rightarrow> nat \<Rightarrow> (string \<times> machine_config) set \<Rightarrow> bool" where
  "held cfg ex n S \<longleftrightarrow>
     (case ex of
        None \<Rightarrow> finite S \<and> card S = n \<and> (\<forall>(i, x)\<in>S. wanted cfg x)
      | Some old \<Rightarrow> \<exists>x. S = {(Machine_ID old, x)} \<and> (wanted cfg x \<or> n = 0 \<and> x = Machine_Config old))"

lemma ensure_machine_fleet:
  assumes s: "fleet_service env c a fleet" and ok: "config_ok (desired_config cfg)"
    and e: "ensure_machine env c a r cfg ex w = (Inr m, w')" and h: "held cfg ex n (in_region (fleet w) r)"
  shows "held cfg ex (Suc n) (in_region (fleet w') r) \<and> (\<forall>q. q \<noteq> r \<longrightarrow> in_region (fleet w') q = in_region (fleet w) q)"
proof (cases ex)
  case None
  with e obtain mc where "create_machine env c a (desired_request cfg r) w = (Inr mc, w')"
    by (auto simp: ensure_machine_def split: prod.splits sum.splits)
  with s ok have new: "fleet w (Machine_ID mc) = None"
    "fleet w' = (fleet w)(Machine_ID mc \<mapsto> (r, normal_config (desired_config cfg)))"
    by (auto simp: fleet_service_def changes_fleet_def desired_request_def)
  then have "in_region (fleet w') r = insert (Machine_ID mc, normal_config (desired_config cfg)) (in_region (fleet w) r)"
    "q \<noteq> r \<Longrightarrow> in_region (fleet w') q = in_region (fleet w) q" for q
    by (simp_all add: in_region_upd in_region_others(1) [of "fleet w", OF new(1)])
  moreover have "(Machine_ID mc, normal_config (desired_config cfg)) \<notin> in_region (fleet w) r"
    using new(1) by (simp add: in_region_def)
  ultimately show ?thesis using h None by (simp add: held_def wanted_def)
next
  case (Some old)
  let ?d = "desired_config cfg"
  from Some h obtain x where here: "in_region (fleet w) r = {(Machine_ID old, x)}" "wanted cfg x \<or> n = 0 \<and> x = Machine_Config old"
    by (auto simp: held_def)
  then have mine: "fleet w (Machine_ID old) = Some (r, x)" by (auto simp: in_region_def)
  from s have keeps: "start_machine env c a i v = (er, v') \<Longrightarrow> fleet v' = fleet v" for i v er v'
    by (auto simp: fleet_service_def dest: keeps_fleet_ops)
  show ?thesis
  proof (cases "deep_equal (Machine_Config old) ?d")
    case True
    with Some e keeps have "fleet w' = fleet w"
      by (auto simp: ensure_machine_def split: prod.splits option.splits if_splits)
    with True Some here show ?thesis by (auto simp: held_def wanted_def)
  next
    case False
    with Some e obtain mc v where u: "update_machine env c a (Machine_ID old) (desired_request cfg r) w = (Inr mc, v)"
      and v: "fleet w' = fleet v"
      by (auto simp: ensure_machine_def dest: keeps split: prod.splits sum.splits option.splits if_splits)
    from s u ok have "fleet v = (fleet w)(Machine_ID old \<mapsto> (r, normal_config ?d))"
      by (auto simp: fleet_service_def changes_fleet_def desired_request_def)
    then have "in_region (fleet w') r = {(Machine_ID old, normal_config ?d)}"
      "q \<noteq> r \<Longrightarrow> in_region (fleet w') q = in_region (fleet w) q" for q
      using here(1) in_region_others(2) [of "fleet w", OF mine] by (auto simp: v in_region_upd)
    with Some show ?thesis by (auto simp: held_def wanted_def)
  qed
qed

lemma ensure_loop_fleet:
  assumes "fleet_service env c (AppName cfg) fleet" "config_ok (desired_config cfg)"
  shows "ensure_loop env c cfg ex rs w = (Inr ms, w') \<Longrightarrow> (\<And>r. r \<in> set rs \<Longrightarrow> trim_space r = r) \<Longrightarrow>
    (\<And>r. r \<in> R \<Longrightarrow> held cfg (gm_get ex r) (n r) (in_region (fleet w) r)) \<Longrightarrow> set rs \<subseteq> R \<Longrightarrow>
    (\<forall>r\<in>R. held cfg (gm_get ex r) (n r + count_list rs r) (in_region (fleet w') r))
    \<and> (\<forall>q. q \<notin> set rs \<longrightarrow> in_region (fleet w') q = in_region (fleet w) q)"
proof (induction rs arbitrary: w ms n)
  case (Cons r rs)
  have trim: "trim_space r = r" using Cons.prems(2) by simp
  with Cons.prems(1) obtain m v ms' where m: "ensure_machine env c (AppName cfg) r cfg (gm_get ex r) w = (Inr m, v)"
    and l: "ensure_loop env c cfg ex rs v = (Inr ms', w')"
    by (auto simp: Let_def split: prod.splits sum.splits)
  have "r \<in> R" using Cons.prems(4) by simp
  from ensure_machine_fleet [OF assms m Cons.prems(3) [OF this]] have
    a: "held cfg (gm_get ex r) (Suc (n r)) (in_region (fleet v) r)"
      "\<And>q. q \<noteq> r \<Longrightarrow> in_region (fleet v) q = in_region (fleet w) q" by blast+
  have "held cfg (gm_get ex q) ((n(r := Suc (n r))) q) (in_region (fleet v) q)" if "q \<in> R" for q
    using a Cons.prems(3) [OF that] by (cases "q = r") simp_all
  from Cons.IH [OF l _ this] Cons.prems(2,4) have
    b: "\<forall>q\<in>R. held cfg (gm_get ex q) ((n(r := Suc (n r))) q + count_list rs q) (in_region (fleet w') q)"
      "\<forall>q. q \<notin> set rs \<longrightarrow> in_region (fleet w') q = in_region (fleet v) q"
    by auto
  have "held cfg (gm_get ex q) (n q + count_list (r # rs) q) (in_region (fleet w') q)" if "q \<in> R" for q
    using b(1) [rule_format, OF that] by (cases "q = r") simp_all
  with a(2) b(2) show ?case by simp
qed simp

lemma held_start:
  "S = (case ex of None \<Rightarrow> {} | Some old \<Rightarrow> {(Machine_ID old, Machine_Config old)}) \<Longrightarrow> held cfg ex 0 S"
  by (simp add: held_def split: option.splits)

lemma held_settled:
  assumes "in_region before r = (case ex of None \<Rightarrow> {} | Some old \<Rightarrow> {(Machine_ID old, Machine_Config old)})"
    and "held cfg ex n (in_region after r)" "0 < n"
  shows "settled cfg n before r after"
  using assms by (cases ex) (auto simp: held_def settled_def)

definition accepts_destroys :: "'w fly_env \<Rightarrow> client \<Rightarrow> string \<Rightarrow> bool" where
  "accepts_destroys env c a \<longleftrightarrow> (\<forall>i w. fst (destroy_machine env c a i w) = None)"

lemma destroy_loop_fleet:
  assumes "changes_fleet env c a fleet"
  shows "(if \<exists>(r, m)\<in>set xs. r \<notin> set rs \<and> Machine_ID m = i
      then fleet (destroy_loop env c a rs xs w) i = None
        \<or> fleet (destroy_loop env c a rs xs w) i = fleet w i \<and> \<not> accepts_destroys env c a
      else fleet (destroy_loop env c a rs xs w) i = fleet w i)"
proof (induction xs arbitrary: w)
  case (Cons x xs)
  obtain r m where x: "x = (r, m)" by (cases x)
  obtain e v where d: "destroy_machine env c a (Machine_ID m) w = (e, v)" by fastforce
  from assms d have "fleet v = (fleet w)(Machine_ID m := None) \<or> e \<noteq> None \<and> fleet v = fleet w"
    unfolding changes_fleet_def by blast
  moreover have "\<not> accepts_destroys env c a" if "e \<noteq> None"
    using that d unfolding accepts_destroys_def by (metis fst_conv)
  moreover have "destroy_loop env c a rs (x # xs) w = destroy_loop env c a rs xs (if r \<notin> set rs then v else w)"
    by (simp add: x d)
  moreover note Cons [of w] Cons [of v]
  ultimately show ?case
    by (cases "r \<in> set rs"; cases "Machine_ID m = i") (auto simp: x simp del: destroy_loop.simps split: if_splits)
qed simp

lemma health_loop_fleet:
  "keeps_fleet env c a fleet \<Longrightarrow> health_loop n env c a m tmo dl w = Some (e, w') \<Longrightarrow> fleet w' = fleet w"
proof (induction n arbitrary: w)
  case (Suc n)
  note keeps = keeps_fleet_ops [OF Suc.prems(1)]
  from Suc show ?case
    by (auto simp: Let_def dest!: keeps split: prod.splits option.splits if_splits)
qed simp

lemma wait_all_fleet:
  "keeps_fleet env c a fleet \<Longrightarrow> wait_all n env c a tmo ms w = Some w' \<Longrightarrow> fleet w' = fleet w"
proof (induction ms arbitrary: w)
  case (Cons m ms)
  note keeps = keeps_fleet_ops [OF Cons.prems(1)]
  from Cons show ?case
    by (auto simp: wait_for_healthy_def dest!: keeps health_loop_fleet [OF Cons.prems(1)] split: prod.splits option.splits)
qed simp

text \<open>The machine of a region the code works with is the one the fleet has there.\<close>

lemma listed_region:
  assumes "f = map_of (map (\<lambda>m. (Machine_ID m, Machine_Region m, Machine_Config m)) ms)" "distinct (map Machine_ID ms)"
    and "one_each f" "r \<noteq> []"
  shows "in_region f r = (case gm_get (machines_by_region ms) r of None \<Rightarrow> {} | Some old \<Rightarrow> {(Machine_ID old, Machine_Config old)})"
proof -
  have f: "f i = Some v \<longleftrightarrow> (\<exists>m\<in>set ms. i = Machine_ID m \<and> v = (Machine_Region m, Machine_Config m))" for i v
    using assms(1,2) by (auto simp: comp_def map_of_eq_Some_iff image_iff)
  show ?thesis
  proof (cases "gm_get (machines_by_region ms) r")
    case None
    then have "\<forall>m\<in>set ms. Machine_Region m \<noteq> r" using assms(4) by (auto simp: by_region_find find_None_iff)
    with None show ?thesis by (auto simp: in_region_def f)
  next
    case (Some old)
    from by_region_member [OF this] have "(Machine_ID old, Machine_Config old) \<in> in_region f r"
      by (auto simp: in_region_def f)
    then have "in_region f r = {(Machine_ID old, Machine_Config old)}"
      using assms(3) by (fastforce simp: one_each_def in_region_def)
    with Some show ?thesis by simp
  qed
qed

text \<open>The destructions: wanted regions keep theirs, others lose theirs if the service obliges.\<close>

lemma destroyed_regions:
  assumes "changes_fleet env c a fleet" "visits ord"
    and "fleet w = map_of (map (\<lambda>m. (Machine_ID m, Machine_Region m, Machine_Config m)) ms)" "distinct (map Machine_ID ms)"
    and "one_each (fleet w)" and "v = destroy_loop env c a rs (ord (machines_by_region ms)) w"
  shows "r \<in> set rs \<Longrightarrow> in_region (fleet v) r = in_region (fleet w) r"
    and "r \<notin> set rs \<Longrightarrow> in_region (fleet v) r \<subseteq> in_region (fleet w) r
      \<and> (accepts_destroys env c a \<longrightarrow> in_region (fleet v) r = {})"
proof -
  let ?named = "\<lambda>i. \<exists>(q, m)\<in>set (ord (machines_by_region ms)). q \<notin> set rs \<and> Machine_ID m = i"
  have mem: "(q, m) \<in> set (ord (machines_by_region ms)) \<longleftrightarrow> gm_get (machines_by_region ms) q = Some m" for q m
    using visits_set [OF assms(2)] gm_get_mem [OF by_region_ok] by simp
  note d = destroy_loop_fleet [OF assms(1), of "ord (machines_by_region ms)" rs _ w, folded assms(6)]
  have f: "fleet w (Machine_ID m) = Some (q, Machine_Config m)" if "gm_get (machines_by_region ms) q = Some m" for q m
    using by_region_member [OF that] assms(3,4) by (auto simp: comp_def map_of_eq_Some_iff image_iff)
  have unnamed: "\<not> ?named i" if "fleet w i = Some (r, x)" "r \<in> set rs" for i x r
    using that f by (fastforce simp: mem)
  have sub: "in_region (fleet v) r \<subseteq> in_region (fleet w) r" for r
  proof clarify
    fix i x assume "(i, x) \<in> in_region (fleet v) r"
    with d [of i] show "(i, x) \<in> in_region (fleet w) r" by (auto simp: in_region_def split: if_splits)
  qed
  show "in_region (fleet v) r = in_region (fleet w) r" if "r \<in> set rs"
  proof
    show "in_region (fleet w) r \<subseteq> in_region (fleet v) r"
    proof clarify
      fix i x assume "(i, x) \<in> in_region (fleet w) r"
      with unnamed [of i r x] that d [of i] show "(i, x) \<in> in_region (fleet v) r" by (simp add: in_region_def)
    qed
  qed (rule sub)
  have "in_region (fleet v) r = {}" if "accepts_destroys env c a" "r \<notin> set rs"
  proof (rule ccontr)
    assume "in_region (fleet v) r \<noteq> {}"
    then obtain i x where i: "(i, x) \<in> in_region (fleet v) r" "(i, x) \<in> in_region (fleet w) r" using sub by fastforce
    with assms(5) have "r \<noteq> []" by (auto simp: one_each_def)
    from listed_region [OF assms(3-5) this] i(2) obtain m where "gm_get (machines_by_region ms) r = Some m" "i = Machine_ID m"
      by (auto split: option.splits)
    with that(2) have "?named i" by (auto simp: mem)
    with d [of i] that(1) i(1) show False by (simp add: in_region_def)
  qed
  with sub show "r \<notin> set rs \<Longrightarrow> in_region (fleet v) r \<subseteq> in_region (fleet w) r
      \<and> (accepts_destroys env c a \<longrightarrow> in_region (fleet v) r = {})" by blast
qed

lemma deploy_steps_fleet:
  assumes "fleet_service env c (AppName cfg) fleet" "config_ok (desired_config cfg)" "visits ord"
    and "\<forall>r\<in>set (Regions cfg). trim_space r = r \<and> r \<noteq> []" "one_each (fleet w)"
    and "deploy_steps env ord c cfg w = (Inr res, w')"
  shows "(\<forall>r\<in>set (Regions cfg). settled cfg (count_list (Regions cfg) r) (fleet w) r (fleet w'))
    \<and> (\<forall>r. r \<notin> set (Regions cfg) \<longrightarrow> in_region (fleet w') r \<subseteq> in_region (fleet w) r
         \<and> (accepts_destroys env c (AppName cfg) \<longrightarrow> in_region (fleet w') r = {}))"
proof -
  let ?a = "AppName cfg" and ?rs = "Regions cfg"
  have k: "keeps_fleet env c ?a fleet" and ch: "changes_fleet env c ?a fleet" and rep: "reports_fleet env c ?a fleet"
    using assms(1) by (simp_all add: fleet_service_def)
  note keeps = keeps_fleet_ops [OF k]
  from assms(6) obtain app w1 org ips w2 ms w3 new where
    1: "ensure_app env c ?a (OrgSlug cfg) w = (Inr app, w1)" and 2: "ensure_ips env c ?a org w1 = (Inr ips, w2)"
    and 3: "list_machines env c ?a w2 = (Inr ms, w3)"
    and 4: "ensure_loop env c cfg (machines_by_region ms) ?rs
        (destroy_loop env c ?a ?rs (ord (machines_by_region ms)) w3) = (Inr new, w')"
    by (auto simp: deploy_steps_def Let_def split: prod.splits sum.splits)
  have "fleet w1 = fleet w" using 1 by (auto simp: ensure_app_def dest!: keeps split: prod.splits sum.splits)
  moreover have "fleet w2 = fleet w1"
    using 2 by (auto simp: ensure_ips_def dest!: keeps split: prod.splits sum.splits if_splits)
  moreover have "fleet w3 = fleet w2" "distinct (map Machine_ID ms)"
    "fleet w2 = map_of (map (\<lambda>m. (Machine_ID m, Machine_Region m, Machine_Config m)) ms)"
    using rep 3 unfolding reports_fleet_def by blast+
  ultimately have w3: "fleet w3 = fleet w" and ms: "distinct (map Machine_ID ms)"
    "fleet w3 = map_of (map (\<lambda>m. (Machine_ID m, Machine_Region m, Machine_Config m)) ms)" by simp_all
  have one: "one_each (fleet w3)" using assms(5) w3 by simp
  define v where "v = destroy_loop env c ?a ?rs (ord (machines_by_region ms)) w3"
  note d = destroyed_regions [OF ch assms(3) ms(2,1) one v_def]
  have here: "in_region (fleet w) r
      = (case gm_get (machines_by_region ms) r of None \<Rightarrow> {} | Some old \<Rightarrow> {(Machine_ID old, Machine_Config old)})"
    "in_region (fleet v) r = in_region (fleet w) r" if "r \<in> set ?rs" for r
    using that assms(4) d(1) listed_region [OF ms(2,1) one, of r] w3 by simp_all
  have trim: "trim_space r = r" if "r \<in> set ?rs" for r using that assms(4) by blast
  have "held cfg (gm_get (machines_by_region ms) r) 0 (in_region (fleet v) r)" if "r \<in> set ?rs" for r
    using here [OF that] by (intro held_start) simp
  from ensure_loop_fleet [OF assms(1,2) 4 [folded v_def] trim this order_refl] have
    e: "\<forall>r\<in>set ?rs. held cfg (gm_get (machines_by_region ms) r) (count_list ?rs r) (in_region (fleet w') r)"
      "\<forall>r. r \<notin> set ?rs \<longrightarrow> in_region (fleet w') r = in_region (fleet v) r"
    by auto
  have "settled cfg (count_list ?rs r) (fleet w) r (fleet w')" if "r \<in> set ?rs" for r
    using held_settled [OF here(1) [OF that], of cfg "count_list ?rs r"] e(1) that count_list_0_iff [of ?rs r] by simp
  with e(2) d(2) w3 show ?thesis by auto
qed

section \<open>A service\<close>

text \<open>
  A small service with the documented effects: its world is the list of the machines, each an
  identifier, a region and the JSON of its configuration, the first of an identifier counting.
\<close>

definition machine_json :: "string \<times> string \<times> json \<Rightarrow> json" where
  "machine_json = (\<lambda>(i, r, x). JObj [(''id'', JStr i), (''region'', JStr r), (''state'', JStr ''started''), (''config'', x)])"

definition json_get :: "string \<Rightarrow> json option \<Rightarrow> json" where
  "json_get k b = (case b of Some (JObj kvs) \<Rightarrow> (case map_of kvs k of Some v \<Rightarrow> v | None \<Rightarrow> JNull) | _ \<Rightarrow> JNull)"

definition json_text :: "json \<Rightarrow> string" where
  "json_text v = (case v of JStr s \<Rightarrow> s | _ \<Rightarrow> [])"

definition fresh_id :: "(string \<times> 'x) list \<Rightarrow> string" where
  "fresh_id w = CHR ''m'' # concat (map fst w)"

definition ok_response :: "json \<Rightarrow> string + fly_response" where
  "ok_response v = Inr \<lparr>StatusCode = 200, RawBody = [], ParsedBody = Some v\<rparr>"

type_synonym small_world = "(string \<times> string \<times> json) list"

definition small_service :: "small_world fly_env" where
  "small_service =
     \<lparr>parse_url = (\<lambda>u. None),
      http_do = (\<lambda>q w.
        let new = (json_text (json_get ''region'' (Req_Body q)), json_get ''config'' (Req_Body q))
        in if Req_URL q = machines_path ''a''
           then if Req_Method q = ''GET'' then (ok_response (JArr (map machine_json (AList.clearjunk w))), w)
                else (ok_response (machine_json (fresh_id w, new)), (fresh_id w, new) # w)
           else if has_prefix (Req_URL q) (machines_path ''a'' @ ''/'')
           then let i = drop (length (machines_path ''a'') + 1) (Req_URL q)
                in if Req_Method q = ''DELETE'' then (ok_response (JObj []), AList.delete i w)
                   else if Req_Body q = None then (ok_response (JObj [(''state'', JStr ''started'')]), w)
                   else (ok_response (machine_json (i, new)), (i, new) # w)
           else if Req_URL q = ips_path ''a'' then (ok_response (JObj [(''ips'', JArr [JObj []])]), w)
           else (ok_response (JObj []), w)),
      clock = (\<lambda>w. (0, w)), pause = (\<lambda>d w. (None, w))\<rparr>"

definition read_config :: "json \<Rightarrow> machine_config" where
  "read_config x = (case decode_config x zero_config of Inl e \<Rightarrow> zero_config | Inr c \<Rightarrow> c)"

definition small_fleet :: "small_world \<Rightarrow> fleet" where
  "small_fleet w i = map_option (\<lambda>(r, x). (r, read_config x)) (map_of w i)"

lemma small_request:
  "do_request small_service sample_client meth path body w =
     (let new = (json_text (json_get ''region'' body), json_get ''config'' body);
          resp = (\<lambda>v. (Inr \<lparr>StatusCode = 200, RawBody = [], ParsedBody = Some v\<rparr>))
        in if path = machines_path ''a''
           then if meth = ''GET'' then (resp (JArr (map machine_json (AList.clearjunk w))), w)
                else (resp (machine_json (fresh_id w, new)), (fresh_id w, new) # w)
           else if has_prefix path (machines_path ''a'' @ ''/'')
           then let i = drop (length (machines_path ''a'') + 1) path
                in if meth = ''DELETE'' then (resp (JObj []), AList.delete i w)
                   else if body = None then (resp (JObj [(''state'', JStr ''started'')]), w)
                   else (resp (machine_json (i, new)), (i, new) # w)
           else if path = ips_path ''a'' then (resp (JObj [(''ips'', JArr [JObj []])]), w)
           else (resp (JObj []), w))"
  by (simp add: do_request_def small_service_def sample_client_sel fly_request_of_def ok_response_def Let_def)

lemma paths:
  "machine_path ''a'' i \<noteq> machines_path ''a''" "has_prefix (machine_path ''a'' i) (machines_path ''a'' @ ''/'')"
  "has_prefix (machine_path ''a'' i @ ''/start'') (machines_path ''a'' @ ''/'')"
  "machine_path ''a'' i @ ''/start'' \<noteq> machines_path ''a''"
  "drop (length (machines_path ''a'') + 1) (machine_path ''a'' i) = i"
  by (simp_all add: machine_path_def has_prefix_def)

lemma other_paths:
  "app_path ''a'' \<noteq> machines_path ''a''" "\<not> has_prefix (app_path ''a'') (machines_path ''a'' @ ''/'')"
  "ips_path ''a'' \<noteq> machines_path ''a''" "\<not> has_prefix (ips_path ''a'') (machines_path ''a'' @ ''/'')"
  "''/v1/apps'' \<noteq> machines_path ''a''" "\<not> has_prefix ''/v1/apps'' (machines_path ''a'' @ ''/'')"
  "app_path ''a'' \<noteq> ips_path ''a''"
  by (simp_all add: machines_path_def app_path_def ips_path_def has_prefix_def)

lemma world_of_request:
  "snd (do_decode env c op meth path body dec zero w) = snd (do_request env c meth path body w)"
  "snd (do_plain env c op meth path w) = snd (do_request env c meth path None w)"
  by (simp_all add: do_decode_def do_plain_def split: prod.split sum.split option.split)

lemma small_quiet:
  "path \<noteq> machines_path ''a'' \<Longrightarrow> \<not> has_prefix path (machines_path ''a'' @ ''/'') \<Longrightarrow>
     snd (do_request small_service sample_client meth path body w) = w"
  "path \<noteq> machines_path ''a'' \<Longrightarrow> meth \<noteq> ''DELETE'' \<Longrightarrow>
     snd (do_request small_service sample_client meth path None w) = w"
  "snd (do_request small_service sample_client ''GET'' (machines_path ''a'') None w) = w"
  by (simp_all add: small_request Let_def)

lemma small_keeps: "keeps_fleet small_service sample_client ''a'' small_fleet"
proof -
  have "snd (get_app small_service sample_client ''a'' w) = w" "snd (create_app small_service sample_client ''a'' org w) = w"
    "snd (list_ips small_service sample_client ''a'' w) = w" "snd (allocate_ip small_service sample_client ''a'' q w) = w"
    "snd (get_machine small_service sample_client ''a'' i w) = w" "snd (start_machine small_service sample_client ''a'' i w) = w"
    for org q i w
  proof -
    have sum: "snd (case x of (Inl e, w) \<Rightarrow> (Inl e, w) | (Inr y, w) \<Rightarrow> (Inr (f y), w)) = snd x" for x and f :: "'x \<Rightarrow> 'y"
      by (simp split: prod.split sum.split)
    show "snd (get_app small_service sample_client ''a'' w) = w" "snd (create_app small_service sample_client ''a'' org w) = w"
      "snd (list_ips small_service sample_client ''a'' w) = w" "snd (allocate_ip small_service sample_client ''a'' q w) = w"
      by (simp_all only: client_ops sample_client_sel if_False sum world_of_request small_quiet(1) other_paths not_False_eq_True)
    show "snd (get_machine small_service sample_client ''a'' i w) = w" "snd (start_machine small_service sample_client ''a'' i w) = w"
      by (simp_all add: client_ops sample_client_sel world_of_request small_quiet(2) paths)
  qed
  then show ?thesis by (simp add: keeps_fleet_def small_service_def)
qed

lemma decode_machine_json:
  "decode_machine (machine_json (i, r, x)) zero_machine = Inr m \<longleftrightarrow>
     (\<exists>c. decode_config x zero_config = Inr c
        \<and> m = zero_machine\<lparr>Machine_ID := i, Machine_Region := r, Machine_State := ''started'', Machine_Config := c\<rparr>)"
  by (auto simp: decode_machine_def machine_json_def field_def zero_machine_def bind_res_Inr_iff)

lemma decode_listed:
  "decode_elems decode_machine zero_machine (map machine_json xs) [] = Inr ms \<Longrightarrow>
     map (\<lambda>m. (Machine_ID m, Machine_Region m, Machine_Config m)) ms = map (\<lambda>(i, r, x). (i, r, read_config x)) xs"
proof (induction xs arbitrary: ms)
  case (Cons y xs)
  obtain i r x where y: "y = (i, r, x)" by (cases y)
  with Cons.prems obtain c ms' where c: "decode_config x zero_config = Inr c"
    and ms: "ms = zero_machine\<lparr>Machine_ID := i, Machine_Region := r, Machine_State := ''started'', Machine_Config := c\<rparr> # ms'"
    and tl: "decode_elems decode_machine zero_machine (map machine_json xs) [] = Inr ms'"
    by (auto simp: bind_res_Inr_iff decode_machine_json)
  from c have "read_config x = c" by (simp add: read_config_def)
  with Cons.IH [OF tl] show ?case by (simp add: y ms)
qed simp

lemma small_fleet_map: "small_fleet w = map_of (map (\<lambda>(i, r, x). (i, r, read_config x)) w)"
  by (induction w) (auto simp: small_fleet_def fun_eq_iff)

lemma small_reports: "reports_fleet small_service sample_client ''a'' small_fleet"
proof -
  have "small_fleet w' = small_fleet w \<and> distinct (map Machine_ID ms)
      \<and> small_fleet w = map_of (map (\<lambda>m. (Machine_ID m, Machine_Region m, Machine_Config m)) ms)"
    if "list_machines small_service sample_client ''a'' w = (Inr ms, w')" for w ms w'
  proof -
    from that have "w' = w" and d: "decode_elems decode_machine zero_machine (map machine_json (AList.clearjunk w)) [] = Inr ms"
      by (auto simp: list_machines_def sample_client_sel do_decode_def small_request decode_body_def slice_of_def bind_res_Inr_iff
          split: option.splits sum.splits)
    note l = decode_listed [OF d]
    have "map Machine_ID ms = map fst (AList.clearjunk w)"
      using arg_cong [OF l, of "map fst"] by (simp add: comp_def case_prod_unfold)
    then have "distinct (map Machine_ID ms)" by (simp add: distinct_clearjunk)
    moreover have "small_fleet w = small_fleet (AList.clearjunk w)" by (simp add: small_fleet_def fun_eq_iff map_of_clearjunk)
    ultimately show ?thesis using \<open>w' = w\<close> l by (simp add: small_fleet_map)
  qed
  then show ?thesis by (simp add: reports_fleet_def)
qed

lemma request_fields:
  "json_text (json_get ''region'' (Some (machine_request_json q))) = Req_Region q"
  "json_get ''config'' (Some (machine_request_json q)) = config_json (Req_Config q)"
  by (simp_all add: json_get_def machine_request_json_def omit_empty_def json_text_def)

lemma small_put:
  "config_ok c \<Longrightarrow> small_fleet ((i, r, config_json c) # w) = (small_fleet w)(i \<mapsto> (r, normal_config c))"
  by (auto simp: small_fleet_def fun_eq_iff read_config_def decode_config_json)

lemma fresh_id_new: "small_fleet w (fresh_id w) = None"
proof -
  have "length (fst e) < length (fresh_id w)" if "e \<in> set w" for e
    using that by (induction w) (auto simp: fresh_id_def)
  then show ?thesis by (force simp: small_fleet_def map_of_eq_None_iff)
qed

lemma small_changes: "changes_fleet small_service sample_client ''a'' small_fleet"
proof -
  have "small_fleet w (Machine_ID m) = None
      \<and> small_fleet w' = (small_fleet w)(Machine_ID m \<mapsto> (Req_Region q, normal_config (Req_Config q)))"
    if "create_machine small_service sample_client ''a'' q w = (Inr m, w')" "config_ok (Req_Config q)" for q w m w'
    using that
    by (auto simp: create_machine_def sample_client_sel do_decode_def small_request decode_body_def request_fields small_put
        decode_machine_json fresh_id_new Let_def split: option.splits sum.splits)
  moreover have "small_fleet w' = (small_fleet w)(i \<mapsto> (Req_Region q, normal_config (Req_Config q)))"
    if "update_machine small_service sample_client ''a'' i q w = (Inr m, w')" "config_ok (Req_Config q)" for i q w m w'
    using that paths(1,2,5) [of i]
    by (auto simp: update_machine_def sample_client_sel do_decode_def small_request request_fields small_put
        Let_def split: option.splits)
  moreover have "small_fleet w' = (small_fleet w)(i := None)"
    if "destroy_machine small_service sample_client ''a'' i w = (e, w')" for i w e w'
    using that paths(1,2,5) [of i]
    by (auto simp: destroy_machine_def sample_client_sel do_plain_def small_request small_fleet_def fun_eq_iff delete_conv Let_def)
  ultimately show ?thesis unfolding changes_fleet_def by blast
qed

lemma small_ops:
  "get_app small_service sample_client ''a'' w = (Inr zero_app, w)"
  "list_ips small_service sample_client ''a'' w = (Inr [zero_ip], w)"
  "list_machines small_service sample_client ''a'' [(i, r, JNull)] =
     (Inr [zero_machine\<lparr>Machine_ID := i, Machine_Region := r, Machine_State := ''started''\<rparr>], [(i, r, JNull)])"
  "destroy_machine small_service sample_client ''a'' i w = (None, AList.delete i w)"
  "get_machine small_service sample_client ''a'' i w = (Inr (zero_machine\<lparr>Machine_State := ''started''\<rparr>), w)"
  "config_ok (Req_Config q) \<Longrightarrow> create_machine small_service sample_client ''a'' q w =
     (Inr (zero_machine\<lparr>Machine_ID := fresh_id w, Machine_Region := Req_Region q, Machine_State := ''started'',
             Machine_Config := normal_config (Req_Config q)\<rparr>),
      (fresh_id w, Req_Region q, config_json (Req_Config q)) # w)"
proof -
  show "get_app small_service sample_client ''a'' w = (Inr zero_app, w)"
    "list_ips small_service sample_client ''a'' w = (Inr [zero_ip], w)"
    by (simp_all add: get_app_def list_ips_def sample_client_sel do_decode_def small_request other_paths decode_body_def
        decode_app_def decode_ip_list_def decode_ip_def field_def slice_of_def zero_app_def zero_ip_def Let_def)
  have "decode_config JNull zero_config = Inr zero_config" by (simp add: decode_config_def)
  then have "decode_machine (machine_json (i, r, JNull)) zero_machine
      = Inr (zero_machine\<lparr>Machine_ID := i, Machine_Region := r, Machine_State := ''started''\<rparr>)"
    unfolding decode_machine_json by (simp add: zero_machine_def)
  then show "list_machines small_service sample_client ''a'' [(i, r, JNull)] =
     (Inr [zero_machine\<lparr>Machine_ID := i, Machine_Region := r, Machine_State := ''started''\<rparr>], [(i, r, JNull)])"
    by (simp add: list_machines_def sample_client_sel do_decode_def small_request decode_body_def slice_of_def Let_def)
  show "destroy_machine small_service sample_client ''a'' i w = (None, AList.delete i w)"
    using paths [of i] by (simp add: destroy_machine_def sample_client_sel do_plain_def small_request Let_def)
  show "get_machine small_service sample_client ''a'' i w = (Inr (zero_machine\<lparr>Machine_State := ''started''\<rparr>), w)"
    using paths [of i]
    by (simp add: get_machine_def sample_client_sel do_decode_def small_request decode_body_def decode_machine_def field_def
        zero_machine_def Let_def)
  show "create_machine small_service sample_client ''a'' q w =
     (Inr (zero_machine\<lparr>Machine_ID := fresh_id w, Machine_Region := Req_Region q, Machine_State := ''started'',
             Machine_Config := normal_config (Req_Config q)\<rparr>),
      (fresh_id w, Req_Region q, config_json (Req_Config q)) # w)" if "config_ok (Req_Config q)"
  proof -
    from that have "decode_machine (machine_json (fresh_id w, Req_Region q, config_json (Req_Config q))) zero_machine
        = Inr (zero_machine\<lparr>Machine_ID := fresh_id w, Machine_Region := Req_Region q, Machine_State := ''started'',
            Machine_Config := normal_config (Req_Config q)\<rparr>)"
      unfolding decode_machine_json by (simp add: decode_config_json)
    then show ?thesis
      by (simp add: create_machine_def sample_client_sel do_decode_def small_request decode_body_def request_fields Let_def)
  qed
qed

lemma small_healthy: "0 < t \<Longrightarrow> wait_for_healthy (Suc n) small_service sample_client ''a'' i t w = Some (None, w)"
proof -
  assume "0 < t"
  moreover have "equal_fold ''started'' ''started''" by code_simp
  moreover have "clock small_service w = (0, w)" by (simp add: small_service_def)
  ultimately show ?thesis by (simp add: wait_for_healthy_def small_ops time_add_def)
qed

lemma small_config:
  "config_ok (desired_config (with_defaults (sample_deploy rs None)))"
  by (simp add: desired_wire sample_deploy_def with_defaults_def map_ok_def guest_ok_def DefaultGuest_def in_i64_iff)

lemma small_deploys:
  "\<exists>res w'. deploy 1 small_service rev sample_client (sample_deploy [''iad'', ''iad''] None) [(''m'', ''ord'', JNull)] = Some (Inr res, w')"
proof -
  have "trim_space ''iad'' = ''iad''" by code_simp
  moreover have "AppName (with_defaults (sample_deploy [''iad'', ''iad''] None)) = ''a''" by (simp add: sample_deploy_def with_defaults_def)
  moreover have "Regions (with_defaults (sample_deploy [''iad'', ''iad''] None)) = [''iad'', ''iad'']" by (simp add: sample_deploy_def with_defaults_def)
  moreover have "0 < HealthTimeout (with_defaults (sample_deploy [''iad'', ''iad''] None))"
    by (simp add: sample_deploy_def with_defaults_def dur_units)
  moreover have "check_deploy (sample_deploy [''iad'', ''iad''] None) = None" by (simp add: sample_deploy_def check_deploy_def)
  moreover have "machines_by_region [zero_machine\<lparr>Machine_ID := ''m'', Machine_Region := ''ord'', Machine_State := ''started''\<rparr>]
      = [(''ord'', zero_machine\<lparr>Machine_ID := ''m'', Machine_Region := ''ord'', Machine_State := ''started''\<rparr>)]"
    by (simp add: machines_by_region_def)
  ultimately show ?thesis
    using small_config [of "[''iad'', ''iad'']"]
    by (simp add: deploy_def deploy_steps_def ensure_app_def ensure_ips_def ensure_machine_def small_ops small_healthy
        gm_get_def desired_request_def sample_client_sel Let_def)
qed

section \<open>Property\<close>

text \<open>
  C2: a deployment converges. Let a service have at most one machine a region and none without, and the configuration be
  of values Go can have, its regions without surrounding space and not empty, as the command line
  gives them. Then a deployment that succeeds leaves a wanted region that had a machine with that one
  machine, of the wanted configuration; a wanted region that had none with as many machines of that
  configuration as it is named in the list, so with more than one where the list repeats it; and
  a region that is not wanted gains nothing and, where the service accepts the destructions, is empty.
\<close>

theorem deploy_converges:
  assumes "fleet_service env c (AppName cfg) fleet" "config_ok (desired_config (with_defaults cfg))" "visits ord"
    and "\<forall>r\<in>set (Regions cfg). trim_space r = r \<and> r \<noteq> []" "one_each (fleet w)"
    and "deploy fuel env ord c cfg w = Some (Inr res, w')"
  shows "(\<forall>r\<in>set (Regions cfg). settled (with_defaults cfg) (count_list (Regions cfg) r) (fleet w) r (fleet w'))
    \<and> (\<forall>r. r \<notin> set (Regions cfg) \<longrightarrow> in_region (fleet w') r \<subseteq> in_region (fleet w) r
         \<and> (accepts_destroys env c (AppName cfg) \<longrightarrow> in_region (fleet w') r = {}))"
proof -
  from assms(6) obtain v where v: "deploy_steps env ord c (with_defaults cfg) w = (Inr res, v)"
    and w': "w' = v \<or> wait_all fuel env c (AppName cfg) (HealthTimeout (with_defaults cfg)) (Result_Machines res) v = Some w'"
    by (auto simp: deploy_def Let_def split: option.splits prod.splits sum.splits if_splits)
  have "keeps_fleet env c (AppName cfg) fleet" using assms(1) by (simp add: fleet_service_def)
  with w' have "fleet w' = fleet v" by (auto dest: wait_all_fleet)
  moreover note deploy_steps_fleet [of env c "with_defaults cfg" fleet ord w res v]
  ultimately show ?thesis using assms(1-5) v by simp
qed

theorem deploy_converges_witness:
  "\<exists>res w'. deploy 1 small_service rev sample_client (sample_deploy [''iad'', ''iad''] None) [(''m'', ''ord'', JNull)]
        = Some (Inr res, w')
    \<and> card (in_region (small_fleet w') ''iad'') = 2
    \<and> (\<forall>(i, x)\<in>in_region (small_fleet w') ''iad''. wanted (with_defaults (sample_deploy [''iad'', ''iad''] None)) x)
    \<and> in_region (small_fleet w') ''ord'' = {}"
proof -
  let ?cfg = "sample_deploy [''iad'', ''iad''] None" and ?w = "[(''m'', ''ord'', JNull)]"
  obtain res w' where d: "deploy 1 small_service rev sample_client ?cfg ?w = Some (Inr res, w')"
    using small_deploys by blast
  have s: "fleet_service small_service sample_client (AppName ?cfg) small_fleet"
    using small_reports small_changes small_keeps by (simp add: fleet_service_def sample_deploy_def)
  have rs: "\<forall>r\<in>set (Regions ?cfg). trim_space r = r \<and> r \<noteq> []"
    by (simp add: sample_deploy_def) code_simp
  have one: "one_each (small_fleet ?w)" and none: "in_region (small_fleet ?w) ''iad'' = {}"
    by (auto simp: one_each_def in_region_def small_fleet_def split: if_splits)
  have ac: "accepts_destroys small_service sample_client (AppName ?cfg)"
    by (simp add: accepts_destroys_def sample_deploy_def small_ops)
  note c = deploy_converges [OF s small_config visits_rev rs one d]
  have "settled (with_defaults ?cfg) 2 (small_fleet ?w) ''iad'' (small_fleet w')" "in_region (small_fleet w') ''ord'' = {}"
    using c ac by (simp_all add: sample_deploy_def numeral_2_eq_2)
  with none d show ?thesis unfolding settled_def by auto
qed

end
