(* ===== verification/Spec2Isabelle.thy ===== *)
theory Spec2Isabelle
  imports Quota Ratelimit Cli_Deploy Serve_Run Fly_Converge
begin

text \<open>
  \<^bold>\<open>turnfly, verified.\<close>  The program is a TURN server for Fly.io that can deploy itself: one Go binary
  whose commands serve, deploy, generate configurations and measure.  This development models its
  Go code, all packages under \<open>internal/\<close> and the commands of \<open>cmd/turnfly/main.go\<close>, and proves what
  makes the parts correct, alone and together.  Where the code does something else than its
  comments and documents say, the theorem states what the code does and its text says so.

  \<^bold>\<open>The parts and how they interact.\<close>
  \<^item> \<open>serve-turn\<close> runs two servers in one process: the TURN server, which asks a callback for the key of
    a user, and the HTTP control API, which issues credentials, lists regions, takes ICE reports and
    reports health.  They share the secret and the region store.
  \<^item> \<open>serve-relay\<close> runs one end of a relay pair: a proxy puts packets into frames and sends them as
    datagrams of a QUIC tunnel, keeping a session per flow.
  \<^item> \<open>autodeploy\<close>, \<open>deploy\<close>, \<open>destroy\<close> and \<open>image push\<close> drive the Docker Engine and the Fly Machines API.
  \<^item> \<open>ice-config\<close> prints configurations for browsers, \<open>probe\<close> simulates a measurement.

  \<^bold>\<open>Theories.\<close>  What Go and its library give the program:
  \<^item> \<open>Prelude\<close>: wrapping 64-bit integers, maps as association lists with distinct keys (\<open>gm_get\<close>, \<open>gm_put\<close>,
    \<open>gm_del\<close>), the order of a \<open>range\<close> over a map as a function that \<open>visits\<close> every entry once, and the
    contracts as locales: \<open>invariant_machine\<close>, \<open>capped_counter\<close>, \<open>labelled_machine\<close>, \<open>codec\<close>, \<open>keyed_store\<close>.
  \<^item> \<open>Go_Strings\<close>, \<open>Go_Time\<close>, \<open>Go_Bytes\<close>, \<open>Go_Float\<close>, \<open>Go_Crypto\<close>, \<open>Go_Json\<close>, \<open>Http\<close>: the functions of the
    standard library the program uses, as far as it uses them; \<open>float64\<close> with its rounding, SHA-1,
    HMAC and base64 written out, and of \<open>ServeMux\<close> which requests it redirects, refuses or
    dispatches (the redirect answer itself is a parameter).

  The components, each with its state, one definition per function of the source and its lemmas:
  \<^item> \<open>Auth\<close> (\<open>internal/auth\<close>): credentials and their validation.  \<open>Turn_Server\<close> (\<open>internal/turnserver\<close>):
    the callback, start and shutdown.
  \<^item> \<open>Quota\<close> (\<open>internal/quota\<close>): the tracker, with a multiset of held allocations as the specification it
    refines.  \<open>Ratelimit\<close> (\<open>internal/ratelimit\<close>): token buckets, their cleanup, the middleware.
  \<^item> \<open>Regions\<close> (\<open>internal/regions\<close>), \<open>Health\<close> (\<open>internal/health\<close>), \<open>Config\<close> (\<open>internal/config\<close>), \<open>Metrics\<close>
    (\<open>internal/metrics\<close>), \<open>Control_Api\<close> (\<open>internal/controlapi\<close>): store, checks, configuration,
    metrics, and the handlers with their routing, guard and middleware.
  \<^item> \<open>Relay_Frame\<close>, \<open>Relay_Session\<close>, \<open>Relay_Tunnel\<close>, \<open>Relay_Proxy\<close>, \<open>Relay_Cert\<close> (the files of
    \<open>internal/relay\<close>): frames byte by byte; sessions in a heap, since pointers to them outlive their
    registration; the tunnel, with the nil \<open>quic.Config\<close> it passes; the event loop as a labelled step relation; the certificate.
  \<^item> \<open>Fly_Types\<close>, \<open>Fly_Client\<close>, \<open>Fly_Deployer\<close> (the files of \<open>internal/flydeploy\<close>): data with their JSON,
    one operation per request, and the exact requests of a deployment; \<open>Fly_Converge\<close> has its
    specification over the fleet of machines, which it refines.  \<open>Container_Image\<close>
    (\<open>internal/containerimage/docker.go\<close>): build context, build, push, progress stream.
  \<^item> \<open>Cli_Deploy\<close> and \<open>Cli_Serve\<close> (\<open>cmd/turnfly/main.go\<close>): the commands, with the defaults of their flags.
    \<open>Serve_Run\<close>: a run of \<open>serve-turn\<close>, its three goroutines as a labelled step relation.

  This theory joins a deployment with the server it starts.

  \<^bold>\<open>How code becomes definitions.\<close>  A method takes its receiver and returns it updated; a mutex makes a
  method one step.  An error is the left side of a sum or a \<open>Some\<close>, with a constructor for the text
  that wraps it; a panic is \<open>None\<close>.  Every reading of the clock is an argument, or a step of the
  world where the code waits.  What is not in the repository is a parameter: Pion's key derivation
  and server, QUIC, the Docker Engine, the Fly API, the Prometheus registry and handler, signing,
  the network and the random source are records of functions on a world of type \<open>'w\<close>.  What a
  theorem needs of them is a hypothesis named after the documented behaviour (\<open>closes_listener\<close>,
  \<open>by_name\<close>, \<open>rand_fills\<close>, \<open>progresses\<close>, \<open>fleet_service\<close>), and its witness meets it.  Whether \<open>http.NewRequest\<close>
  accepts a URL is such a parameter as well, and no theorem assumes that it does: a request it refuses is
  an error of the command and is not in the log.  The \<open>errgroup\<close> of
  \<open>serve-turn\<close> is part of its step relation, as documented: the first error wins and cancels.

  \<^bold>\<open>What the lemmas show.\<close>
  \<^item> Round trips and codecs: frames, credentials, decimal numbers, machine configurations and the
    environment, as interpretations of \<open>codec\<close> and as theorems; with the exact set of inputs each
    decoder accepts and the error it gives for every other.
  \<^item> Invariants over all runs: quota levels and caps, the registry of sessions, the accounting and the
    window of the proxy, the region store, the control between the goroutines of the server.
  \<^item> Bounds: what a rate limiter with rounding lets through in a window, what a minute of credential
    requests and a lifetime of bytes amount to, where a requested lifetime overflows.
  \<^item> Requests in order: every command is run in an environment that logs its requests, and the log is
    characterised: a deployment destroys exactly the machines of regions no longer wanted, a converged
    deployment and a dry run change nothing, an image is built before it is pushed and pushed before
    machines run it, no request follows a failed one.
  \<^item> Refinement: admission refines a count of allocations, and a deployment refines the update of a
    fleet to one machine of the wanted configuration in each wanted region.
  \<^item> Termination and liveness: the loops of a deployment and the goroutines of the server end.
  \<^item> End to end: a packet through two proxies; a credential from the API to the TURN callback, which
    rejects it; a deployment and the ports of the server it starts.

  \<^bold>\<open>Fuel.\<close>  Only the polling of machines has fuel, one unit a poll.  It polls every ten seconds and gives
  up at a deadline, five minutes by default, so 31 polls are enough whenever waiting lets the clock go
  on (\<open>progresses\<close>), and the theorems on \<open>deploy\<close> and the commands say that with this fuel they
  return.  All other loops recurse on their data.

  \<^bold>\<open>Not modelled.\<close>  The registration of commands and flags with cobra; log lines, and the texts of error
  messages beyond what their constructors keep; the figures \<open>probe\<close> prints; the byte syntax of JSON
  texts and of tar archives (a text is the value it denotes, an archive the list of its entries);
  a directory tree that changes while it is archived;
  interleavings inside a method of a component whose mutex excludes them, and inside the start and the
  shutdown of the TURN server, each one step of \<open>Serve_Run\<close>; infinities and NaN in the floats of the
  limiter; \<open>WaitRequest\<close>, \<open>deployRequest\<close> and \<open>deployResponse\<close>, types no code uses.
\<close>

section \<open>A deployment and the server it deploys\<close>

lemma printed_ports: "show_int 3478 = ''3478''" "show_int 8080 = ''8080''"
proof -
  have "digit_char 0 = CHR ''0''" "digit_char 3 = CHR ''3''" "digit_char 4 = CHR ''4''" "digit_char 7 = CHR ''7''"
    "digit_char 8 = CHR ''8''"
    by code_simp+
  then show "show_int 3478 = ''3478''" "show_int 8080 = ''8080''" by (simp_all add: show_int_def show_nat.simps)
qed

text \<open>
  C29: what \<open>autodeploy\<close> deploys starts and can be reached: on a machine with the variables it sent,
  beside whatever Fly sets there, \<open>serve-turn\<close> without flags passes validation and starts its servers,
  at UDP port 3478 on every address and at HTTP port 8080, and these are the ports the services of
  the machine forward to; provided the random source is in order, no \<open>--env\<close> flag sets a port or the
  log level, and the metrics are registered.  A TCP service forwards to the TURN port as well.
\<close>

theorem deployed_server_boots:
  assumes "autodeploy_plan sys f w = (Inr (cfg, dc), w')" and "rand_fills (rand sys)"
    and "\<forall>k\<in>{''TURN_PORT'', ''HTTP_PORT'', ''LOG_LEVEL''}. list_all (\<lambda>e. \<not> has_prefix e (k @ ''='')) (auto_env f)"
    and "\<forall>k\<in>{''TURN_PORT'', ''TURN_REALM'', ''TURN_SHARED_SECRET'', ''HTTP_PORT'', ''ADMIN_API_TOKEN'', ''LOG_LEVEL''}.
           menv k = env_lookup (the (DeployEnv dc)) k"
    and "fst (register_metrics add r)"
  shows "\<exists>cfg'. serve_turn_command add r menv serve_turn_defaults wm = Some (Inr (cfg', serve_boot menv cfg' wm))
    \<and> TurnListenAddr (serve_turn_cfg cfg') = ''0.0.0.0:3478'' \<and> http_addr cfg' = '':8080''
    \<and> map (\<lambda>v. (Protocol v, InternalPort v)) (the (Services (desired_config (with_defaults dc))))
        = [(''udp'', TURNPort cfg'), (''tcp'', TURNPort cfg'), (''tcp'', HTTPPort cfg')]"
proof -
  let ?cfg = "load_from_env menv DefaultConfig"
  let ?m = "load_from_env (env_lookup (the (DeployEnv dc))) DefaultConfig"
  from assms(1) obtain rs img env secret admin wa wb where p:
    "parse_env_flags (auto_env f) = Inr env"
    "dc = cli_deploy_config cfg rs img (deployed_env (auto_realm_of cfg f) secret admin (FlyAppName cfg) env)"
    by (rule plan_cases)
  have unset: "menv k = []" if "k \<in> {''TURN_PORT'', ''HTTP_PORT'', ''LOG_LEVEL''}" for k
  proof -
    have "gm_get env k = None" using that assms(3) by (intro parse_env_flags_other [OF p(1)]) blast
    then show ?thesis
      using that assms(4) by (auto simp: p(2) cli_deploy_config_def deployed_env_def env_lookup_def)
  qed
  then have ports: "TURNPort ?cfg = 3478" "HTTPPort ?cfg = 8080"
    by (simp_all add: loaded_TURNPort loaded_HTTPPort DefaultConfig_def)
  have same: "menv k = env_lookup (the (DeployEnv dc)) k"
    if "k \<in> {''TURN_PORT'', ''TURN_REALM'', ''TURN_SHARED_SECRET'', ''HTTP_PORT'', ''ADMIN_API_TOKEN'', ''LOG_LEVEL''}" for k
    by (rule assms(4) [rule_format, OF that])
  have "TURNRealm ?cfg = TURNRealm ?m" "TURNSharedSecret ?cfg = TURNSharedSecret ?m"
    "AdminAPIToken ?cfg = AdminAPIToken ?m" "LogLevel ?cfg = LogLevel ?m"
    by (simp_all add: loaded_TURNRealm loaded_TURNSharedSecret loaded_AdminAPIToken loaded_LogLevel same)
  moreover have "TURNPort ?m = 3478" "HTTPPort ?m = 8080"
    using unset [of "''TURN_PORT''"] unset [of "''HTTP_PORT''"] same [of "''TURN_PORT''"] same [of "''HTTP_PORT''"]
    by (simp_all add: loaded_TURNPort loaded_HTTPPort DefaultConfig_def)
  ultimately have "config_validate ?cfg = config_validate ?m"
    by (simp only: config_validate_def ports)
  with autodeploy_server_starts [OF assms(1-3)] have "config_validate ?cfg = []" by simp
  then have "serve_turn_command add r menv serve_turn_defaults wm = Some (Inr (?cfg, serve_boot menv ?cfg wm))"
    using assms(5) by (simp add: serve_turn_command_def serve_turn_config_def serve_turn_defaults_def override_def)
  moreover have "HealthPort (with_defaults dc) = 8080"
    by (simp add: p(2) cli_deploy_config_def with_defaults_def)
  ultimately show ?thesis
    by (intro exI [of _ ?cfg]) (simp add: ports printed_ports serve_turn_cfg_def http_addr_def desired_config_def)
qed

theorem deployed_server_boots_witness:
  "\<exists>cfg dc cfg'. autodeploy_plan sample_system (sample_auto False) 0 = (Inr (cfg, dc), 0)
     \<and> serve_turn_command (\<lambda>m r. if Metric_Name m \<in> set r then None else Some (Metric_Name m # r)) []
         (env_lookup (the (DeployEnv dc))) serve_turn_defaults ()
       = Some (Inr (cfg', serve_boot (env_lookup (the (DeployEnv dc))) cfg' () :: (nat, nat, unit) serving))
     \<and> http_addr cfg' = '':8080''"
proof -
  obtain cfg dc where p: "autodeploy_plan sample_system (sample_auto False) 0 = (Inr (cfg, dc), 0)"
    using sample_auto_plan [OF refl sample_rand(1)] by blast
  have "\<forall>k\<in>{''TURN_PORT'', ''HTTP_PORT'', ''LOG_LEVEL''}.
      list_all (\<lambda>e. \<not> has_prefix e (k @ ''='')) (auto_env (sample_auto False))"
    by (simp add: sample_auto_def has_prefix_def)
  from deployed_server_boots [OF p sample_rand(2) this _ metrics_register_once_witness,
      where menv = "env_lookup (the (DeployEnv dc))" and wm = "()"]
  have "\<exists>cfg'. serve_turn_command (\<lambda>m r. if Metric_Name m \<in> set r then None else Some (Metric_Name m # r)) []
         (env_lookup (the (DeployEnv dc))) serve_turn_defaults ()
       = Some (Inr (cfg', serve_boot (env_lookup (the (DeployEnv dc))) cfg' () :: (nat, nat, unit) serving))
       \<and> http_addr cfg' = '':8080''"
    by blast
  with p show ?thesis by blast
qed

end
